(* ===== verification/Civ_Prelude.thy ===== *)
theory Civ_Prelude
  imports Main "HOL-Library.Sublist"
begin

text \<open>
  Shared vocabulary of the development.  A C++ member function that may change state, throw,
  dereference a null pointer or block is a value of type \<open>('s, 'a) cpp\<close>: it takes the state the
  function can reach and gives back how the call ended (\<open>outcome\<close>) together with the state it left
  behind.  A C++ exception does not undo the writes made before it, so the state is part of the
  result on every branch.  The theory also holds the small program logic the components use:
  \<open>within R m\<close> (every run of \<open>m\<close> relates its first and its last state by \<open>R\<close>) and
  \<open>yields m P\<close> (a condition on how every run ends), with their composition rules in the collections
  \<open>within_rules\<close> and \<open>yields_rules\<close>.
\<close>

named_theorems within_rules \<open>composition rules for the state relation of a run\<close>
named_theorems yields_rules \<open>composition rules for how a run ends\<close>
named_theorems run_simps \<open>equations that execute a call on a state\<close>
named_theorems ret_iffs \<open>when a composed call returns a given value\<close>

section \<open>Outcomes of a C++ call\<close>

text \<open>The exceptions the code base meets, named by the class that is thrown.\<close>

datatype exn =
    Invalid_argument
  | Out_of_range
  | Ini_parser_error
  | Ptree_error
  | Filesystem_error
  | Process_error
  | Interprocess_exception
  | Program_options_error

text \<open>
  \<open>Ret\<close>: the call returned; \<open>Throw\<close>: it left by an exception; \<open>Crash\<close>: the process is gone or its
  behaviour is undefined (null dereference, an exception that leaves a thread function, signed
  overflow); \<open>Hang\<close>: the call blocks for ever.
\<close>

datatype 'a outcome = is_Ret: Ret 'a | Throw exn | is_Crash: Crash | Hang

type_synonym ('s, 'a) cpp = "'s \<Rightarrow> 'a outcome \<times> 's"

definition cret :: "'a \<Rightarrow> ('s, 'a) cpp" where
  "cret x = (\<lambda>s. (Ret x, s))"

definition cthrow :: "exn \<Rightarrow> ('s, 'a) cpp" where
  "cthrow e = (\<lambda>s. (Throw e, s))"

definition ccrash :: "('s, 'a) cpp" where
  "ccrash = (\<lambda>s. (Crash, s))"

definition chang :: "('s, 'a) cpp" where
  "chang = (\<lambda>s. (Hang, s))"

definition cbind :: "('s, 'a) cpp \<Rightarrow> ('a \<Rightarrow> ('s, 'b) cpp) \<Rightarrow> ('s, 'b) cpp" where
  "cbind m f = (\<lambda>s. case m s of
       (Ret x, t) \<Rightarrow> f x t
     | (Throw e, t) \<Rightarrow> (Throw e, t)
     | (Crash, t) \<Rightarrow> (Crash, t)
     | (Hang, t) \<Rightarrow> (Hang, t))"

definition cseq :: "('s, unit) cpp \<Rightarrow> ('s, 'b) cpp \<Rightarrow> ('s, 'b) cpp" where
  "cseq m n = cbind m (\<lambda>_. n)"

definition cget :: "('s \<Rightarrow> 'a) \<Rightarrow> ('s, 'a) cpp" where
  "cget f = (\<lambda>s. (Ret (f s), s))"

definition cmodify :: "('s \<Rightarrow> 's) \<Rightarrow> ('s, unit) cpp" where
  "cmodify f = (\<lambda>s. (Ret (), f s))"

definition cwhen :: "bool \<Rightarrow> ('s, unit) cpp \<Rightarrow> ('s, unit) cpp" where
  "cwhen b m = (if b then m else cret ())"

text \<open>\<open>try { m } catch (std::exception &) { h }\<close>: undefined behaviour and blocking are not caught.\<close>

definition ctry :: "('s, 'a) cpp \<Rightarrow> (exn \<Rightarrow> ('s, 'a) cpp) \<Rightarrow> ('s, 'a) cpp" where
  "ctry m h = (\<lambda>s. case m s of (Throw e, t) \<Rightarrow> h e t | r \<Rightarrow> r)"

text \<open>A range-based \<open>for\<close> whose body may leave the loop by an exception.\<close>

primrec cfor :: "'a list \<Rightarrow> ('a \<Rightarrow> ('s, unit) cpp) \<Rightarrow> ('s, unit) cpp" where
  "cfor [] f = cret ()"
| "cfor (x # xs) f = cseq (f x) (cfor xs f)"

lemma cret_run [run_simps]: "cret x s = (Ret x, s)"
  by (simp add: cret_def)

lemma cthrow_run [run_simps]: "cthrow e s = (Throw e, s)"
  by (simp add: cthrow_def)

lemma ccrash_run [run_simps]: "ccrash s = (Crash, s)"
  by (simp add: ccrash_def)

lemma chang_run [run_simps]: "chang s = (Hang, s)"
  by (simp add: chang_def)

lemma cget_run [run_simps]: "cget f s = (Ret (f s), s)"
  by (simp add: cget_def)

lemma cmodify_run [run_simps]: "cmodify f s = (Ret (), f s)"
  by (simp add: cmodify_def)

lemma cbind_run [run_simps]:
  "cbind m f s = (case m s of
       (Ret x, t) \<Rightarrow> f x t
     | (Throw e, t) \<Rightarrow> (Throw e, t)
     | (Crash, t) \<Rightarrow> (Crash, t)
     | (Hang, t) \<Rightarrow> (Hang, t))"
  by (simp add: cbind_def)

lemma cseq_run [run_simps]: "cseq m n s = cbind m (\<lambda>_. n) s"
  by (simp add: cseq_def)

lemma cwhen_run [run_simps]: "cwhen b m s = (if b then m s else (Ret (), s))"
  by (simp add: cwhen_def cret_def)

lemma ctry_Ret:
  "ctry m h s = (Ret x, t) \<Longrightarrow> (\<And>e s'. m s = (Throw e, s') \<Longrightarrow> h e s' \<noteq> (Ret x, t)) \<Longrightarrow> m s = (Ret x, t)"
  by (auto simp: ctry_def split: prod.splits outcome.splits)

lemma ctry_run [run_simps]:
  "ctry m h s = (case m s of (Throw e, t) \<Rightarrow> h e t | r \<Rightarrow> r)"
  by (simp add: ctry_def)

lemma cfor_Nil_run [run_simps]: "cfor [] f s = (Ret (), s)"
  by (simp add: cret_def)

lemma cfor_Cons_run [run_simps]: "cfor (x # xs) f s = cbind (f x) (\<lambda>_. cfor xs f) s"
  by (simp add: cseq_def)

lemma cbind_Ret_iff [ret_iffs]:
  "cbind m f s = (Ret y, u) \<longleftrightarrow> (\<exists>x t. m s = (Ret x, t) \<and> f x t = (Ret y, u))"
  by (auto simp: cbind_def split: prod.splits outcome.splits)

lemma cseq_Ret_iff [ret_iffs]:
  "cseq m n s = (Ret y, u) \<longleftrightarrow> (\<exists>t. m s = (Ret (), t) \<and> n t = (Ret y, u))"
  by (simp add: cseq_def cbind_Ret_iff)

lemma cret_Ret_iff [ret_iffs]: "cret x s = (Ret y, u) \<longleftrightarrow> y = x \<and> u = s"
  by (auto simp: cret_def)

lemma cthrow_Ret_iff [ret_iffs]: "cthrow e s = (Ret y, u) \<longleftrightarrow> False"
  by (simp add: cthrow_def)

lemma ccrash_Ret_iff [ret_iffs]: "ccrash s = (Ret y, u) \<longleftrightarrow> False"
  by (simp add: ccrash_def)

lemma chang_Ret_iff [ret_iffs]: "chang s = (Ret y, u) \<longleftrightarrow> False"
  by (simp add: chang_def)

lemma cget_Ret_iff [ret_iffs]: "cget f s = (Ret y, u) \<longleftrightarrow> y = f s \<and> u = s"
  by (auto simp: cget_def)

lemma cmodify_Ret_iff [ret_iffs]: "cmodify f s = (Ret y, u) \<longleftrightarrow> u = f s"
  by (auto simp: cmodify_def)

lemma cwhen_Ret_iff [ret_iffs]:
  "cwhen b m s = (Ret y, u) \<longleftrightarrow> (if b then m s = (Ret y, u) else u = s)"
  by (auto simp: cwhen_def cret_def)

lemma if_run: "(if b then m else n) s = (if b then m s else n s)"
  by simp

lemma cbind_assoc: "cbind (cbind m f) g = cbind m (\<lambda>x. cbind (f x) g)"
  by (rule ext) (simp add: cbind_def split: prod.splits outcome.splits)

lemma cbind_cret [simp]: "cbind m cret = m"
  by (rule ext) (simp add: cbind_def cret_def split: prod.splits outcome.splits)

lemma cret_cbind [simp]: "cbind (cret x) f = f x"
  by (rule ext) (simp add: cbind_def cret_def)

section \<open>What a run does to the state\<close>

definition within :: "('s \<Rightarrow> 's \<Rightarrow> bool) \<Rightarrow> ('s, 'a) cpp \<Rightarrow> bool" where
  "within R m \<longleftrightarrow> (\<forall>s. R s (snd (m s)))"

lemma withinI: "(\<And>s. R s (snd (m s))) \<Longrightarrow> within R m"
  by (simp add: within_def)

lemma withinD: "within R m \<Longrightarrow> m s = (r, t) \<Longrightarrow> R s t"
  unfolding within_def by (metis snd_conv)

lemma within_mono: "within R m \<Longrightarrow> (\<And>s t. R s t \<Longrightarrow> S s t) \<Longrightarrow> within S m"
  by (simp add: within_def)

text \<open>
  The composition rules hold for every relation that is reflexive and transitive: a preorder on
  states.  The components interpret the locale on the preorders they need (the command line only
  grows, the files a call may not touch are untouched, and so on).
\<close>

locale state_preorder =
  fixes R :: "'s \<Rightarrow> 's \<Rightarrow> bool"
  assumes refl: "R s s"
    and trans: "R s t \<Longrightarrow> R t u \<Longrightarrow> R s u"
begin

lemma within_cret: "within R (cret x)"
  by (simp add: within_def cret_def refl)

lemma within_cthrow: "within R (cthrow e)"
  by (simp add: within_def cthrow_def refl)

lemma within_ccrash: "within R ccrash"
  by (simp add: within_def ccrash_def refl)

lemma within_chang: "within R chang"
  by (simp add: within_def chang_def refl)

lemma within_cget: "within R (cget f)"
  by (simp add: within_def cget_def refl)

lemma within_cmodify: "(\<And>s. R s (f s)) \<Longrightarrow> within R (cmodify f)"
  by (simp add: within_def cmodify_def)

lemma within_cbind:
  assumes m: "within R m" and f: "\<And>x. within R (f x)"
  shows "within R (cbind m f)"
proof (rule withinI)
  fix s
  obtain r t where run: "m s = (r, t)" by (cases "m s")
  have st: "R s t" using m run by (rule withinD)
  have "R t (snd (f x t))" for x using f by (simp add: within_def)
  then show "R s (snd (cbind m f s))"
    using st run by (cases r) (auto simp: cbind_def intro: trans)
qed

lemma within_cseq: "within R m \<Longrightarrow> within R n \<Longrightarrow> within R (cseq m n)"
  unfolding cseq_def by (rule within_cbind)

lemma within_cwhen: "within R m \<Longrightarrow> within R (cwhen b m)"
  by (simp add: cwhen_def within_cret)

lemma within_ctry:
  assumes m: "within R m" and h: "\<And>e. within R (h e)"
  shows "within R (ctry m h)"
proof (rule withinI)
  fix s
  obtain r t where run: "m s = (r, t)" by (cases "m s")
  have st: "R s t" using m run by (rule withinD)
  have "R t (snd (h e t))" for e using h by (simp add: within_def)
  then show "R s (snd (ctry m h s))"
    using st run by (cases r) (auto simp: ctry_def intro: trans)
qed

lemma within_cfor: "(\<And>x. within R (f x)) \<Longrightarrow> within R (cfor xs f)"
  by (induction xs) (simp_all add: within_cret within_cseq)

lemma within_if: "(b \<Longrightarrow> within R m) \<Longrightarrow> (\<not> b \<Longrightarrow> within R n) \<Longrightarrow> within R (if b then m else n)"
  by simp

text \<open>Case distinctions.\<close>

lemma opt: "within R m \<Longrightarrow> (\<And>x. within R (f x)) \<Longrightarrow> within R (case a of None \<Rightarrow> m | Some x \<Rightarrow> f x)"
  by (cases a) simp_all

lemma prd: "(\<And>x y. within R (f x y)) \<Longrightarrow> within R (case a of (x, y) \<Rightarrow> f x y)"
  by (cases a) simp

lemma lst: "within R m \<Longrightarrow> (\<And>x xs. within R (f x xs)) \<Longrightarrow> within R (case a of [] \<Rightarrow> m | x # xs \<Rightarrow> f x xs)"
  by (cases a) simp_all

lemmas compose =
  within_cret within_cthrow within_ccrash within_chang within_cget within_cmodify
  within_cbind within_cseq within_cwhen within_ctry within_cfor within_if

end

section \<open>How a run ends\<close>

definition yields :: "('s, 'a) cpp \<Rightarrow> ('a outcome \<Rightarrow> bool) \<Rightarrow> bool" where
  "yields m P \<longleftrightarrow> (\<forall>s. P (fst (m s)))"

text \<open>\<open>safe m\<close>: no run of \<open>m\<close> meets undefined behaviour; \<open>returning m\<close>: every run returns normally.\<close>

abbreviation safe :: "('s, 'a) cpp \<Rightarrow> bool" where
  "safe m \<equiv> yields m (\<lambda>r. \<not> is_Crash r)"

abbreviation returning :: "('s, 'a) cpp \<Rightarrow> bool" where
  "returning m \<equiv> yields m is_Ret"

lemma yieldsD: "yields m P \<Longrightarrow> m s = (r, t) \<Longrightarrow> P r"
  unfolding yields_def by (metis fst_conv)

lemma returning_cret [yields_rules]: "returning (cret x)"
  by (simp add: yields_def cret_def)

lemma returning_cget [yields_rules]: "returning (cget f)"
  by (simp add: yields_def cget_def)

lemma returning_cmodify [yields_rules]: "returning (cmodify f)"
  by (simp add: yields_def cmodify_def)

lemma returning_cbind [yields_rules]:
  "returning m \<Longrightarrow> (\<And>x. returning (f x)) \<Longrightarrow> returning (cbind m f)"
  unfolding yields_def cbind_def
  by (auto split: prod.splits outcome.splits) (metis fst_conv is_Ret_def outcome.distinct)+

lemma returning_cseq [yields_rules]: "returning m \<Longrightarrow> returning n \<Longrightarrow> returning (cseq m n)"
  unfolding cseq_def by (rule returning_cbind)

lemma returning_cwhen [yields_rules]: "returning m \<Longrightarrow> returning (cwhen b m)"
  by (simp add: cwhen_def returning_cret)

lemma returning_cfor [yields_rules]: "(\<And>x. returning (f x)) \<Longrightarrow> returning (cfor xs f)"
  by (induction xs) (simp_all add: yields_rules)

lemma returning_if [yields_rules]:
  "(b \<Longrightarrow> returning m) \<Longrightarrow> (\<not> b \<Longrightarrow> returning n) \<Longrightarrow> returning (if b then m else n)"
  by simp

lemma returning_run: "returning m \<Longrightarrow> \<exists>x t. m s = (Ret x, t)"
  unfolding yields_def is_Ret_def by (metis prod.collapse)

section \<open>Triples\<close>

text \<open>
  \<open>triple P m Q X\<close>: a run of \<open>m\<close> that starts in a state with \<open>P\<close> either returns \<open>x\<close> in a state with \<open>Q x\<close>, or ends
  in another way (exception, undefined behaviour, blocking) in a state with \<open>X\<close>.
\<close>

fun ends :: "('a \<Rightarrow> 's \<Rightarrow> bool) \<Rightarrow> ('s \<Rightarrow> bool) \<Rightarrow> 'a outcome \<times> 's \<Rightarrow> bool" where
  "ends Q X (Ret x, t) = Q x t"
| "ends Q X (_, t) = X t"

definition triple :: "('s \<Rightarrow> bool) \<Rightarrow> ('s, 'a) cpp \<Rightarrow> ('a \<Rightarrow> 's \<Rightarrow> bool) \<Rightarrow> ('s \<Rightarrow> bool) \<Rightarrow> bool" where
  "triple P m Q X \<longleftrightarrow> (\<forall>s. P s \<longrightarrow> ends Q X (m s))"

lemma tripleD: "triple P m Q X \<Longrightarrow> P s \<Longrightarrow> m s = (r, t) \<Longrightarrow> ends Q X (r, t)"
  by (metis triple_def)

lemma ends_mono:
  "ends Q X e \<Longrightarrow> (\<And>x s. Q x s \<Longrightarrow> Q' x s) \<Longrightarrow> (\<And>s. X s \<Longrightarrow> X' s) \<Longrightarrow> ends Q' X' e"
  by (cases "(Q, X, e)" rule: ends.cases) auto

lemma triple_conseq:
  assumes "triple P m Q X" and "\<And>s. P' s \<Longrightarrow> P s" "\<And>x s. Q x s \<Longrightarrow> Q' x s" "\<And>s. X s \<Longrightarrow> X' s"
  shows "triple P' m Q' X'"
  unfolding triple_def
proof (intro allI impI)
  fix s assume "P' s"
  then have "ends Q X (m s)" using assms(1,2) by (simp add: triple_def)
  then show "ends Q' X' (m s)" by (rule ends_mono) (rule assms(3,4), assumption)+
qed

lemma triple_cbind:
  assumes "triple P m R X" and "\<And>x. triple (R x) (f x) Q X"
  shows "triple P (cbind m f) Q X"
  unfolding triple_def
proof (intro allI impI)
  fix s assume "P s"
  obtain r t where m: "m s = (r, t)" by (cases "m s")
  from tripleD [OF assms(1) \<open>P s\<close> m] show "ends Q X (cbind m f s)"
    using assms(2) m by (cases r) (auto simp: cbind_def triple_def)
qed

lemma triple_cseq: "triple P m (\<lambda>_. R) X \<Longrightarrow> triple R n Q X \<Longrightarrow> triple P (cseq m n) Q X"
  unfolding cseq_def by (rule triple_cbind)

lemma triple_cret: "(\<And>s. P s \<Longrightarrow> Q x s) \<Longrightarrow> triple P (cret x) Q X"
  by (simp add: triple_def cret_def)

lemma triple_within:
  assumes "within R m" and "\<And>s t. P s \<Longrightarrow> R s t \<Longrightarrow> P t" "\<And>s. P s \<Longrightarrow> X s"
  shows "triple P m (\<lambda>_. P) X"
  unfolding triple_def
proof (intro allI impI)
  fix s assume "P s"
  obtain r t where m: "m s = (r, t)" by (cases "m s")
  have "P t" using assms(2) [OF \<open>P s\<close>] withinD [OF assms(1) m] .
  with m assms(3) show "ends (\<lambda>_. P) X (m s)" by (cases r) auto
qed

lemma triple_if:
  "(b \<Longrightarrow> triple P m Q X) \<Longrightarrow> (\<not> b \<Longrightarrow> triple P n Q X) \<Longrightarrow> triple P (if b then m else n) Q X"
  by simp

text \<open>The early return: \<open>if (!ok) return false;\<close>\<close>

lemma triple_guard:
  "(\<And>s. P False s \<Longrightarrow> Q False s) \<Longrightarrow> triple (P True) n Q X \<Longrightarrow>
     triple (P ok) (if \<not> ok then cret False else n) Q X"
  by (cases ok) (simp_all add: triple_cret)

text \<open>\<open>hoare P m Q\<close>: the same, where only runs that return matter.\<close>

abbreviation any_end :: "'s \<Rightarrow> bool" where
  "any_end \<equiv> \<lambda>_. True"

abbreviation hoare :: "('s \<Rightarrow> bool) \<Rightarrow> ('s, 'a) cpp \<Rightarrow> ('a \<Rightarrow> 's \<Rightarrow> bool) \<Rightarrow> bool" where
  "hoare P m Q \<equiv> triple P m Q any_end"

lemma tripleI:
  assumes "\<And>s x t. P s \<Longrightarrow> m s = (Ret x, t) \<Longrightarrow> Q x t"
  shows "hoare P m Q"
  unfolding triple_def
proof (intro allI impI)
  fix s assume P: "P s"
  obtain r t where m: "m s = (r, t)" by (cases "m s")
  show "ends Q any_end (m s)" using assms [OF P] m by (cases r) auto
qed

lemma tripleE: "triple P m Q X \<Longrightarrow> P s \<Longrightarrow> m s = (Ret x, t) \<Longrightarrow> Q x t"
  by (metis ends.simps(1) tripleD)

lemma triple_cget: "triple P (cget f) (\<lambda>x s. P s \<and> x = f s) X"
  by (simp add: triple_def run_simps)

lemma cget_keeps: "triple P (cget f) (\<lambda>_. P) X"
  by (rule triple_conseq [OF triple_cget]) auto

lemma triple_modify: "(\<And>y. P y \<Longrightarrow> Q () (f y)) \<Longrightarrow> triple P (cmodify f) Q X"
  by (simp add: triple_def run_simps)

lemma triple_cwhen: "triple P m (\<lambda>_. P) X \<Longrightarrow> triple P (cwhen b m) (\<lambda>_. P) X"
  by (simp add: cwhen_def triple_cret)

lemma triple_fact: "(A \<Longrightarrow> triple P m Q X) \<Longrightarrow> triple (\<lambda>s. P s \<and> A) m Q X"
  by (auto simp: triple_def)

lemma triple_case_prod: "(\<And>x y. triple P (f x y) Q X) \<Longrightarrow> triple P (case z of (x, y) \<Rightarrow> f x y) Q X"
  by (cases z) simp

lemma opt_keeps:
  assumes "triple P n Q X" and "\<And>x. triple P (f x) Q X"
  shows "triple P (case a of None \<Rightarrow> n | Some x \<Rightarrow> f x) Q X"
  using assms by (cases a) simp_all

lemma throw_keeps: "hoare P (cthrow e) Q"
  by (simp add: triple_def cthrow_def)

lemma triple_ctry_crash: "hoare P m Q \<Longrightarrow> hoare P (ctry m (\<lambda>_. ccrash)) Q"
  by (rule tripleI) (auto simp: ctry_def ccrash_def split: outcome.splits prod.splits dest: tripleE)

text \<open>\<open>if (...) return x;\<close>\<close>

lemma hoare_guard: "(\<And>s. P s \<Longrightarrow> Q x s) \<Longrightarrow> hoare P m Q \<Longrightarrow> hoare P (if b then cret x else m) Q"
  by (auto intro: triple_cret)

text \<open>\<open>live P m Q\<close>: from a state with \<open>P\<close> the run does not block, and a value it returns satisfies \<open>Q\<close>.\<close>

definition live :: "('s \<Rightarrow> bool) \<Rightarrow> ('s, 'a) cpp \<Rightarrow> ('a \<Rightarrow> 's \<Rightarrow> bool) \<Rightarrow> bool" where
  "live P m Q \<longleftrightarrow> (\<forall>s. P s \<longrightarrow> fst (m s) \<noteq> Hang \<and> (\<forall>x t. m s = (Ret x, t) \<longrightarrow> Q x t))"

lemma liveD: "live P m Q \<Longrightarrow> P s \<Longrightarrow> fst (m s) \<noteq> Hang"
  by (simp add: live_def)

lemma liveI: "(\<And>s. P s \<Longrightarrow> fst (m s) \<noteq> Hang) \<Longrightarrow> (\<And>s x t. P s \<Longrightarrow> m s = (Ret x, t) \<Longrightarrow> Q x t) \<Longrightarrow> live P m Q"
  by (simp add: live_def)

lemma live_cbind:
  assumes "live P m R" and "\<And>x. live (R x) (f x) Q"
  shows "live P (cbind m f) Q"
proof (rule liveI)
  fix s assume "P s"
  obtain r t where m: "m s = (r, t)" by (cases "m s")
  show "fst (cbind m f s) \<noteq> Hang"
    using assms \<open>P s\<close> m by (cases r) (force simp: live_def cbind_def)+
next
  fix s x t assume "P s" "cbind m f s = (Ret x, t)"
  then show "Q x t" using assms by (auto simp: live_def cbind_Ret_iff)
qed

lemma live_cseq: "live P m (\<lambda>_. R) \<Longrightarrow> live R n Q \<Longrightarrow> live P (cseq m n) Q"
  unfolding cseq_def by (rule live_cbind)

lemma live_cret: "(\<And>s. P s \<Longrightarrow> Q x s) \<Longrightarrow> live P (cret x) Q"
  by (auto simp: live_def cret_def)

lemma live_ccrash: "live P ccrash Q"
  by (simp add: live_def ccrash_def)

lemma live_if: "(b \<Longrightarrow> live P m Q) \<Longrightarrow> (\<not> b \<Longrightarrow> live P n Q) \<Longrightarrow> live P (if b then m else n) Q"
  by simp

lemma live_conseq:
  assumes "live P m Q" and "\<And>s. P' s \<Longrightarrow> P s" "\<And>x s. Q x s \<Longrightarrow> Q' x s"
  shows "live P' m Q'"
  using assms(1) by (auto simp: live_def dest!: assms(2) intro: assms(3))

lemma live_assume: "(a \<Longrightarrow> live P m Q) \<Longrightarrow> live (\<lambda>s. P s \<and> a) m Q"
  by (auto simp: live_def)

section \<open>Lists\<close>

text \<open>\<open>erase\<close> of one element of a \<open>std::vector\<close> at a valid index.\<close>

definition erase_at :: "nat \<Rightarrow> 'a list \<Rightarrow> 'a list" where
  "erase_at i xs = take i xs @ drop (Suc i) xs"

lemma erase_at_split: "i < length xs \<Longrightarrow> xs = take i xs @ xs ! i # drop (Suc i) xs"
  by (simp add: id_take_nth_drop)

lemma set_erase_at_subset: "set (erase_at i xs) \<subseteq> set xs"
  unfolding erase_at_def using set_take_subset set_drop_subset by fastforce

lemma map_erase_at: "map f (erase_at i xs) = erase_at i (map f xs)"
  by (simp add: erase_at_def take_map drop_map)

lemma distinct_erase_at: "distinct xs \<Longrightarrow> distinct (erase_at i xs)"
  unfolding erase_at_def
  by (simp add: set_take_disj_set_drop_if_distinct)

lemma erase_at_notin: "distinct xs \<Longrightarrow> i < length xs \<Longrightarrow> xs ! i \<notin> set (erase_at i xs)"
proof -
  assume d: "distinct xs" and i: "i < length xs"
  have "distinct (take i xs @ xs ! i # drop (Suc i) xs)"
    using d erase_at_split [OF i] by metis
  then show ?thesis by (simp add: erase_at_def)
qed

lemma set_erase_at: "distinct xs \<Longrightarrow> i < length xs \<Longrightarrow> set (erase_at i xs) = set xs - {xs ! i}"
proof -
  assume d: "distinct xs" and i: "i < length xs"
  have "set xs = set (take i xs @ xs ! i # drop (Suc i) xs)"
    using erase_at_split [OF i] by metis
  then have "set xs = insert (xs ! i) (set (erase_at i xs))"
    by (auto simp: erase_at_def)
  with erase_at_notin [OF d i] show ?thesis by auto
qed

lemma length_erase_at: "i < length xs \<Longrightarrow> length (erase_at i xs) = length xs - 1"
  by (simp add: erase_at_def)

end
