(* ===== verification/Cpp_Std.thy ===== *)
theory Cpp_Std
  imports Civ_Prelude "HOL-Library.Word" "HOL-Library.List_Lexorder" "HOL-Library.Char_ord"
begin

text \<open>
  The parts of the C and C++ standard library that the sources use on strings and numbers:
  character classes, \<open>std::string\<close> searching, \<open>strtol\<close> and the \<open>std::stoi\<close>, \<open>std::stoul\<close>,
  \<open>atoi\<close>, \<open>sscanf("%u")\<close> and \<open>istream >> int\<close> built on it, \<open>std::to_string\<close>, and reading a text
  file by \<open>getline\<close>.  Characters are bytes, \<open>int\<close> has 32 and \<open>long\<close> and \<open>size_t\<close> have 64 bits (the
  x86-64 target of the project).  \<open>std::string::npos\<close> is the value \<open>None\<close> of an optional position.
\<close>

type_synonym u32 = "32 word"
type_synonym path = string

section \<open>Characters\<close>

definition isspace :: "char \<Rightarrow> bool" where
  "isspace c \<longleftrightarrow> c = CHR '' '' \<or> (9 \<le> (of_char c :: nat) \<and> (of_char c :: nat) \<le> 13)"

definition toupper :: "char \<Rightarrow> char" where
  "toupper c = (let n = (of_char c :: nat) in if 97 \<le> n \<and> n \<le> 122 then char_of (n - 32) else c)"

definition tolower :: "char \<Rightarrow> char" where
  "tolower c = (let n = (of_char c :: nat) in if 65 \<le> n \<and> n \<le> 90 then char_of (n + 32) else c)"

definition char_in :: "char \<Rightarrow> char \<Rightarrow> char \<Rightarrow> bool" where
  "char_in lo hi c \<longleftrightarrow> (of_char lo :: nat) \<le> of_char c \<and> (of_char c :: nat) \<le> of_char hi"

definition digit_val :: "char \<Rightarrow> nat option" where
  "digit_val c = (let n = (of_char c :: nat) in
     if 48 \<le> n \<and> n \<le> 57 then Some (n - 48)
     else if 97 \<le> n \<and> n \<le> 122 then Some (n - 87)
     else if 65 \<le> n \<and> n \<le> 90 then Some (n - 55)
     else None)"

definition is_digit_of :: "nat \<Rightarrow> char \<Rightarrow> bool" where
  "is_digit_of b c = (case digit_val c of None \<Rightarrow> False | Some d \<Rightarrow> d < b)"

abbreviation newline :: char where
  "newline \<equiv> CHR 0x0A"

section \<open>Searching in strings\<close>

definition str_find :: "char \<Rightarrow> string \<Rightarrow> nat option" where
  "str_find c s = (if c \<in> set s then Some (length (takeWhile (\<lambda>x. x \<noteq> c) s)) else None)"

definition find_first_not_of :: "char \<Rightarrow> string \<Rightarrow> nat option" where
  "find_first_not_of c s =
     (if \<forall>x \<in> set s. x = c then None else Some (length (takeWhile (\<lambda>x. x = c) s)))"

text \<open>\<open>s.find_first_of(c, pos)\<close>\<close>

definition find_first_of_from :: "char \<Rightarrow> nat \<Rightarrow> string \<Rightarrow> nat option" where
  "find_first_of_from c pos s = map_option (\<lambda>i. pos + i) (str_find c (drop pos s))"

text \<open>\<open>s.substr(0, n)\<close>, where \<open>n\<close> may be \<open>npos\<close>\<close>

definition substr_to :: "nat option \<Rightarrow> string \<Rightarrow> string" where
  "substr_to n s = (case n of None \<Rightarrow> s | Some k \<Rightarrow> take k s)"

text \<open>\<open>s.substr(n + 1)\<close>: \<open>npos + 1\<close> wraps around to 0, so the whole string is taken\<close>

definition substr_after :: "nat option \<Rightarrow> string \<Rightarrow> string" where
  "substr_after n s = (case n of None \<Rightarrow> s | Some k \<Rightarrow> drop (Suc k) s)"

text \<open>GNU \<open>basename\<close>: what follows the last slash\<close>

definition basename :: "string \<Rightarrow> string" where
  "basename s = rev (takeWhile (\<lambda>c. c \<noteq> CHR ''/'') (rev s))"

lemma str_find_SomeD:
  assumes "str_find c s = Some k"
  shows "k < length s" and "s ! k = c" and "take k s = takeWhile (\<lambda>x. x \<noteq> c) s"
proof -
  have c: "c \<in> set s" and k: "k = length (takeWhile (\<lambda>x. x \<noteq> c) s)"
    using assms by (auto simp: str_find_def split: if_splits)
  obtain us vs where s: "s = us @ c # vs" "c \<notin> set us" using c by (meson split_list_first)
  then have tw: "takeWhile (\<lambda>x. x \<noteq> c) s = us" by (auto simp: takeWhile_append)
  show "k < length s" and "s ! k = c" and "take k s = takeWhile (\<lambda>x. x \<noteq> c) s"
    using k tw s by auto
qed

lemma substr_to_find: "substr_to (str_find c s) s = takeWhile (\<lambda>x. x \<noteq> c) s"
proof (cases "str_find c s")
  case None
  then have "c \<notin> set s" by (auto simp: str_find_def split: if_splits)
  then have tw: "takeWhile (\<lambda>x. x \<noteq> c) s = s" by (auto simp: takeWhile_eq_all_conv)
  show ?thesis by (simp only: None substr_to_def option.case tw)
next
  case (Some k)
  then show ?thesis by (simp add: substr_to_def str_find_SomeD)
qed

section \<open>Reading numbers\<close>

text \<open>
  \<open>strtol\<close> and \<open>strtoul\<close> share one scanner: white space, an optional sign, the base prefix, then the
  longest run of digits.  The result is the sign, the magnitude and how many characters were used;
  \<open>None\<close> when there is no digit.
\<close>

definition strto_base :: "nat \<Rightarrow> string \<Rightarrow> nat \<times> nat" where
  "strto_base base r =
     (if (base = 0 \<or> base = 16) \<and> 2 < length r \<and> r ! 0 = CHR ''0'' \<and> tolower (r ! 1) = CHR ''x''
         \<and> is_digit_of 16 (r ! 2)
      then (16, 2)
      else if base = 0 then (if r \<noteq> [] \<and> hd r = CHR ''0'' then (8, 0) else (10, 0))
      else (base, 0))"

definition digits_value :: "nat \<Rightarrow> string \<Rightarrow> nat" where
  "digits_value b ds = foldl (\<lambda>a c. a * b + (case digit_val c of None \<Rightarrow> 0 | Some d \<Rightarrow> d)) 0 ds"

definition strto :: "nat \<Rightarrow> string \<Rightarrow> (bool \<times> nat \<times> nat) option" where
  "strto base s =
     (let r0 = dropWhile isspace s;
          k0 = length (takeWhile isspace s);
          k1 = (if r0 \<noteq> [] \<and> (hd r0 = CHR ''-'' \<or> hd r0 = CHR ''+'') then 1 else 0);
          neg = (r0 \<noteq> [] \<and> hd r0 = CHR ''-'');
          r1 = drop k1 r0;
          (b, k2) = strto_base base r1;
          ds = takeWhile (is_digit_of b) (drop k2 r1)
      in if ds = [] then None else Some (neg, digits_value b ds, k0 + k1 + k2 + length ds))"

definition int_max :: int where "int_max = 2147483647"
definition int_min :: int where "int_min = - 2147483648"

definition signed_of :: "bool \<Rightarrow> nat \<Rightarrow> int" where
  "signed_of neg m = (if neg then - int m else int m)"

text \<open>\<open>std::stoi(s, &pos, base)\<close>: the value and \<open>pos\<close>\<close>

definition stoi :: "nat \<Rightarrow> string \<Rightarrow> exn + (int \<times> nat)" where
  "stoi base s = (case strto base s of
       None \<Rightarrow> Inl Invalid_argument
     | Some (neg, m, k) \<Rightarrow>
         (if signed_of neg m < int_min \<or> int_max < signed_of neg m then Inl Out_of_range
          else Inr (signed_of neg m, k)))"

text \<open>\<open>std::stoul(s)\<close>: a minus sign negates modulo \<open>2\<^sup>64\<close>\<close>

definition stoul :: "string \<Rightarrow> exn + 64 word" where
  "stoul s = (case strto 10 s of
       None \<Rightarrow> Inl Invalid_argument
     | Some (neg, m, _) \<Rightarrow>
         (if 2 ^ 64 \<le> m then Inl Out_of_range
          else Inr (if neg then - of_nat m else of_nat m)))"

text \<open>\<open>atoi\<close>: the value of \<open>strtol\<close>, saturated to \<open>long\<close>, cut down to \<open>int\<close>\<close>

definition clamp_long :: "int \<Rightarrow> int" where
  "clamp_long v = max (- (2 ^ 63)) (min (2 ^ 63 - 1) v)"

definition to_int32 :: "int \<Rightarrow> int" where
  "to_int32 v = sint (word_of_int v :: 32 word)"

definition atoi :: "string \<Rightarrow> int" where
  "atoi s = (case strto 10 s of None \<Rightarrow> 0 | Some (neg, m, _) \<Rightarrow> to_int32 (clamp_long (signed_of neg m)))"

text \<open>
  \<open>int ret; stream >> ret\<close>: \<open>None\<close> when the variable keeps the value it had (nothing but white space
  is left in the stream); 0 when there is no digit; the nearest bound when the number does not fit.
\<close>

definition istream_int :: "nat \<Rightarrow> string \<Rightarrow> int option" where
  "istream_int base s =
     (if dropWhile isspace s = [] then None
      else Some (case strto base s of
           None \<Rightarrow> 0
         | Some (neg, m, _) \<Rightarrow> max int_min (min int_max (signed_of neg m))))"

lemma stoi_range: "stoi base s = Inr (v, k) \<Longrightarrow> int_min \<le> v \<and> v \<le> int_max"
  by (auto simp: stoi_def split: option.splits if_splits)

lemma istream_int_range: "istream_int base s = Some v \<Longrightarrow> int_min \<le> v \<and> v \<le> int_max"
  by (auto simp: istream_int_def int_min_def int_max_def split: if_splits option.splits)

section \<open>Writing numbers\<close>

definition digit_char :: "nat \<Rightarrow> char" where
  "digit_char d = char_of (48 + d)"

fun dec_digits :: "nat \<Rightarrow> string" where
  "dec_digits n =
     (if n < 10 then [digit_char n] else dec_digits (n div 10) @ [digit_char (n mod 10)])"

declare dec_digits.simps [simp del]

definition to_string :: "int \<Rightarrow> string" where
  "to_string i = (if i < 0 then CHR ''-'' # dec_digits (nat (- i)) else dec_digits (nat i))"

lemma digit_val_digit_char: "d < 10 \<Longrightarrow> digit_val (digit_char d) = Some d"
  by (auto simp: digit_val_def digit_char_def)

lemma is_digit_digit_char: "d < 10 \<Longrightarrow> is_digit_of 10 (digit_char d)"
  by (simp add: is_digit_of_def digit_val_digit_char)

lemma dec_digits_not_Nil [simp]: "dec_digits n \<noteq> []"
  by (subst dec_digits.simps) simp

lemma digits_value_snoc:
  "digits_value b (ds @ [c]) = digits_value b ds * b + (case digit_val c of None \<Rightarrow> 0 | Some d \<Rightarrow> d)"
  by (simp add: digits_value_def)

lemma digits_value_dec_digits: "digits_value 10 (dec_digits n) = n"
proof (induction n rule: dec_digits.induct)
  case (1 n)
  show ?case
  proof (cases "n < 10")
    case True
    then show ?thesis
      by (subst dec_digits.simps) (simp add: digits_value_def digit_val_digit_char)
  next
    case False
    with 1 have "digits_value 10 (dec_digits (n div 10)) = n div 10" by simp
    with False show ?thesis
      by (subst dec_digits.simps) (simp add: digits_value_snoc digit_val_digit_char)
  qed
qed

lemma dec_digits_all_digits: "c \<in> set (dec_digits n) \<Longrightarrow> is_digit_of 10 c"
proof (induction n arbitrary: c rule: dec_digits.induct)
  case (1 n)
  show ?case
  proof (cases "n < 10")
    case True
    with 1 show ?thesis
      using dec_digits.simps [of n] by (simp add: is_digit_digit_char)
  next
    case False
    with 1 show ?thesis
      using dec_digits.simps [of n] is_digit_digit_char [of "n mod 10"] by auto
  qed
qed

lemma is_digit_of_10_code: "is_digit_of 10 c \<longleftrightarrow> 48 \<le> (of_char c :: nat) \<and> (of_char c :: nat) \<le> 57"
  by (auto simp: is_digit_of_def digit_val_def Let_def split: option.splits if_splits)

lemma digit_not_special:
  assumes "is_digit_of 10 c"
  shows "\<not> isspace c" "c \<noteq> CHR ''-''" "c \<noteq> CHR ''+''" "c \<noteq> CHR '','' " "c \<noteq> CHR '' ''"
    "c \<noteq> CHR '':''"
  using assms by (auto simp: is_digit_of_10_code isspace_def)

lemma strto_digits:
  assumes ds: "ds \<noteq> []" "\<And>c. c \<in> set ds \<Longrightarrow> is_digit_of 10 c"
    and rest: "rest = [] \<or> \<not> is_digit_of 10 (hd rest)"
  shows "strto 10 (ds @ rest) = Some (False, digits_value 10 ds, length ds)"
proof -
  have hd: "is_digit_of 10 (hd ds)" using ds by simp
  have ws: "dropWhile isspace (ds @ rest) = ds @ rest" "takeWhile isspace (ds @ rest) = []"
    using digit_not_special(1) [OF hd] ds(1) by (cases ds; simp)+
  have tw: "takeWhile (is_digit_of 10) (ds @ rest) = ds"
    using ds(2) rest by (cases rest) (auto simp: takeWhile_append)
  show ?thesis
    using ds(1) digit_not_special(2,3) [OF hd] by (simp add: strto_def strto_base_def ws tw)
qed

lemma hd_dec_digits: "0 < n \<Longrightarrow> hd (dec_digits n) \<noteq> CHR ''0''"
proof (induction n rule: dec_digits.induct)
  case (1 n)
  show ?case
  proof (cases "n < 10")
    case True
    with "1.prems" have "digit_val (digit_char n) \<noteq> digit_val (CHR ''0'')"
      by (simp add: digit_val_digit_char) (simp add: digit_val_def)
    with True show ?thesis by (subst dec_digits.simps) auto
  next
    case False
    with 1 show ?thesis by (subst dec_digits.simps) simp
  qed
qed

text \<open>With base 0 a number without a leading zero is read as a decimal.\<close>

lemma strto_base0:
  assumes "s \<noteq> []" and "\<not> isspace (hd s)" "hd s \<noteq> CHR ''0''" "hd s \<noteq> CHR ''-''" "hd s \<noteq> CHR ''+''"
  shows "strto 0 s = strto 10 s"
proof -
  have "dropWhile isspace s = s" "takeWhile isspace s = []" using assms(1,2) by (cases s; simp)+
  moreover have "s ! 0 \<noteq> CHR ''0''" using assms(1,3) by (simp add: hd_conv_nth)
  ultimately show ?thesis using assms(1,3-) by (simp add: strto_def strto_base_def)
qed

lemma strto0_dec_digits:
  assumes "rest = [] \<or> \<not> is_digit_of 10 (hd rest)" and "0 < n"
  shows "strto 0 (dec_digits n @ rest) = Some (False, n, length (dec_digits n))"
proof -
  let ?ds = "dec_digits n"
  have hd: "is_digit_of 10 (hd ?ds)" using dec_digits_all_digits [of "hd ?ds" n] by simp
  have "strto 0 (?ds @ rest) = strto 10 (?ds @ rest)"
    using hd_dec_digits [OF assms(2)] digit_not_special(1-3) [OF hd] by (intro strto_base0) auto
  also have "\<dots> = Some (False, digits_value 10 ?ds, length ?ds)"
    using assms(1) by (intro strto_digits) (auto intro: dec_digits_all_digits)
  finally show ?thesis by (simp add: digits_value_dec_digits)
qed

lemma length_dec_digits: "n < 10 ^ Suc k \<Longrightarrow> length (dec_digits n) \<le> Suc k"
proof (induction k arbitrary: n)
  case 0
  then show ?case by (subst dec_digits.simps) simp
next
  case (Suc k)
  show ?case
  proof (cases "n < 10")
    case True
    then show ?thesis by (subst dec_digits.simps) simp
  next
    case False
    have "n div 10 < 10 ^ Suc k" using Suc.prems by (simp add: div_less_iff_less_mult mult.commute)
    with Suc.IH False show ?thesis by (subst dec_digits.simps) simp
  qed
qed

lemma stoi_to_string:
  assumes "int n \<le> int_max"
  shows "stoi 10 (to_string (int n)) = Inr (int n, length (to_string (int n)))"
proof -
  have "strto 10 (dec_digits n @ []) = Some (False, digits_value 10 (dec_digits n), length (dec_digits n))"
    by (rule strto_digits) (auto intro: dec_digits_all_digits)
  then show ?thesis
    using assms
    by (simp add: stoi_def to_string_def digits_value_dec_digits signed_of_def int_max_def int_min_def)
qed

text \<open>\<open>sscanf(s, "vsock:%u", &v) == 1\<close>: the literal prefix, then a conversion as \<open>strtoul\<close>\<close>

definition sscanf_vsock :: "string \<Rightarrow> u32 option" where
  "sscanf_vsock s =
     (if take 6 s \<noteq> ''vsock:'' then None
      else case strto 10 (drop 6 s) of
          None \<Rightarrow> None
        | Some (neg, m, _) \<Rightarrow>
            Some (if 2 ^ 64 \<le> m then - 1 else if neg then - of_nat m else of_nat m))"

section \<open>Lines of a text file\<close>

text \<open>
  The strings \<open>std::getline\<close> yields while \<open>eof()\<close> is false: one for each newline and a last one (which
  may be empty) for what follows the last newline.
\<close>

fun getlines :: "string \<Rightarrow> string list" where
  "getlines [] = [[]]"
| "getlines (c # cs) =
     (if c = newline then [] # getlines cs
      else (case getlines cs of [] \<Rightarrow> [[c]] | l # ls \<Rightarrow> (c # l) # ls))"

definition put_lines :: "string list \<Rightarrow> string" where
  "put_lines ls = concat (map (\<lambda>l. l @ [newline]) ls)"

lemma put_lines_Nil [simp]: "put_lines [] = []"
  by (simp add: put_lines_def)

lemma put_lines_Cons: "put_lines (l # ls) = l @ newline # put_lines ls"
  by (simp add: put_lines_def)

lemma put_lines_append: "put_lines (ls @ ms) = put_lines ls @ put_lines ms"
  by (simp add: put_lines_def)

lemma getlines_not_Nil [simp]: "getlines s \<noteq> []"
  by (cases s) (auto split: list.splits)

lemma getlines_line_append:
  "newline \<notin> set l \<Longrightarrow> getlines (l @ newline # s) = l # getlines s"
  by (induction l) auto

lemma getlines_put_lines:
  "(\<And>l. l \<in> set ls \<Longrightarrow> newline \<notin> set l) \<Longrightarrow> getlines (put_lines ls) = ls @ [[]]"
  by (induction ls) (simp_all add: put_lines_Cons getlines_line_append)

lemma getlines_no_newline: "l \<in> set (getlines s) \<Longrightarrow> newline \<notin> set l"
proof (induction s arbitrary: l)
  case Nil
  then show ?case by simp
next
  case (Cons c cs)
  then show ?case by (auto split: if_splits list.splits)
qed

section \<open>Ordered containers\<close>

text \<open>
  \<open>std::map\<close> and \<open>std::set\<close> as lists in increasing key order; \<open>map_of\<close> is \<open>find\<close>.  \<open>insert\<close> keeps an
  entry that is there, \<open>operator[] =\<close> overwrites it.
\<close>

fun std_map_insert :: "'k::linorder \<Rightarrow> 'v \<Rightarrow> ('k \<times> 'v) list \<Rightarrow> ('k \<times> 'v) list" where
  "std_map_insert k v [] = [(k, v)]"
| "std_map_insert k v ((k', v') # m) =
     (if k < k' then (k, v) # (k', v') # m
      else if k = k' then (k', v') # m
      else (k', v') # std_map_insert k v m)"

fun std_map_assign :: "'k::linorder \<Rightarrow> 'v \<Rightarrow> ('k \<times> 'v) list \<Rightarrow> ('k \<times> 'v) list" where
  "std_map_assign k v [] = [(k, v)]"
| "std_map_assign k v ((k', v') # m) =
     (if k < k' then (k, v) # (k', v') # m
      else if k = k' then (k, v) # m
      else (k', v') # std_map_assign k v m)"

definition std_map_erase :: "'k \<Rightarrow> ('k \<times> 'v) list \<Rightarrow> ('k \<times> 'v) list" where
  "std_map_erase k m = filter (\<lambda>(k', _). k' \<noteq> k) m"

text \<open>\<open>it->second = v\<close> through an iterator to an entry that is there.\<close>

definition std_map_set :: "'k \<Rightarrow> 'v \<Rightarrow> ('k \<times> 'v) list \<Rightarrow> ('k \<times> 'v) list" where
  "std_map_set k v m = map (\<lambda>(k', v'). if k' = k then (k', v) else (k', v')) m"

fun std_set_insert :: "'k::linorder \<Rightarrow> 'k list \<Rightarrow> 'k list" where
  "std_set_insert k [] = [k]"
| "std_set_insert k (k' # m) =
     (if k < k' then k # k' # m else if k = k' then k' # m else k' # std_set_insert k m)"

lemma map_of_std_map_assign: "map_of (std_map_assign k v m) = (map_of m)(k \<mapsto> v)"
  by (induction k v m rule: std_map_assign.induct) (auto simp: fun_eq_iff)

lemma map_of_std_map_erase: "map_of (std_map_erase k m) = (map_of m)(k := None)"
  by (induction m) (auto simp: std_map_erase_def fun_eq_iff)

lemma map_of_std_map_set:
  "map_of (std_map_set k v m) x = (if x = k then map_option (\<lambda>_. v) (map_of m k) else map_of m x)"
  by (induction m) (auto simp: std_map_set_def)

lemma keys_std_map_set: "map fst (std_map_set k v m) = map fst m"
  by (induction m) (auto simp: std_map_set_def)

lemma set_keys_std_map_assign: "set (map fst (std_map_assign k v m)) = insert k (set (map fst m))"
  by (induction k v m rule: std_map_assign.induct) auto

lemma sorted_std_map_assign:
  "sorted_wrt (<) (map fst m) \<Longrightarrow> sorted_wrt (<) (map fst (std_map_assign k v m))"
proof (induction k v m rule: std_map_assign.induct)
  case (2 k v k' v' m)
  then show ?case using set_keys_std_map_assign [of k v m] by (auto simp del: set_map)
qed simp

lemma sorted_std_map_erase: "sorted_wrt (<) (map fst m) \<Longrightarrow> sorted_wrt (<) (map fst (std_map_erase k m))"
  by (induction m) (auto simp: std_map_erase_def)

lemma set_std_set_insert: "set (std_set_insert k m) = insert k (set m)"
  by (induction k m rule: std_set_insert.induct) auto

end
