(* ===== verification/Vsock_Cid_Pool.thy ===== *)
theory Vsock_Cid_Pool
  imports Cpp_Std
begin

text \<open>
  \<open>VsockCidPool\<close> (src/guest/vsock_cid_pool.h and .cc): a bitset with one bit for each vsock context
  id, set while the id is free.  Every operation takes the pool's mutex for its whole body, so the
  operations are atomic and the model is sequential.  The abstract view is the set of free ids
  (\<open>free_cids\<close>); the contract a client relies on is the locale \<open>cid_allocator\<close>, interpreted on the
  operations below.
\<close>

section \<open>The bitset and the operations\<close>

definition kCivMaxCidNum :: u32 where "kCivMaxCidNum = 10000"
definition kCiVCidStart :: u32 where "kCiVCidStart = 1000"

text \<open>\<open>std::bitset<kCivMaxCidNum>\<close>; only the positions below \<open>bs_size\<close> are meaningful.\<close>

type_synonym bitset = "nat \<Rightarrow> bool"

definition bs_size :: nat where "bs_size = unat kCivMaxCidNum"

definition initial_bs :: bitset where "initial_bs = (\<lambda>_. True)"

text \<open>\<open>_Find_next(pos)\<close>: the first set position after \<open>pos\<close>, the size when there is none.\<close>

function first_set_from :: "bitset \<Rightarrow> nat \<Rightarrow> nat" where
  "first_set_from bs pos =
     (if bs_size \<le> pos then bs_size else if bs pos then pos else first_set_from bs (Suc pos))"
  by pat_completeness auto
termination
  by (relation "measure (\<lambda>(bs, pos). bs_size - pos)") auto

declare first_set_from.simps [simp del]

definition Find_next :: "bitset \<Rightarrow> nat \<Rightarrow> nat" where
  "Find_next bs pos = first_set_from bs (Suc pos)"

definition GetCid :: "bitset \<Rightarrow> u32 \<times> bitset" where
  "GetCid bs =
     (let pos = Find_next bs (unat (kCiVCidStart - 1))
      in if pos = bs_size then (0, bs) else (of_nat pos, bs(pos := False)))"

definition GetCid_cid :: "u32 \<Rightarrow> bitset \<Rightarrow> u32 \<times> bitset" where
  "GetCid_cid cid bs =
     (if cid < 3 \<or> kCivMaxCidNum \<le> cid then (0, bs)
      else if \<not> bs (unat cid) then (0, bs)
      else (cid, bs(unat cid := False)))"

definition ReleaseCid :: "u32 \<Rightarrow> bitset \<Rightarrow> bool \<times> bitset" where
  "ReleaseCid cid bs =
     (if cid < 3 \<or> kCivMaxCidNum \<le> cid then (False, bs)
      else (True, bs(unat cid := True)))"

section \<open>The contract\<close>

definition free_cids :: "bitset \<Rightarrow> u32 set" where
  "free_cids bs = {c. 3 \<le> c \<and> c < kCivMaxCidNum \<and> bs (unat c)}"

text \<open>
  What a client may rely on: an id that is handed out was free and no longer is, a refusal changes
  nothing, giving back an id of the range makes it free again and touches no other.
\<close>

locale cid_allocator =
  fixes take_any :: "'p \<Rightarrow> u32 \<times> 'p"
    and take_cid :: "u32 \<Rightarrow> 'p \<Rightarrow> u32 \<times> 'p"
    and give_back :: "u32 \<Rightarrow> 'p \<Rightarrow> bool \<times> 'p"
    and free :: "'p \<Rightarrow> u32 set"
    and range :: "u32 set"
  assumes zero_range: "0 \<notin> range"
    and free_range: "free p \<subseteq> range"
    and take_any_none: "take_any p = (0, p') \<Longrightarrow> p' = p"
    and take_any_some: "take_any p = (c, p') \<Longrightarrow> c \<noteq> 0 \<Longrightarrow> c \<in> free p \<and> free p' = free p - {c}"
    and take_cid_refused: "c \<notin> free p \<Longrightarrow> take_cid c p = (0, p)"
    and take_cid_free: "c \<in> free p \<Longrightarrow> fst (take_cid c p) = c \<and> free (snd (take_cid c p)) = free p - {c}"
    and give_back_in: "c \<in> range \<Longrightarrow> fst (give_back c p) \<and> free (snd (give_back c p)) = insert c (free p)"
    and give_back_out: "c \<notin> range \<Longrightarrow> give_back c p = (False, p)"
begin

text \<open>\<open>accounts held p\<close>: the ids that are held are exactly those of the range that are not free.\<close>

definition accounts :: "u32 set \<Rightarrow> 'p \<Rightarrow> bool" where
  "accounts held p \<longleftrightarrow> held = range - free p"

lemma take_any_accounts:
  assumes "accounts held p" and "take_any p = (c, p')" and "c \<noteq> 0"
  shows "c \<notin> held \<and> accounts (insert c held) p'"
  using assms take_any_some [OF assms(2,3)] free_range [of p] by (auto simp: accounts_def)

lemma take_cid_accounts:
  assumes "accounts held p" and "take_cid c p = (c', p')" and "c' \<noteq> 0"
  shows "c' \<notin> held \<and> accounts (insert c' held) p'"
proof -
  have free: "c \<in> free p" using assms take_cid_refused [of c p] by auto
  then have c': "c' = c" and "free p' = free p - {c}" using take_cid_free [OF free] assms(2) by auto
  then show ?thesis using assms(1) free free_range [of p] by (auto simp: accounts_def)
qed

lemma take_cid_none: "take_cid c p = (0, p') \<Longrightarrow> p' = p"
  using take_cid_refused [of c p] take_cid_free [of c p] zero_range free_range [of p]
  by (cases "c \<in> free p") auto

lemma give_back_accounts:
  assumes "accounts held p" and "c \<in> held"
  shows "accounts (held - {c}) (snd (give_back c p))"
proof -
  have "c \<in> range" using assms by (auto simp: accounts_def)
  then show ?thesis using assms(1) give_back_in [of c p] by (auto simp: accounts_def)
qed

lemma take_then_give_back:
  assumes "take_any p = (c, p')" and "c \<noteq> 0"
  shows "free (snd (give_back c p')) = free p"
proof -
  have c: "c \<in> free p" "free p' = free p - {c}" using take_any_some [OF assms] by auto
  then have "c \<in> range" using free_range by blast
  then show ?thesis using c give_back_in [of c p'] by auto
qed

end

section \<open>The operations meet the contract\<close>

lemma unat_kCivMaxCidNum [simp]: "unat kCivMaxCidNum = 10000"
  by (simp add: kCivMaxCidNum_def)

lemma bs_size_eq [simp]: "bs_size = 10000"
  by (simp add: bs_size_def)

lemma first_set_from_ge: "pos \<le> bs_size \<Longrightarrow> pos \<le> first_set_from bs pos \<and> first_set_from bs pos \<le> bs_size"
proof (induction bs pos rule: first_set_from.induct)
  case (1 bs pos)
  then show ?case by (cases "bs_size \<le> pos \<or> bs pos") (auto simp: first_set_from.simps [of bs pos])
qed

lemma first_set_from_set: "first_set_from bs pos < bs_size \<Longrightarrow> bs (first_set_from bs pos)"
proof (induction bs pos rule: first_set_from.induct)
  case (1 bs pos)
  then show ?case by (cases "bs_size \<le> pos \<or> bs pos") (auto simp: first_set_from.simps [of bs pos])
qed

lemma first_set_from_least: "pos \<le> i \<Longrightarrow> i < first_set_from bs pos \<Longrightarrow> \<not> bs i"
proof (induction bs pos arbitrary: i rule: first_set_from.induct)
  case (1 bs pos)
  show ?case
  proof (cases "bs_size \<le> pos")
    case True
    with "1.prems" show ?thesis by (simp add: first_set_from.simps [of bs pos])
  next
    case False
    with "1" show ?thesis
      by (cases "i = pos"; cases "bs pos") (auto simp: first_set_from.simps [of bs pos])
  qed
qed

lemma unat_kCiVCidStart_pred [simp]: "unat (kCiVCidStart - 1) = 999"
  by (simp add: kCiVCidStart_def)

lemma Find_next_range: "Find_next bs 999 \<le> 10000 \<and> 1000 \<le> Find_next bs 999"
  using first_set_from_ge [of 1000 bs] by (simp add: Find_next_def)

lemma unat_Find_next: "unat (of_nat (Find_next bs 999) :: u32) = Find_next bs 999"
proof -
  have "Find_next bs 999 < 2 ^ LENGTH(32)" using Find_next_range [of bs] by simp
  then show ?thesis by (rule of_nat_inverse [OF refl])
qed

lemma GetCid_cases:
  obtains (none) "GetCid bs = (0, bs)" "\<And>i. 1000 \<le> i \<Longrightarrow> i < 10000 \<Longrightarrow> \<not> bs i"
  | (some) c where "GetCid bs = (c, bs(unat c := False))" "1000 \<le> unat c" "unat c < 10000" "bs (unat c)"
      "\<And>i. 1000 \<le> i \<Longrightarrow> i < unat c \<Longrightarrow> \<not> bs i"
proof (cases "Find_next bs 999 = 10000")
  case True
  then have "\<not> bs i" if "1000 \<le> i" "i < 10000" for i
    using that first_set_from_least [of 1000 i bs] by (simp add: Find_next_def)
  with True show ?thesis by (intro none) (simp_all add: GetCid_def)
next
  case False
  let ?p = "Find_next bs 999"
  have lt: "?p < 10000" using False Find_next_range [of bs] by simp
  have "bs ?p" using first_set_from_set [of bs 1000] lt by (simp add: Find_next_def)
  moreover have "\<not> bs i" if "1000 \<le> i" "i < ?p" for i
    using that first_set_from_least [of 1000 i bs] by (simp add: Find_next_def)
  ultimately show ?thesis
    using False lt Find_next_range [of bs] unat_Find_next [of bs]
    by (intro some [of "of_nat ?p"]) (auto simp: GetCid_def Let_def)
qed

lemma cid_range_unat:
  "(3 :: u32) \<le> c \<longleftrightarrow> 3 \<le> unat c" "(c :: u32) < 3 \<longleftrightarrow> unat c < 3"
  "c < kCivMaxCidNum \<longleftrightarrow> unat c < 10000" "kCivMaxCidNum \<le> c \<longleftrightarrow> 10000 \<le> unat c"
  by (simp_all add: word_le_nat_alt word_less_nat_alt)

lemma free_cids_unat: "c \<in> free_cids bs \<longleftrightarrow> 3 \<le> unat c \<and> unat c < 10000 \<and> bs (unat c)"
  by (simp add: free_cids_def cid_range_unat)

lemma free_cids_upd_False: "free_cids (bs(unat c := False)) = free_cids bs - {c}"
  by (auto simp: free_cids_unat word_unat_eq_iff split: if_splits)

lemma free_cids_upd_True:
  "3 \<le> unat c \<Longrightarrow> unat c < 10000 \<Longrightarrow> free_cids (bs(unat c := True)) = insert c (free_cids bs)"
  by (auto simp: free_cids_unat word_unat_eq_iff split: if_splits)

definition cid_range :: "u32 set" where
  "cid_range = {c. 3 \<le> unat c \<and> unat c < 10000}"

lemma mem_cid_range: "c \<in> cid_range \<longleftrightarrow> 3 \<le> unat c \<and> unat c < 10000"
  by (simp add: cid_range_def)

interpretation pool: cid_allocator GetCid GetCid_cid ReleaseCid free_cids cid_range
proof
  show "0 \<notin> cid_range" by (simp add: mem_cid_range)
  show "free_cids p \<subseteq> cid_range" for p by (auto simp: mem_cid_range free_cids_unat)
  show "GetCid p = (0, p') \<Longrightarrow> p' = p" for p p' by (cases p rule: GetCid_cases) auto
  show "c \<in> free_cids p \<and> free_cids p' = free_cids p - {c}"
    if "GetCid p = (c, p')" "c \<noteq> 0" for p c p'
    using that by (cases p rule: GetCid_cases) (auto simp: free_cids_unat free_cids_upd_False)
  show "c \<notin> free_cids p \<Longrightarrow> GetCid_cid c p = (0, p)" for c p
    by (auto simp: GetCid_cid_def free_cids_def not_less not_le)
  show "c \<in> free_cids p \<Longrightarrow>
      fst (GetCid_cid c p) = c \<and> free_cids (snd (GetCid_cid c p)) = free_cids p - {c}" for c p
    by (auto simp: GetCid_cid_def free_cids_upd_False free_cids_unat cid_range_unat)
  show "c \<in> cid_range \<Longrightarrow>
      fst (ReleaseCid c p) \<and> free_cids (snd (ReleaseCid c p)) = insert c (free_cids p)" for c p
    by (auto simp: ReleaseCid_def mem_cid_range cid_range_unat free_cids_upd_True)
  show "c \<notin> cid_range \<Longrightarrow> ReleaseCid c p = (False, p)" for c p
    by (auto simp: ReleaseCid_def mem_cid_range cid_range_unat not_less not_le)
qed

section \<open>Properties\<close>

text \<open>
  A history of the pool: requests of the two kinds, and holders that give back an id they hold.  The
  second component is the list of ids that are out.
\<close>

datatype cid_op = Request | Request_cid u32 | Return_cid u32

fun pool_step :: "bitset \<times> u32 list \<Rightarrow> cid_op \<Rightarrow> bitset \<times> u32 list" where
  "pool_step (p, held) Request =
     (case GetCid p of (c, p') \<Rightarrow> (p', if c = 0 then held else c # held))"
| "pool_step (p, held) (Request_cid cid) =
     (case GetCid_cid cid p of (c, p') \<Rightarrow> (p', if c = 0 then held else c # held))"
| "pool_step (p, held) (Return_cid cid) =
     (if cid \<in> set held then (snd (ReleaseCid cid p), remove1 cid held) else (p, held))"

definition pool_run :: "cid_op list \<Rightarrow> bitset \<times> u32 list" where
  "pool_run ops = foldl pool_step (initial_bs, []) ops"

definition pool_inv :: "bitset \<times> u32 list \<Rightarrow> bool" where
  "pool_inv s \<longleftrightarrow> distinct (snd s) \<and> pool.accounts (set (snd s)) (fst s)"

lemma pool_inv_initial: "pool_inv (initial_bs, [])"
  by (auto simp: pool_inv_def pool.accounts_def initial_bs_def mem_cid_range free_cids_unat)

lemma pool_inv_step: "pool_inv s \<Longrightarrow> pool_inv (pool_step s op)"
proof (cases s; cases op)
  fix p held
  assume inv: "pool_inv s" and s: "s = (p, held)"
  then have acc: "pool.accounts (set held) p" and d: "distinct held" by (auto simp: pool_inv_def)
  show "pool_inv (pool_step s op)" if "op = Request"
  proof -
    obtain c p' where g: "GetCid p = (c, p')" by (cases "GetCid p")
    show ?thesis
      using that s g acc d pool.take_any_none [of p p'] pool.take_any_accounts [OF acc g]
      by (cases "c = 0") (auto simp: pool_inv_def)
  qed
  show "pool_inv (pool_step s op)" if "op = Request_cid x" for x
  proof -
    obtain c p' where g: "GetCid_cid x p = (c, p')" by (cases "GetCid_cid x p")
    show ?thesis
      using that s g acc d pool.take_cid_none [of x p p'] pool.take_cid_accounts [OF acc g]
      by (cases "c = 0") (auto simp: pool_inv_def)
  qed
  show "pool_inv (pool_step s op)" if "op = Return_cid x" for x
    using that s acc d pool.give_back_accounts [OF acc, of x]
    by (auto simp: pool_inv_def)
qed

lemma pool_inv_run: "pool_inv (pool_run ops)"
  unfolding pool_run_def
  by (induction ops rule: rev_induct) (simp_all add: pool_inv_initial pool_inv_step)

text \<open>
  C7. No context id is ever out twice.  In every history of requests and returns the ids that are out
  are pairwise different, lie between 3 and 9999, and none of them is marked free in the bitset.
\<close>

theorem cids_exclusive:
  "distinct (snd (pool_run ops)) \<and>
   set (snd (pool_run ops)) \<subseteq> {c. 3 \<le> unat c \<and> unat c < 10000} \<and>
   set (snd (pool_run ops)) \<inter> free_cids (fst (pool_run ops)) = {}"
  using pool_inv_run [of ops] by (auto simp: pool_inv_def pool.accounts_def mem_cid_range)

text \<open>
  C25. The pool does not run dry early: as long as fewer than 9000 ids are out, in any history, a
  request for any id (\<open>GetCid()\<close>) is granted.
\<close>

theorem cids_available:
  assumes "length (snd (pool_run ops)) < 9000"
  shows "fst (GetCid (fst (pool_run ops))) \<noteq> 0"
proof (cases "fst (pool_run ops)" rule: GetCid_cases)
  case none
  obtain p held where run: "pool_run ops = (p, held)" by (cases "pool_run ops")
  have "(of_nat i :: u32) \<in> set held" if i: "1000 \<le> i" "i < 10000" for i
  proof -
    have "unat (of_nat i :: u32) = i" using i by (simp add: unat_of_nat)
    then show ?thesis
      using i none(2) [OF i] pool_inv_run [of ops] run
      by (auto simp: pool_inv_def pool.accounts_def mem_cid_range free_cids_unat)
  qed
  then have "of_nat ` {1000..<10000} \<subseteq> set held" by auto
  moreover have "inj_on (of_nat :: nat \<Rightarrow> u32) {1000..<10000}"
    by (rule inj_onI) (auto dest!: arg_cong [of _ _ unat] simp: unat_of_nat)
  ultimately have "card {1000..<10000 :: nat} \<le> card (set held)"
    by (metis List.finite_set card_image card_mono)
  also have "\<dots> \<le> length held" by (rule card_length)
  finally show ?thesis using assms run by simp
next
  case (some c)
  then show ?thesis by auto
qed

lemma pool_run_two: "pool_run [Request, Request] = (initial_bs(1000 := False, 1001 := False), [1001, 1000])"
  by (simp add: pool_run_def GetCid_def Find_next_def first_set_from.simps initial_bs_def)

theorem cids_available_witness: "fst (GetCid (fst (pool_run [Request, Request]))) \<noteq> 0"
  by (rule cids_available) (simp add: pool_run_two)

text \<open>
  \<open>GetCid()\<close> hands out the lowest free id of 1000..9999 and clears exactly its bit; when that whole
  range is taken it returns 0 and leaves the pool alone (ids below 1000 are only given on demand).
\<close>

lemma GetCid_lowest:
  "GetCid bs =
     (if \<exists>i. 1000 \<le> i \<and> i < 10000 \<and> bs i
      then let i = (LEAST i. 1000 \<le> i \<and> i < 10000 \<and> bs i) in (of_nat i, bs(i := False))
      else (0, bs))"
proof (cases bs rule: GetCid_cases)
  case none
  then show ?thesis by auto
next
  case (some c)
  then have "(LEAST i. 1000 \<le> i \<and> i < 10000 \<and> bs i) = unat c"
    by (intro Least_equality) (auto intro: leI)
  with some show ?thesis by (auto simp: Let_def)
qed

text \<open>
  Giving an id back undoes taking it: after \<open>GetCid()\<close> or \<open>GetCid(cid)\<close> has granted an id,
  \<open>ReleaseCid\<close> of that id succeeds and restores the pool bit for bit.
\<close>

lemma ReleaseCid_restores:
  assumes "GetCid bs = (c, bs') \<or> GetCid_cid c bs = (c, bs')" and "c \<noteq> 0"
  shows "ReleaseCid c bs' = (True, bs)"
proof -
  have "bs' = bs(unat c := False) \<and> bs (unat c) \<and> 3 \<le> unat c \<and> unat c < 10000"
    using assms(1)
  proof
    assume "GetCid bs = (c, bs')"
    with assms(2) show ?thesis by (cases bs rule: GetCid_cases) auto
  next
    assume "GetCid_cid c bs = (c, bs')"
    with assms(2) show ?thesis by (auto simp: GetCid_cid_def cid_range_unat split: if_splits)
  qed
  then show ?thesis by (auto simp: ReleaseCid_def cid_range_unat fun_upd_idem)
qed

end
