(* ===== verification/Civ_Env.thy ===== *)
theory Civ_Env
  imports Cpp_Std
begin

text \<open>
  What the program gets from outside its own sources: the Boost libraries, gRPC and the operating system.
  Nothing of them is defined here.  They are the fields of one record, \<open>env\<close>, which every definition
  that calls them takes as an argument, so every theorem holds for any behaviour of theirs unless it
  names a hypothesis on a field.  The type \<open>'w\<close> is the state of everything outside the process (files,
  devices, other processes, the clock): each call may change it, so two reads of the same file may give
  different answers.  The type \<open>'t\<close> is \<open>boost::property_tree::ptree\<close>.

  Conventions: an operation that may throw has an optional result, \<open>None\<close> for the exception; the
  overloads that take a \<open>boost::system::error_code\<close> do not throw and have plain results.
\<close>

type_synonym ('w, 'a) oscall = "'w \<Rightarrow> 'a \<times> 'w"

text \<open>The formats handed to \<open>strftime\<close>.\<close>

datatype time_format = Date_T | Date_HMS

text \<open>\<open>AppStatus\<close> of src/services/protos/vm_guest.proto.\<close>

datatype app_status = UNKNOWN | LAUNCHED | EXITED | FAILED

text \<open>An option of \<open>boost::program_options\<close>: its names, whether it takes a value, its help text.\<close>

type_synonym po_option = "string \<times> bool \<times> string"

record ('w, 't) env =
  \<comment> \<open>boost::trim; boost::split with is_any_of of one character, the flag is token_compress_on\<close>
  trim :: "string \<Rightarrow> string"
  split_on :: "char \<Rightarrow> bool \<Rightarrow> string \<Rightarrow> string list"
  \<comment> \<open>boost::uuids::string_generator: the size of the result, None when it throws\<close>
  uuid_size :: "string \<Rightarrow> nat option"
  \<comment> \<open>boost::format("%x")\<close>
  format_hex :: "int \<Rightarrow> string"
  \<comment> \<open>boost::property_tree: the empty tree, empty(), get and put by dotted path, the sections with
      the names of their keys; read_ini and write_ini\<close>
  pt_clear :: 't
  pt_empty :: "'t \<Rightarrow> bool"
  pt_get :: "'t \<Rightarrow> string \<Rightarrow> string option"
  pt_put :: "'t \<Rightarrow> string \<Rightarrow> string \<Rightarrow> 't option"
  pt_sections :: "'t \<Rightarrow> (string \<times> string list) list"
  read_ini :: "path \<Rightarrow> ('w, 't option) oscall"
  write_ini :: "path \<Rightarrow> 't \<Rightarrow> ('w, bool) oscall"
  \<comment> \<open>boost::filesystem, the error_code overloads\<close>
  fs_exists :: "path \<Rightarrow> ('w, bool) oscall"
  fs_is_regular :: "path \<Rightarrow> ('w, bool) oscall"
  fs_is_directory :: "path \<Rightarrow> ('w, bool) oscall"
  fs_is_symlink :: "path \<Rightarrow> ('w, bool) oscall"
  fs_symlink_filename :: "path \<Rightarrow> ('w, string) oscall"
  fs_absolute :: "path \<Rightarrow> ('w, path) oscall"
  fs_create_directories :: "path \<Rightarrow> ('w, bool) oscall"
  fs_rename :: "path \<Rightarrow> path \<Rightarrow> ('w, unit) oscall"
  fs_remove :: "path \<Rightarrow> ('w, bool) oscall"
  \<comment> \<open>boost::filesystem, throwing: remove, permissions; the entries of a directory\<close>
  fs_remove_throw :: "path \<Rightarrow> ('w, bool) oscall"
  fs_permissions :: "path \<Rightarrow> ('w, bool) oscall"
  fs_entries :: "path \<Rightarrow> ('w, (path list) option) oscall"
  \<comment> \<open>files behind std::ifstream and std::ofstream: the text read, None when the open fails; opening
      for writing, which truncates (False when it fails); writing to a file opened before\<close>
  file_read :: "path \<Rightarrow> ('w, string option) oscall"
  file_create :: "path \<Rightarrow> ('w, bool) oscall"
  file_append :: "path \<Rightarrow> string \<Rightarrow> ('w, unit) oscall"
  \<comment> \<open>the value an uninitialised int happens to have\<close>
  indeterminate_int :: "('w, int) oscall"
  \<comment> \<open>boost::process: system (None when it throws), search_path, child\<close>
  proc_system :: "string \<Rightarrow> ('w, int option) oscall"
  search_path :: "string \<Rightarrow> ('w, path) oscall"
  proc_spawn :: "string \<Rightarrow> (string \<times> string) list \<Rightarrow> path \<Rightarrow> ('w, nat) oscall"
  proc_running :: "nat \<Rightarrow> ('w, bool) oscall"
  proc_wait :: "nat \<Rightarrow> ('w, unit) oscall"
  proc_kill :: "nat \<Rightarrow> ('w, unit) oscall"
  \<comment> \<open>libc and the kernel: access(F_OK), getenv, getuid, the local time, sleeping, the text of a
      thread id\<close>
  os_access :: "path \<Rightarrow> ('w, bool) oscall"
  os_getenv :: "string \<Rightarrow> ('w, string option) oscall"
  os_getuid :: "('w, int) oscall"
  os_strftime :: "time_format \<Rightarrow> ('w, string) oscall"
  os_sleep :: "('w, unit) oscall"
  os_thread_id :: "('w, string) oscall"
  \<comment> \<open>the credentials of the process and the home directory of a user\<close>
  os_getresuid :: "('w, u32 \<times> u32 \<times> u32) oscall"
  os_getresgid :: "('w, u32 \<times> u32 \<times> u32) oscall"
  os_geteuid :: "('w, u32) oscall"
  os_getegid :: "('w, u32) oscall"
  os_setresuid :: "u32 \<Rightarrow> u32 \<Rightarrow> u32 \<Rightarrow> ('w, unit) oscall"
  os_setresgid :: "u32 \<Rightarrow> u32 \<Rightarrow> u32 \<Rightarrow> ('w, unit) oscall"
  os_getpwuid_dir :: "u32 \<Rightarrow> ('w, string option) oscall"
  os_getpid :: "('w, nat) oscall"
  os_environment :: "('w, string list) oscall"
  \<comment> \<open>boost::interprocess, managed_shared_memory by name: open and create (False when they throw), remove; find,
      destroy and construct of a named array of strings (construct is False when it throws), the same for the
      CivVmInfo object (its state as the number of the enumerator)\<close>
  shm_open :: "string \<Rightarrow> ('w, bool) oscall"
  shm_create :: "string \<Rightarrow> ('w, bool) oscall"
  shm_remove :: "string \<Rightarrow> ('w, unit) oscall"
  shm_find :: "string \<Rightarrow> string \<Rightarrow> ('w, (string list) option) oscall"
  shm_destroy :: "string \<Rightarrow> string \<Rightarrow> ('w, unit) oscall"
  shm_construct :: "string \<Rightarrow> string \<Rightarrow> string list \<Rightarrow> ('w, bool) oscall"
  shm_find_info :: "string \<Rightarrow> ('w, (u32 \<times> nat) option) oscall"
  shm_construct_info :: "string \<Rightarrow> u32 \<times> nat \<Rightarrow> ('w, bool) oscall"
  \<comment> \<open>gRPC calls at an address: CivPowerCtl::Shutdown, StartupListener::VmReady and CivAppLauncher::LaunchApp with a name
      and a display, answered with a code and a status; \<open>Inl\<close> is a status that is not ok, with its text\<close>
  grpc_shutdown :: "string \<Rightarrow> ('w, string + unit) oscall"
  grpc_vm_ready :: "string \<Rightarrow> ('w, string + unit) oscall"
  grpc_launch_app :: "string \<Rightarrow> string \<Rightarrow> u32 \<Rightarrow> ('w, string + (int \<times> app_status)) oscall"
  \<comment> \<open>grpc::ServerBuilder with one listening address: whether BuildAndStart gives a server\<close>
  grpc_listen :: "string \<Rightarrow> ('w, bool) oscall"
  \<comment> \<open>the standard streams: writing to std::cout, a line of std::cin\<close>
  std_cout :: "string \<Rightarrow> ('w, unit) oscall"
  std_cin_line :: "('w, string) oscall"
  \<comment> \<open>boost::process: system with a list of arguments, the output of a child (None when it throws); libc system\<close>
  proc_system_args :: "path \<Rightarrow> string list \<Rightarrow> ('w, int option) oscall"
  proc_output :: "string \<Rightarrow> ('w, string option) oscall"
  libc_system :: "string \<Rightarrow> ('w, int) oscall"
  \<comment> \<open>boost::filesystem: file_size with an error_code (-1 on errors), the entries of a directory with an error_code,
      extension() and stem() of a path\<close>
  fs_file_size :: "path \<Rightarrow> ('w, 64 word) oscall"
  fs_entries_ec :: "path \<Rightarrow> ('w, path list) oscall"
  path_extension :: "path \<Rightarrow> string"
  path_stem :: "path \<Rightarrow> string"
  \<comment> \<open>boost::program_options: store and notify of a command line, as the options that are present with their values
      (\<open>Inl\<close> the text of the exception when it throws); the description printed; what() of an exception;
      the value of an option of type uint32_t\<close>
  po_parse :: "po_option list \<Rightarrow> string list \<Rightarrow> string + (string \<times> string) list"
  exn_what :: "exn \<Rightarrow> string"
  po_u32 :: "string \<Rightarrow> u32"
  po_print :: "po_option list \<Rightarrow> string"
  \<comment> \<open>the kernel, for a daemon: fork (as the process that goes on sees it), setsid, signal to ignore, chdir, umask,
      sysconf(_SC_OPEN_MAX), close, open of /dev/null, dup2\<close>
  os_fork :: "('w, int) oscall"
  os_setsid :: "('w, unit) oscall"
  os_ignore_signal :: "string \<Rightarrow> ('w, unit) oscall"
  os_chdir :: "path \<Rightarrow> ('w, unit) oscall"
  os_umask :: "nat \<Rightarrow> ('w, unit) oscall"
  os_open_max :: "('w, int) oscall"
  os_close :: "int \<Rightarrow> ('w, unit) oscall"
  os_open_rdwr :: "path \<Rightarrow> ('w, int) oscall"
  os_dup2 :: "int \<Rightarrow> int \<Rightarrow> ('w, int) oscall"

text \<open>
  The state every component shares: the outside world and the static variable \<open>civ_config_path\<close> of
  utils.cc (\<open>None\<close> while it is \<open>NULL\<close>).
\<close>

record 'w os_state =
  world :: 'w
  civ_config_path :: "string option"

definition oscall :: "('w, 'a) oscall \<Rightarrow> (('w, 'z) os_state_scheme, 'a) cpp" where
  "oscall f = (\<lambda>s. case f (world s) of (a, w) \<Rightarrow> (Ret a, s\<lparr>world := w\<rparr>))"

text \<open>A call whose \<open>None\<close> is an exception.\<close>

definition oscall_throw :: "exn \<Rightarrow> ('w, 'a option) oscall \<Rightarrow> (('w, 'z) os_state_scheme, 'a) cpp" where
  "oscall_throw e f =
     cbind (oscall f) (\<lambda>r. case r of None \<Rightarrow> cthrow e | Some a \<Rightarrow> cret a)"

definition system_call :: "('w, 't) env \<Rightarrow> string \<Rightarrow> (('w, 'z) os_state_scheme, int) cpp" where
  "system_call E cmd = oscall_throw Process_error (proc_system E cmd)"

lemma oscall_run [run_simps]:
  "oscall f s = (case f (world s) of (a, w) \<Rightarrow> (Ret a, s\<lparr>world := w\<rparr>))"
  by (simp add: oscall_def)

lemma oscall_Ret_iff [ret_iffs]:
  "oscall f s = (Ret a, t) \<longleftrightarrow> (\<exists>w. f (world s) = (a, w) \<and> t = s\<lparr>world := w\<rparr>)"
  by (auto simp: oscall_def split: prod.splits)

lemma oscall_throw_Ret_iff [ret_iffs]:
  "oscall_throw e f s = (Ret a, t) \<longleftrightarrow> (\<exists>w. f (world s) = (Some a, w) \<and> t = s\<lparr>world := w\<rparr>)"
  by (auto simp: oscall_throw_def oscall_def cbind_def cret_def cthrow_def split: prod.splits option.splits)

lemma system_call_Ret_iff [ret_iffs]:
  "system_call E c s = (Ret a, t) \<longleftrightarrow> (\<exists>w. proc_system E c (world s) = (Some a, w) \<and> t = s\<lparr>world := w\<rparr>)"
  by (simp add: system_call_def oscall_throw_Ret_iff)

lemma returning_oscall [yields_rules]: "returning (oscall f)"
  by (simp add: yields_def oscall_def split: prod.splits)

lemma returning_case_option [yields_rules]:
  "returning n \<Longrightarrow> (\<And>x. returning (f x)) \<Longrightarrow>
     returning (case a of None \<Rightarrow> n | Some x \<Rightarrow> f x)"
  by (cases a) simp_all

text \<open>
  A call reaches nothing of the process but the world: every other field of the state is the same
  before and after.
\<close>

definition only_world :: "('w, 'z) os_state_scheme \<Rightarrow> ('w, 'z) os_state_scheme \<Rightarrow> bool" where
  "only_world s t \<longleftrightarrow> (\<exists>w. t = s\<lparr>world := w\<rparr>)"

interpretation only_world: state_preorder only_world
proof
  show "only_world s s" for s :: "('w, 'z) os_state_scheme"
    unfolding only_world_def by (rule exI [of _ "world s"]) simp
  show "only_world s t \<Longrightarrow> only_world t u \<Longrightarrow> only_world s u"
    for s t u :: "('w, 'z) os_state_scheme"
    unfolding only_world_def by auto
qed

lemma only_world_oscall: "within only_world (oscall f)"
  by (auto simp: within_def only_world_def oscall_def split: prod.splits)

lemma triple_oscall:
  "(\<And>s x w. P s \<Longrightarrow> f (world s) = (x, w) \<Longrightarrow> Q x (s\<lparr>world := w\<rparr>)) \<Longrightarrow> triple P (oscall f) Q X"
  by (auto simp: triple_def oscall_def split: prod.splits)

lemma only_world_case_option:
  "within only_world n \<Longrightarrow> (\<And>x. within only_world (f x)) \<Longrightarrow>
     within only_world (case a of None \<Rightarrow> n | Some x \<Rightarrow> f x)"
  by (cases a) simp_all

lemma only_world_oscall_throw: "within only_world (oscall_throw e f)"
  unfolding oscall_throw_def
  by (intro only_world.compose only_world_oscall only_world_case_option)

lemma only_world_system_call: "within only_world (system_call E cmd)"
  unfolding system_call_def by (rule only_world_oscall_throw)

lemmas only_world_intros =
  only_world.compose only_world_oscall only_world_oscall_throw only_world_system_call
  only_world_case_option

lemma only_worldE:
  assumes "within only_world m" and "m s = (r, t)"
  obtains w where "t = s\<lparr>world := w\<rparr>"
  using withinD [OF assms] by (auto simp: only_world_def)

section \<open>Splitting\<close>

text \<open>
  What a theorem may assume of \<open>boost::split\<close> with one separator: a piece for every separator and one more, the
  separators left out; with \<open>token_compress_on\<close> adjacent separators count as one.
\<close>

fun split_chars :: "char \<Rightarrow> string \<Rightarrow> string list" where
  "split_chars d [] = [[]]"
| "split_chars d (c # cs) =
     (if c = d then [] # split_chars d cs
      else (case split_chars d cs of [] \<Rightarrow> [[c]] | l # ls \<Rightarrow> (c # l) # ls))"

fun squeeze_chars :: "char \<Rightarrow> string \<Rightarrow> string" where
  "squeeze_chars d (a # b # cs) =
     (if a = d \<and> b = d then squeeze_chars d (b # cs) else a # squeeze_chars d (b # cs))"
| "squeeze_chars d s = s"

definition split_law :: "('w, 't) env \<Rightarrow> bool" where
  "split_law E \<longleftrightarrow>
     (\<forall>d s. split_on E d False s = split_chars d s \<and> split_on E d True s = split_chars d (squeeze_chars d s))"

lemma split_chars_not_Nil [simp]: "split_chars d s \<noteq> []"
  by (cases s) (auto split: list.splits)

lemma split_chars_none: "d \<notin> set s \<Longrightarrow> split_chars d s = [s]"
  by (induction s) auto

lemma split_chars_first: "d \<notin> set a \<Longrightarrow> split_chars d (a @ d # s) = a # split_chars d s"
  by (induction a) auto

lemma length_split_chars: "length (split_chars d s) = Suc (length (filter (\<lambda>c. c = d) s))"
  by (induction s) (auto split: list.splits)

section \<open>Files\<close>

text \<open>
  What a theorem about the contents of files may assume of the environment: the calls behave as POSIX
  documents them and nobody else touches the files meanwhile.  \<open>file p w\<close> is the text of the regular
  file \<open>p\<close>, \<open>dir p w\<close> says that \<open>p\<close> is a directory.
\<close>

definition same_but :: "(path \<Rightarrow> 'w \<Rightarrow> string option) \<Rightarrow> (path \<Rightarrow> 'w \<Rightarrow> bool) \<Rightarrow> (path \<rightharpoonup> string option) \<Rightarrow>
    'w \<Rightarrow> 'w \<Rightarrow> bool" where
  "same_but file dir changed w w' \<longleftrightarrow>
     (\<forall>q. file q w' = (case changed q of None \<Rightarrow> file q w | Some txt \<Rightarrow> txt) \<and> dir q w' = dir q w)"

definition file_laws ::
  "('w, 't) env \<Rightarrow> (path \<Rightarrow> 'w \<Rightarrow> string option) \<Rightarrow> (path \<Rightarrow> 'w \<Rightarrow> bool) \<Rightarrow> bool" where
  "file_laws E file dir \<longleftrightarrow>
     (\<forall>p w. fs_exists E p w = (file p w \<noteq> None \<or> dir p w, w)) \<and>
     (\<forall>p w. fs_is_directory E p w = (dir p w, w)) \<and>
     (\<forall>p w. file_read E p w = (file p w, w)) \<and>
     (\<forall>p w. fst (file_create E p w) \<and> same_but file dir [p \<mapsto> Some []] w (snd (file_create E p w))) \<and>
     (\<forall>p txt old w. file p w = Some old \<longrightarrow>
        same_but file dir [p \<mapsto> Some (old @ txt)] w (snd (file_append E p txt w))) \<and>
     (\<forall>p r old w. file p w = Some old \<and> p \<noteq> r \<longrightarrow>
        same_but file dir [p \<mapsto> None, r \<mapsto> Some old] w (snd (fs_rename E p r w))) \<and>
     (\<forall>p w. same_but file dir [p \<mapsto> None] w (snd (fs_remove E p w)))"

lemma file_lawsD:
  assumes "file_laws E file dir"
  shows "fs_exists E p w = (file p w \<noteq> None \<or> dir p w, w)"
    and "fs_is_directory E p w = (dir p w, w)"
    and "file_read E p w = (file p w, w)"
    and "fst (file_create E p w)"
    and "same_but file dir [p \<mapsto> Some []] w (snd (file_create E p w))"
    and "file p w = Some old \<Longrightarrow> same_but file dir [p \<mapsto> Some (old @ txt)] w (snd (file_append E p txt w))"
    and "file p w = Some old \<Longrightarrow> p \<noteq> r \<Longrightarrow>
      same_but file dir [p \<mapsto> None, r \<mapsto> Some old] w (snd (fs_rename E p r w))"
    and "same_but file dir [p \<mapsto> None] w (snd (fs_remove E p w))"
  using assms by (simp_all add: file_laws_def)

lemma same_butD:
  "same_but file dir changed w w' \<Longrightarrow> file q w' = (case changed q of None \<Rightarrow> file q w | Some txt \<Rightarrow> txt)"
  by (simp add: same_but_def)

text \<open>
  What the theorems assume of the segments of boost's shared memory.  \<open>strs w n k\<close> are the strings under the name \<open>k\<close> in segment
  \<open>n\<close>, \<open>info w n\<close> is the object \<open>VmInfo\<close>.  A new segment is empty, an object that was constructed is found until it is
  destroyed, and looking does not change anything.
\<close>

definition shm_law ::
  "('w, 't) env \<Rightarrow> ('w \<Rightarrow> string \<Rightarrow> string \<Rightarrow> string list option) \<Rightarrow> ('w \<Rightarrow> string \<Rightarrow> (u32 \<times> nat) option) \<Rightarrow> bool" where
  "shm_law E strs info \<longleftrightarrow>
     (\<forall>n w. strs (snd (shm_open E n w)) = strs w \<and> info (snd (shm_open E n w)) = info w) \<and>
     (\<forall>n k w. fst (shm_find E n k w) = strs w n k \<and> strs (snd (shm_find E n k w)) = strs w \<and>
        info (snd (shm_find E n k w)) = info w) \<and>
     (\<forall>n w. fst (shm_find_info E n w) = info w n) \<and>
     (\<forall>n w w'. shm_create E n w = (True, w') \<longrightarrow> info w' n = None) \<and>
     (\<forall>n k w. info (snd (shm_destroy E n k w)) n = (if k = ''VmInfo'' then None else info w n)) \<and>
     (\<forall>n k v w w'. shm_construct E n k v w = (True, w') \<longrightarrow> strs w' n k = Some v) \<and>
     (\<forall>n k v w. info (snd (shm_construct E n k v w)) = info w) \<and>
     (\<forall>n i w ok w'. shm_construct_info E n i w = (ok, w') \<longrightarrow> info w' n = (if ok then Some i else info w n))"

lemma shm_lawD:
  assumes "shm_law E strs info"
  shows "shm_open E n w = (ok, w') \<Longrightarrow> strs w' = strs w \<and> info w' = info w"
    and "shm_find E n k w = (r, w') \<Longrightarrow> r = strs w n k \<and> strs w' = strs w \<and> info w' = info w"
    and "shm_find_info E n w = (i, w') \<Longrightarrow> i = info w n"
    and "shm_create E n w = (True, w') \<Longrightarrow> info w' n = None"
    and "shm_destroy E n k w = (x, w') \<Longrightarrow> info w' n = (if k = ''VmInfo'' then None else info w n)"
    and "shm_construct E n k v w = (True, w') \<Longrightarrow> strs w' n k = Some v"
    and "shm_construct E n k v w = (ok, w') \<Longrightarrow> info w' = info w"
    and "shm_construct_info E n j w = (ok, w') \<Longrightarrow> info w' n = (if ok then Some j else info w n)"
  using assms unfolding shm_law_def by (metis fst_conv snd_conv)+

text \<open>\<open>out w\<close> is what has been written to the standard output: \<open>std::cout\<close> adds to it, and what a client does to reach the server does not.\<close>

definition console_law :: "('w, 't) env \<Rightarrow> ('w \<Rightarrow> string) \<Rightarrow> bool" where
  "console_law E out \<longleftrightarrow>
     (\<forall>txt w. out (snd (std_cout E txt w)) = out w @ txt) \<and>
     (\<forall>w. out (snd (os_getpid E w)) = out w) \<and>
     (\<forall>n w. out (snd (shm_open E n w)) = out w) \<and>
     (\<forall>n w. out (snd (shm_create E n w)) = out w) \<and>
     (\<forall>n w. out (snd (shm_remove E n w)) = out w) \<and>
     (\<forall>n k w. out (snd (shm_find E n k w)) = out w) \<and>
     (\<forall>n k w. out (snd (shm_destroy E n k w)) = out w) \<and>
     (\<forall>n k v w. out (snd (shm_construct E n k v w)) = out w) \<and>
     (\<forall>n w. out (snd (shm_find_info E n w)) = out w) \<and>
     (\<forall>n i w. out (snd (shm_construct_info E n i w)) = out w)"

text \<open>The number of a process fits \<open>pid_t\<close>.\<close>

definition pid_law :: "('w, 't) env \<Rightarrow> bool" where
  "pid_law E \<longleftrightarrow> (\<forall>w. fst (os_getpid E w) < 2 ^ 31)"

end
