(* ===== verification/Ref_Env.thy ===== *)
theory Ref_Env
  imports Civ_Env
begin

text \<open>
  One concrete environment, \<open>ref_env\<close>, on which the witnesses evaluate the model: a small in-memory host
  with files, directories, parsed ini files, a command log and numbered processes.  It is an instance of
  the parameter \<open>env\<close>, no part of the model: no property of the program rests on it.
\<close>

type_synonym ref_tree = "(string \<times> (string \<times> string) list) list"

record ref_world =
  r_files :: "(path \<times> string) list"
  r_dirs :: "path list"
  r_inis :: "(path \<times> ref_tree) list"
  r_log :: "string list"
  r_running :: "nat list"
  r_next_pid :: nat
  r_shm :: "((string \<times> string) \<times> string list) list"
  r_info :: "(string \<times> u32 \<times> nat) list"
  r_fds :: "int list"

definition ref_trim :: "string \<Rightarrow> string" where
  "ref_trim s = rev (dropWhile isspace (rev (dropWhile isspace s)))"

definition ref_split_on :: "char \<Rightarrow> bool \<Rightarrow> string \<Rightarrow> string list" where
  "ref_split_on d compress s = split_chars d (if compress then squeeze_chars d s else s)"

definition ref_get :: "ref_tree \<Rightarrow> string \<Rightarrow> string option" where
  "ref_get t p = map_of (concat (map (\<lambda>(g, kvs). map (\<lambda>(k, v). (g @ ''.'' @ k, v)) kvs) t)) p"

definition ref_exists :: "path \<Rightarrow> (ref_world, bool) oscall" where
  "ref_exists p w = (p \<in> set (map fst (r_files w) @ r_dirs w), w)"

definition ref_regular :: "path \<Rightarrow> (ref_world, bool) oscall" where
  "ref_regular p w = (p \<in> set (map fst (r_files w)), w)"

definition ref_remove :: "path \<Rightarrow> (ref_world, bool) oscall" where
  "ref_remove p w =
     (p \<in> set (map fst (r_files w)), w\<lparr>r_files := filter (\<lambda>(q, _). q \<noteq> p) (r_files w)\<rparr>)"

definition ref_write :: "path \<Rightarrow> string \<Rightarrow> ref_world \<Rightarrow> ref_world" where
  "ref_write p txt w = w\<lparr>r_files := (p, txt) # filter (\<lambda>(q, _). q \<noteq> p) (r_files w)\<rparr>"

definition ref_env :: "(ref_world, ref_tree) env" where
  "ref_env = \<lparr>
     trim = ref_trim,
     split_on = ref_split_on,
     uuid_size = (\<lambda>s. if length s = 36 then Some 16 else None),
     format_hex = (\<lambda>i. to_string i),
     pt_clear = [],
     pt_empty = (\<lambda>t. t = []),
     pt_get = ref_get,
     pt_put = (\<lambda>t p v. let g = takeWhile (\<lambda>c. c \<noteq> CHR ''.'') p in Some ((g, [(drop (Suc (length g)) p, v)]) # t)),
     pt_sections = map (\<lambda>(g, kvs). (g, map fst kvs)),
     read_ini = (\<lambda>p w. (map_of (r_inis w) p, w)),
     write_ini = (\<lambda>p t w. (True, w\<lparr>r_inis := (p, t) # r_inis w\<rparr>)),
     fs_exists = ref_exists,
     fs_is_regular = ref_regular,
     fs_is_directory = (\<lambda>p w. (p \<in> set (r_dirs w), w)),
     fs_is_symlink = (\<lambda>p w. (False, w)),
     fs_symlink_filename = (\<lambda>p w. (basename p, w)),
     fs_absolute = (\<lambda>p w. (p, w)),
     fs_create_directories = (\<lambda>p w. (True, w\<lparr>r_dirs := p # r_dirs w\<rparr>)),
     fs_rename = (\<lambda>p q w. ((), case map_of (r_files w) p of
         None \<Rightarrow> w | Some txt \<Rightarrow> snd (ref_remove p (ref_write q txt w)))),
     fs_remove = ref_remove,
     fs_remove_throw = (\<lambda>p w. (True, snd (ref_remove p w))),
     fs_permissions = (\<lambda>p w. (True, w)),
     fs_entries = (\<lambda>p w. (Some [], w)),
     file_read = (\<lambda>p w. (map_of (r_files w) p, w)),
     file_create = (\<lambda>p w. (True, ref_write p [] w)),
     file_append = (\<lambda>p txt w. ((), case map_of (r_files w) p of
         None \<Rightarrow> w | Some old \<Rightarrow> ref_write p (old @ txt) w)),
     indeterminate_int = (\<lambda>w. (42, w)),
     proc_system = (\<lambda>cmd w. (Some 0, w\<lparr>r_log := r_log w @ [cmd]\<rparr>)),
     search_path = (\<lambda>p w. (''/usr/bin/'' @ p, w)),
     proc_spawn = (\<lambda>cmd envs out w. (r_next_pid w,
         w\<lparr>r_running := r_next_pid w # r_running w, r_next_pid := Suc (r_next_pid w)\<rparr>)),
     proc_running = (\<lambda>pid w. (pid \<in> set (r_running w), w)),
     proc_wait = (\<lambda>pid w. ((), w\<lparr>r_running := removeAll pid (r_running w)\<rparr>)),
     proc_kill = (\<lambda>pid w. ((), w\<lparr>r_running := removeAll pid (r_running w)\<rparr>)),
     os_access = ref_exists,
     os_getenv = (\<lambda>v w. (None, w)),
     os_getuid = (\<lambda>w. (1000, w)),
     os_strftime = (\<lambda>f w. (''2022-01-01'', w)),
     os_sleep = (\<lambda>w. ((), w)),
     os_thread_id = (\<lambda>w. (''7f00'', w)),
     os_getresuid = (\<lambda>w. ((1000, 1000, 1000), w)),
     os_getresgid = (\<lambda>w. ((1000, 1000, 1000), w)),
     os_geteuid = (\<lambda>w. (1000, w)),
     os_getegid = (\<lambda>w. (1000, w)),
     os_setresuid = (\<lambda>r e s w. ((), w)),
     os_setresgid = (\<lambda>r e s w. ((), w)),
     os_getpwuid_dir = (\<lambda>u w. (Some ''/home/ubuntu'', w)),
     os_getpid = (\<lambda>w. (77, w)),
     os_environment = (\<lambda>w. ([''PATH=/bin''], w)),
     shm_open = (\<lambda>n w. (True, w)),
     shm_create = (\<lambda>n w. (True, w\<lparr>r_info := filter (\<lambda>(q, _). q \<noteq> n) (r_info w)\<rparr>)),
     shm_remove = (\<lambda>n w. ((), w)),
     shm_find = (\<lambda>n k w. (map_of (r_shm w) (n, k), w)),
     shm_destroy = (\<lambda>n k w. ((), w\<lparr>r_shm := filter (\<lambda>(q, _). q \<noteq> (n, k)) (r_shm w),
         r_info := filter (\<lambda>(q, _). \<not> (q = n \<and> k = ''VmInfo'')) (r_info w)\<rparr>)),
     shm_construct = (\<lambda>n k v w. (True, w\<lparr>r_shm := ((n, k), v) # r_shm w\<rparr>)),
     shm_find_info = (\<lambda>n w. (map_of (r_info w) n, w)),
     shm_construct_info = (\<lambda>n i w. (True, w\<lparr>r_info := (n, i) # r_info w\<rparr>)),
     grpc_shutdown = (\<lambda>a w. (Inr (), w)),
     grpc_vm_ready = (\<lambda>a w. (Inr (), w)),
     grpc_launch_app = (\<lambda>a n d w. (Inr (-1, FAILED), w)),
     grpc_listen = (\<lambda>a w. (True, w)),
     std_cout = (\<lambda>txt w. ((), w\<lparr>r_log := r_log w @ [txt]\<rparr>)),
     std_cin_line = (\<lambda>w. ([], w)),
     proc_system_args = (\<lambda>p args w. (Some 0, w\<lparr>r_log := r_log w @ p # args\<rparr>)),
     proc_output = (\<lambda>cmd w. (Some ''0000:00:02.0 VGA'', w)),
     libc_system = (\<lambda>cmd w. (0, w\<lparr>r_log := r_log w @ [cmd]\<rparr>)),
     fs_file_size = (\<lambda>p w. (case map_of (r_files w) p of None \<Rightarrow> -1 | Some txt \<Rightarrow> word_of_nat (length txt), w)),
     fs_entries_ec = (\<lambda>p w. ([], w)),
     path_extension = (\<lambda>p. if CHR ''.'' \<in> set p then CHR ''.'' # rev (takeWhile (\<lambda>c. c \<noteq> CHR ''.'') (rev p)) else []),
     path_stem = (\<lambda>p. takeWhile (\<lambda>c. c \<noteq> CHR ''.'') (basename p)),
     po_parse = (\<lambda>opts args. Inr (case args of [_, o1, p] \<Rightarrow> if o1 = ''-b'' then [(''start'', p)] else [] | _ \<Rightarrow> [])),
     exn_what = (\<lambda>e. ''exception''),
     po_u32 = (\<lambda>s. word_of_int (atoi s)),
     po_print = (\<lambda>opts. concat (map fst opts)),
     os_fork = (\<lambda>w. (0, w)),
     os_setsid = (\<lambda>w. ((), w)),
     os_ignore_signal = (\<lambda>s w. ((), w)),
     os_chdir = (\<lambda>p w. ((), w)),
     os_umask = (\<lambda>n w. ((), w)),
     os_open_max = (\<lambda>w. (3, w)),
     os_close = (\<lambda>fd w. ((), w\<lparr>r_fds := removeAll fd (r_fds w)\<rparr>)),
     os_open_rdwr = (\<lambda>p w. if 0 \<in> set (r_fds w) then (- 1, w) else (0, w\<lparr>r_fds := 0 # r_fds w\<rparr>)),
     os_dup2 = (\<lambda>a b w. if a \<in> set (r_fds w) then (b, w\<lparr>r_fds := b # r_fds w\<rparr>) else (- 1, w))\<rparr>"

definition ref_world0 :: ref_world where
  "ref_world0 = \<lparr>r_files = [], r_dirs = [], r_inis = [], r_log = [], r_running = [], r_next_pid = 1, r_shm = [], r_info = [], r_fds = [0, 1, 2, 3]\<rparr>"

lemmas ref_defs =
  ref_env_def ref_world0_def ref_trim_def ref_split_on_def ref_get_def ref_exists_def ref_regular_def
  ref_remove_def ref_write_def

text \<open>The reference host obeys the laws on files.\<close>

lemma map_of_filter_key: "map_of (filter (\<lambda>(q, _). q \<noteq> p) xs) q = (if q = p then None else map_of xs q)"
  by (induction xs) auto

lemma map_of_filter_keys:
  "map_of (filter (\<lambda>x. (case x of (q, _) \<Rightarrow> q \<noteq> r) \<and> (case x of (q, _) \<Rightarrow> q \<noteq> p)) xs) q =
     (if q = p \<or> q = r then None else map_of xs q)"
  by (induction xs) auto

lemma ref_file_laws: "file_laws ref_env (\<lambda>p w. map_of (r_files w) p) (\<lambda>p w. p \<in> set (r_dirs w))"
proof -
  have ex: "(p \<in> fst ` set xs) = (\<exists>y. map_of xs p = Some y)" for p and xs :: "(path \<times> string) list"
    by (metis (no_types) map_of_eq_None_iff not_Some_eq)
  show ?thesis
    unfolding file_laws_def same_but_def
    by (auto simp: ref_env_def ref_exists_def ref_remove_def ref_write_def map_of_filter_key
        map_of_filter_keys ex)
qed

text \<open>So does its shared memory.\<close>

abbreviation ref_strs :: "ref_world \<Rightarrow> string \<Rightarrow> string \<Rightarrow> string list option" where
  "ref_strs w n k \<equiv> map_of (r_shm w) (n, k)"

abbreviation ref_info :: "ref_world \<Rightarrow> string \<Rightarrow> (u32 \<times> nat) option" where
  "ref_info w n \<equiv> map_of (r_info w) n"

lemma map_of_filter_if: "map_of (filter (\<lambda>(q, _). \<not> (q = n \<and> b)) xs) n = (if b then None else map_of xs n)"
  by (induction xs) auto

lemma ref_shm_laws: "shm_law ref_env ref_strs ref_info" "console_law ref_env (\<lambda>w. concat (r_log w))" "pid_law ref_env"
  by (simp_all add: shm_law_def console_law_def pid_law_def ref_env_def map_of_filter_key map_of_filter_if)

lemma ref_shm:
  "shm_open ref_env n w = (True, w)" "shm_find ref_env n k w = (map_of (r_shm w) (n, k), w)" "shm_find_info ref_env n w = (map_of (r_info w) n, w)"
  "shm_construct ref_env n k v w = (True, w\<lparr>r_shm := ((n, k), v) # r_shm w\<rparr>)"
  "shm_construct_info ref_env n i w = (True, w\<lparr>r_info := (n, i) # r_info w\<rparr>)"
  "shm_destroy ref_env n k w = ((), w\<lparr>r_shm := filter (\<lambda>(q, _). q \<noteq> (n, k)) (r_shm w),
     r_info := filter (\<lambda>(q, _). \<not> (q = n \<and> k = ''VmInfo'')) (r_info w)\<rparr>)"
  "std_cout ref_env txt w = ((), w\<lparr>r_log := r_log w @ [txt]\<rparr>)" "grpc_shutdown ref_env addr w = (Inr (), w)"
  by (simp_all add: ref_env_def)

end
