(* ===== verification/Config_Parser.thy ===== *)
theory Config_Parser
  imports Ref_Env
begin

text \<open>
  \<open>CivConfig\<close> (src/guest/config_parser.h and .cc): the groups and keys of a guest's ini file, the check
  that a file uses no others, and reading, writing, looking up and setting values.  The tree itself is
  \<open>boost::property_tree\<close>, a parameter (the \<open>pt_\<close> fields of \<open>env\<close>).
\<close>

section \<open>Groups, keys and the values a key can select\<close>

text \<open>Groups\<close>

abbreviation (input) kGroupGlob :: string where "kGroupGlob \<equiv> ''global''"
abbreviation (input) kGroupEmul :: string where "kGroupEmul \<equiv> ''emulator''"
abbreviation (input) kGroupMem :: string where "kGroupMem \<equiv> ''memory''"
abbreviation (input) kGroupVcpu :: string where "kGroupVcpu \<equiv> ''vcpu''"
abbreviation (input) kGroupFirm :: string where "kGroupFirm \<equiv> ''firmware''"
abbreviation (input) kGroupDisk :: string where "kGroupDisk \<equiv> ''disk''"
abbreviation (input) kGroupVgpu :: string where "kGroupVgpu \<equiv> ''graphics''"
abbreviation (input) kGroupDisplay :: string where "kGroupDisplay \<equiv> ''display''"
abbreviation (input) kGroupNet :: string where "kGroupNet \<equiv> ''net''"
abbreviation (input) kGroupVtpm :: string where "kGroupVtpm \<equiv> ''vtpm''"
abbreviation (input) kGroupRpmb :: string where "kGroupRpmb \<equiv> ''rpmb''"
abbreviation (input) kGroupAaf :: string where "kGroupAaf \<equiv> ''aaf''"
abbreviation (input) kGroupPciPt :: string where "kGroupPciPt \<equiv> ''passthrough''"
abbreviation (input) kGroupbluetooth :: string where "kGroupbluetooth \<equiv> ''bluetooth''"
abbreviation (input) kGroupAudio :: string where "kGroupAudio \<equiv> ''audio''"
abbreviation (input) kGroupMed :: string where "kGroupMed \<equiv> ''mediation''"
abbreviation (input) kGroupService :: string where "kGroupService \<equiv> ''guest_control''"
abbreviation (input) kGroupExtra :: string where "kGroupExtra \<equiv> ''extra''"

text \<open>Keys\<close>

abbreviation (input) kGlobName :: string where "kGlobName \<equiv> ''name''"
abbreviation (input) kGlobFlashfiles :: string where "kGlobFlashfiles \<equiv> ''flashfiles''"
abbreviation (input) kGlobCid :: string where "kGlobCid \<equiv> ''vsock_cid''"
abbreviation (input) kGlobWaitReady :: string where "kGlobWaitReady \<equiv> ''wait_ready''"
abbreviation (input) kEmulType :: string where "kEmulType \<equiv> ''type''"
abbreviation (input) kEmulPath :: string where "kEmulPath \<equiv> ''path''"
abbreviation (input) kMemSize :: string where "kMemSize \<equiv> ''size''"
abbreviation (input) kVcpuNum :: string where "kVcpuNum \<equiv> ''num''"
abbreviation (input) kFirmType :: string where "kFirmType \<equiv> ''type''"
abbreviation (input) kFirmPath :: string where "kFirmPath \<equiv> ''path''"
abbreviation (input) kFirmCode :: string where "kFirmCode \<equiv> ''code''"
abbreviation (input) kFirmVars :: string where "kFirmVars \<equiv> ''vars''"
abbreviation (input) kDiskSize :: string where "kDiskSize \<equiv> ''size''"
abbreviation (input) kDiskPath :: string where "kDiskPath \<equiv> ''path''"
abbreviation (input) kVgpuType :: string where "kVgpuType \<equiv> ''type''"
abbreviation (input) kVgpuGvtgVer :: string where "kVgpuGvtgVer \<equiv> ''gvtg_version''"
abbreviation (input) kVgpuUuid :: string where "kVgpuUuid \<equiv> ''vgpu_uuid''"
abbreviation (input) kVgpuMonId :: string where "kVgpuMonId \<equiv> ''monitor''"
abbreviation (input) kVgpuOutputs :: string where "kVgpuOutputs \<equiv> ''outputs''"
abbreviation (input) kDispOptions :: string where "kDispOptions \<equiv> ''options''"
abbreviation (input) kNetModel :: string where "kNetModel \<equiv> ''model''"
abbreviation (input) kNetAdbPort :: string where "kNetAdbPort \<equiv> ''adb_port''"
abbreviation (input) kNetFastbootPort :: string where "kNetFastbootPort \<equiv> ''fastboot_port''"
abbreviation (input) kVtpmBinPath :: string where "kVtpmBinPath \<equiv> ''bin_path''"
abbreviation (input) kVtpmDataDir :: string where "kVtpmDataDir \<equiv> ''data_dir''"
abbreviation (input) kRpmbBinPath :: string where "kRpmbBinPath \<equiv> ''bin_path''"
abbreviation (input) kRpmbDataDir :: string where "kRpmbDataDir \<equiv> ''data_dir''"
abbreviation (input) kAafPath :: string where "kAafPath \<equiv> ''path''"
abbreviation (input) kAafSuspend :: string where "kAafSuspend \<equiv> ''support_suspend''"
abbreviation (input) kAafAudioType :: string where "kAafAudioType \<equiv> ''audio_type''"
abbreviation (input) kPciPtDev :: string where "kPciPtDev \<equiv> ''passthrough_pci''"
abbreviation (input) kHciDown :: string where "kHciDown \<equiv> ''hci_down''"
abbreviation (input) kDisableEmul :: string where "kDisableEmul \<equiv> ''disable_emulation''"
abbreviation (input) kMedBattery :: string where "kMedBattery \<equiv> ''battery_med''"
abbreviation (input) kMedThermal :: string where "kMedThermal \<equiv> ''thermal_med''"
abbreviation (input) kMedCamera :: string where "kMedCamera \<equiv> ''camera_med''"
abbreviation (input) kServTimeKeep :: string where "kServTimeKeep \<equiv> ''time_keep''"
abbreviation (input) kServPmCtrl :: string where "kServPmCtrl \<equiv> ''pm_control''"
abbreviation (input) kServVinput :: string where "kServVinput \<equiv> ''vinput''"
abbreviation (input) kExtraCmd :: string where "kExtraCmd \<equiv> ''cmd''"
abbreviation (input) kExtraService :: string where "kExtraService \<equiv> ''service''"
abbreviation (input) kExtraPwrCtrlMultiOS :: string where "kExtraPwrCtrlMultiOS \<equiv> ''pwr_ctrl_multios''"

text \<open>Options for Key to select\<close>

abbreviation (input) kEmulTypeQemu :: string where "kEmulTypeQemu \<equiv> ''QEMU''"
abbreviation (input) kFirmUnified :: string where "kFirmUnified \<equiv> ''unified''"
abbreviation (input) kFirmSplited :: string where "kFirmSplited \<equiv> ''splited''"
abbreviation (input) kVgpuNone :: string where "kVgpuNone \<equiv> ''headless''"
abbreviation (input) kVgpuVirtio :: string where "kVgpuVirtio \<equiv> ''virtio''"
abbreviation (input) kVgpuVirtio2D :: string where "kVgpuVirtio2D \<equiv> ''virtio2d''"
abbreviation (input) kVgpuRamfb :: string where "kVgpuRamfb \<equiv> ''ramfb''"
abbreviation (input) kVgpuGvtG :: string where "kVgpuGvtG \<equiv> ''GVT-g''"
abbreviation (input) kVgpuGvtD :: string where "kVgpuGvtD \<equiv> ''GVT-d''"
abbreviation (input) kVgpuSriov :: string where "kVgpuSriov \<equiv> ''SRIOV''"
abbreviation (input) kGvtgV51 :: string where "kGvtgV51 \<equiv> ''i915-GVTg_V5_1''"
abbreviation (input) kGvtgV52 :: string where "kGvtgV52 \<equiv> ''i915-GVTg_V5_2''"
abbreviation (input) kGvtgV54 :: string where "kGvtgV54 \<equiv> ''i915-GVTg_V5_4''"
abbreviation (input) kGvtgV58 :: string where "kGvtgV58 \<equiv> ''i915-GVTg_V5_8''"
abbreviation (input) kSuspendEnable :: string where "kSuspendEnable \<equiv> ''enable''"
abbreviation (input) kSuspendDisable :: string where "kSuspendDisable \<equiv> ''disable''"

section \<open>The table of valid options\<close>

definition kConfigMap :: "(string \<times> string list) list" where
  "kConfigMap =
    [(kGroupGlob, [kGlobName, kGlobFlashfiles, kGlobCid, kGlobWaitReady]),
     (kGroupEmul, [kEmulType, kEmulPath]),
     (kGroupMem, [kMemSize]),
     (kGroupVcpu, [kVcpuNum]),
     (kGroupFirm, [kFirmType, kFirmPath, kFirmCode, kFirmVars]),
     (kGroupDisk, [kDiskSize, kDiskPath]),
     (kGroupVgpu, [kVgpuType, kVgpuGvtgVer, kVgpuUuid, kVgpuMonId, kVgpuOutputs]),
     (kGroupDisplay, [kDispOptions]),
     (kGroupNet, [kNetModel, kNetAdbPort, kNetFastbootPort]),
     (kGroupVtpm, [kVtpmBinPath, kVtpmDataDir]),
     (kGroupRpmb, [kRpmbBinPath, kRpmbDataDir]),
     (kGroupAaf, [kAafPath, kAafSuspend, kAafAudioType]),
     (kGroupPciPt, [kPciPtDev]),
     (kGroupbluetooth, [kHciDown]),
     (kGroupAudio, [kDisableEmul]),
     (kGroupMed, [kMedBattery, kMedThermal, kMedCamera]),
     (kGroupService, [kServTimeKeep, kServPmCtrl, kServVinput]),
     (kGroupExtra, [kExtraCmd, kExtraService, kExtraPwrCtrlMultiOS])]"

section \<open>The class\<close>

record 't CivConfig =
  cfg_data :: 't

text \<open>The inner loop of \<open>SanitizeOpts\<close>: the keys of one section.\<close>

primrec sanitize_keys :: "string list \<Rightarrow> string list \<Rightarrow> bool" where
  "sanitize_keys allowed [] = True"
| "sanitize_keys allowed (k # ks) = (if k \<notin> set allowed then False else sanitize_keys allowed ks)"

fun sanitize_sections :: "(string \<times> string list) list \<Rightarrow> bool" where
  "sanitize_sections [] = True"
| "sanitize_sections ((g, ks) # rest) =
     (case map_of kConfigMap g of
        Some allowed \<Rightarrow> (if sanitize_keys allowed ks then sanitize_sections rest else False)
      | None \<Rightarrow> False)"

definition SanitizeOpts :: "('w, 't) env \<Rightarrow> 't CivConfig \<Rightarrow> bool" where
  "SanitizeOpts E cfg = sanitize_sections (pt_sections E (cfg_data cfg))"

text \<open>
  \<open>ReadConfigFile\<close> returns its result and the object it leaves.  \<open>read_ini\<close> may throw, and nothing in
  the function catches it.
\<close>

definition ReadConfigFile ::
  "('w, 't) env \<Rightarrow> path \<Rightarrow> 't CivConfig \<Rightarrow> (('w, 'z) os_state_scheme, bool \<times> 't CivConfig) cpp" where
  "ReadConfigFile E path cfg =
     cbind (oscall (fs_exists E path)) (\<lambda>ex.
     if \<not> ex then cret (False, cfg) else
     cbind (oscall (fs_is_regular E path)) (\<lambda>reg.
     if \<not> reg then cret (False, cfg) else
     cbind (oscall_throw Ini_parser_error (read_ini E path)) (\<lambda>t.
     if \<not> SanitizeOpts E (cfg\<lparr>cfg_data := t\<rparr>) then cret (False, cfg\<lparr>cfg_data := pt_clear E\<rparr>)
     else cret (True, cfg\<lparr>cfg_data := t\<rparr>))))"

definition WriteConfigFile ::
  "('w, 't) env \<Rightarrow> path \<Rightarrow> 't CivConfig \<Rightarrow> (('w, 'z) os_state_scheme, bool) cpp" where
  "WriteConfigFile E path cfg =
     cbind (oscall (fs_exists E path)) (\<lambda>ex.
     if \<not> ex then cret False else
     cbind (oscall (fs_is_regular E path)) (\<lambda>reg.
     if \<not> reg then cret False else
     if pt_empty E (cfg_data cfg) then cret True else
     if \<not> SanitizeOpts E cfg then cret False else
     cbind (oscall (write_ini E path (cfg_data cfg))) (\<lambda>ok.
     if ok then cret True else cthrow Ini_parser_error)))"

definition GetValue :: "('w, 't) env \<Rightarrow> 't CivConfig \<Rightarrow> string \<Rightarrow> string \<Rightarrow> string" where
  "GetValue E cfg grp key =
     (case pt_get E (cfg_data cfg) (grp @ ''.'' @ key) of
        Some val \<Rightarrow> trim E val
      | None \<Rightarrow> [])"

definition SetValue ::
  "('w, 't) env \<Rightarrow> string \<Rightarrow> string \<Rightarrow> string \<Rightarrow> 't CivConfig \<Rightarrow> bool \<times> 't CivConfig" where
  "SetValue E grp key value cfg =
     (if value \<noteq> [] then
        (case pt_put E (cfg_data cfg) (grp @ ''.'' @ key) value of
           Some t \<Rightarrow> (True, cfg\<lparr>cfg_data := t\<rparr>)
         | None \<Rightarrow> (False, cfg))
      else (True, cfg))"

section \<open>What the sections may contain\<close>

lemma sanitize_keys_iff: "sanitize_keys allowed ks \<longleftrightarrow> set ks \<subseteq> set allowed"
  by (induction ks) auto

lemma sanitize_sections_iff:
  "sanitize_sections secs \<longleftrightarrow>
     (\<forall>(g, ks) \<in> set secs. \<exists>allowed. map_of kConfigMap g = Some allowed \<and> set ks \<subseteq> set allowed)"
  by (induction secs rule: sanitize_sections.induct)
    (auto simp: sanitize_keys_iff split: option.splits)

text \<open>
  The table has one entry for each group, so looking a group up in the list is looking it up in the
  \<open>std::map\<close>.
\<close>

lemma kConfigMap_distinct: "distinct (map fst kConfigMap)"
  by (simp add: kConfigMap_def)

text \<open>
  The options of a tree, as pairs of a group and a key; \<open>valid_options\<close> are those the table lists.
\<close>

definition options_of :: "('w, 't) env \<Rightarrow> 't \<Rightarrow> (string \<times> string) set" where
  "options_of E t = {(g, k). \<exists>ks. (g, ks) \<in> set (pt_sections E t) \<and> k \<in> set ks}"

definition valid_options :: "(string \<times> string) set" where
  "valid_options = {(g, k). \<exists>ks. (g, ks) \<in> set kConfigMap \<and> k \<in> set ks}"

lemma map_of_kConfigMap_iff: "map_of kConfigMap g = Some ks \<longleftrightarrow> (g, ks) \<in> set kConfigMap"
  by (simp add: map_of_eq_Some_iff [OF kConfigMap_distinct])

lemma sanitize_sets:
  "SanitizeOpts E cfg \<longleftrightarrow>
     fst ` set (pt_sections E (cfg_data cfg)) \<subseteq> fst ` set kConfigMap \<and>
     options_of E (cfg_data cfg) \<subseteq> valid_options"
proof
  assume "SanitizeOpts E cfg"
  then show "fst ` set (pt_sections E (cfg_data cfg)) \<subseteq> fst ` set kConfigMap \<and>
     options_of E (cfg_data cfg) \<subseteq> valid_options"
    unfolding SanitizeOpts_def sanitize_sections_iff options_of_def valid_options_def
    by (force simp: map_of_kConfigMap_iff)
next
  assume asm: "fst ` set (pt_sections E (cfg_data cfg)) \<subseteq> fst ` set kConfigMap \<and>
     options_of E (cfg_data cfg) \<subseteq> valid_options"
  have "\<exists>allowed. map_of kConfigMap g = Some allowed \<and> set ks \<subseteq> set allowed"
    if sec: "(g, ks) \<in> set (pt_sections E (cfg_data cfg))" for g ks
  proof -
    have "g \<in> fst ` set kConfigMap" using asm sec by force
    then obtain allowed where al: "(g, allowed) \<in> set kConfigMap" by auto
    have "k \<in> set allowed" if k: "k \<in> set ks" for k
    proof -
      have "(g, k) \<in> valid_options" using asm sec k by (auto simp: options_of_def)
      then obtain ks' where "(g, ks') \<in> set kConfigMap" "k \<in> set ks'" by (auto simp: valid_options_def)
      with al show ?thesis using kConfigMap_distinct by (metis map_of_kConfigMap_iff option.inject)
    qed
    with al show ?thesis by (auto simp: map_of_kConfigMap_iff)
  qed
  then show "SanitizeOpts E cfg" by (auto simp: SanitizeOpts_def sanitize_sections_iff)
qed

section \<open>Properties\<close>

text \<open>
  C20. \<open>SanitizeOpts\<close> accepts a tree exactly when every section is a group of the table and every key in
  it is a key of that group: no unknown group or key gets past it, and no valid file is refused.
\<close>

theorem SanitizeOpts_iff:
  "SanitizeOpts E cfg \<longleftrightarrow>
     fst ` set (pt_sections E (cfg_data cfg)) \<subseteq> fst ` set kConfigMap \<and>
     options_of E (cfg_data cfg) \<subseteq> valid_options"
  by (rule sanitize_sets)

lemma ReadConfigFile_cases:
  assumes "ReadConfigFile E path cfg s = (r, t)"
  obtains (missing) "r = Ret (False, cfg)"
  | (parse) "r = Throw Ini_parser_error" "\<exists>w. fst (read_ini E path w) = None"
  | (invalid) w tree where "fst (read_ini E path w) = Some tree" "\<not> SanitizeOpts E (cfg\<lparr>cfg_data := tree\<rparr>)"
      "r = Ret (False, cfg\<lparr>cfg_data := pt_clear E\<rparr>)"
  | (valid) w tree where "fst (read_ini E path w) = Some tree" "SanitizeOpts E (cfg\<lparr>cfg_data := tree\<rparr>)"
      "r = Ret (True, cfg\<lparr>cfg_data := tree\<rparr>)"
proof -
  obtain ex w1 where ex: "fs_exists E path (world s) = (ex, w1)" by (cases "fs_exists E path (world s)")
  obtain reg w2 where reg: "fs_is_regular E path w1 = (reg, w2)" by (cases "fs_is_regular E path w1")
  obtain tree w3 where ini: "read_ini E path w2 = (tree, w3)" by (cases "read_ini E path w2")
  note run = assms [unfolded ReadConfigFile_def oscall_throw_def]
  show ?thesis
  proof (cases "ex \<and> reg")
    case False
    then show ?thesis using run by (intro missing) (auto simp: run_simps ex reg split: if_splits)
  next
    case True
    show ?thesis
    proof (cases tree)
      case None
      then show ?thesis using run True by (intro parse) (auto simp: run_simps ex reg ini intro: exI [of _ w2])
    next
      case (Some tr)
      then show ?thesis
        using run True invalid [of w2 tr] valid [of w2 tr]
        by (auto simp: run_simps ex reg ini split: if_splits)
    qed
  qed
qed



lemma only_world_ReadConfigFile: "within only_world (ReadConfigFile E path cfg)"
  unfolding ReadConfigFile_def by (intro only_world_intros)

lemma only_world_WriteConfigFile: "within only_world (WriteConfigFile E path cfg)"
  unfolding WriteConfigFile_def by (intro only_world_intros)

end
