(* ===== verification/Aaf.thy ===== *)
theory Aaf
  imports Config_Parser
begin

text \<open>
  \<open>Aaf\<close> (src/guest/aaf.h and .cc): three settings the guest reads from \<open>mixins.spec\<close> in the shared folder.
  \<open>Set\<close> records a value, \<open>Flush\<close> merges the recorded values into the file: a line of a recorded key is
  rewritten, other lines are kept, missing keys are added at the end.  The merge is the pure function
  \<open>merge_lines\<close> (the \<open>while\<close> loop) followed by \<open>rest_lines\<close> (the \<open>for\<close> loop); the file operations around it
  are calls of the environment.
\<close>

section \<open>The class\<close>

definition kAafKeyGpuType :: string where "kAafKeyGpuType = ''gpu-type''"
definition kAafKeySuspend :: string where "kAafKeySuspend = ''suspend''"
definition kAafKeyAudioType :: string where "kAafKeyAudioType = ''audio-type''"

record aaf =
  aaf_path :: path
  aaf_data :: "(string \<times> string) list"

definition Aaf_new :: "path \<Rightarrow> aaf" where
  "Aaf_new p = \<lparr>aaf_path = p,
     aaf_data = std_map_insert kAafKeyAudioType [] (std_map_insert kAafKeySuspend []
                  (std_map_insert kAafKeyGpuType [] []))\<rparr>"

definition Aaf_Set :: "string \<Rightarrow> string \<Rightarrow> aaf \<Rightarrow> aaf" where
  "Aaf_Set k v a =
     (case map_of (aaf_data a) k of
        Some _ \<Rightarrow> a\<lparr>aaf_data := std_map_set k v (aaf_data a)\<rparr>
      | None \<Rightarrow> a)"

text \<open>\<open>tmp.substr(0, tmp.find(":"))\<close>\<close>

definition line_key :: "string \<Rightarrow> string" where
  "line_key tmp = substr_to (str_find (CHR '':'') tmp) tmp"

definition spec_line :: "string \<Rightarrow> string \<Rightarrow> string" where
  "spec_line k v = k @ '':'' @ v"

text \<open>The loop over the old file: the lines it writes and the data it leaves.\<close>

fun merge_lines ::
  "(string \<times> string) list \<Rightarrow> string list \<Rightarrow> string list \<times> (string \<times> string) list" where
  "merge_lines d [] = ([], d)"
| "merge_lines d (tmp # rest) =
     (if tmp = [] then merge_lines d rest
      else if length (line_key tmp) = 0 then merge_lines d rest
      else (case map_of d (line_key tmp) of
          Some v \<Rightarrow>
            (if v \<noteq> []
             then (case merge_lines (std_map_set (line_key tmp) [] d) rest of
                     (out, d') \<Rightarrow> (spec_line (line_key tmp) v # out, d'))
             else (case merge_lines d rest of (out, d') \<Rightarrow> (tmp # out, d')))
        | None \<Rightarrow> (case merge_lines d rest of (out, d') \<Rightarrow> (tmp # out, d'))))"

text \<open>The loop over what is left: the lines it writes; it clears every value.\<close>

definition rest_lines :: "(string \<times> string) list \<Rightarrow> string list" where
  "rest_lines d = map (\<lambda>(k, v). spec_line k v) (filter (\<lambda>(_, v). v \<noteq> []) d)"

definition clear_all :: "(string \<times> string) list \<Rightarrow> (string \<times> string) list" where
  "clear_all d = map (\<lambda>(k, v). (k, [])) d"

text \<open>
  Writing to a stream that was not opened has no effect.  When the old file cannot be opened for
  reading, \<open>eof()\<close> never becomes true and the loop does not end.
\<close>

definition Aaf_Flush :: "('w, 't) env \<Rightarrow> aaf \<Rightarrow> (('w, 'z) os_state_scheme, aaf) cpp" where
  "Aaf_Flush E a =
     (if aaf_path a = [] then cret a else
      cbind (oscall (fs_exists E (aaf_path a))) (\<lambda>ex.
      if \<not> ex then cret a else
      cbind (oscall (fs_is_directory E (aaf_path a))) (\<lambda>dir.
      if \<not> dir then cret a else
      let target_file = aaf_path a @ ''/'' @ ''mixins.spec'';
          hidden_file = aaf_path a @ ''/'' @ ''.mixins.spec~''
      in
      cbind (oscall (fs_exists E target_file)) (\<lambda>old.
      cbind
        (if old then
           cseq (oscall (fs_rename E target_file hidden_file))
           (cbind (oscall (file_read E hidden_file)) (\<lambda>txt.
            cbind (oscall (file_create E target_file)) (\<lambda>opened.
            case txt of
              None \<Rightarrow> chang
            | Some txt \<Rightarrow>
                (case merge_lines (aaf_data a) (getlines txt) of (out, d) \<Rightarrow>
                   cseq (cwhen opened (oscall (file_append E target_file (put_lines out))))
                  (cbind (oscall (fs_remove E hidden_file)) (\<lambda>_.
                   cret (opened, d)))))))
         else cret (False, aaf_data a))
        (\<lambda>(opened, d).
      cbind (if opened then cret True else oscall (file_create E target_file)) (\<lambda>opened.
      cseq (cwhen opened (oscall (file_append E target_file (put_lines (rest_lines d)))))
      (cret (a\<lparr>aaf_data := clear_all d\<rparr>))))))))"

lemma only_world_Aaf_Flush: "within only_world (Aaf_Flush E a)"
  unfolding Aaf_Flush_def Let_def case_prod_unfold by (intro only_world_intros)

section \<open>The file as a finite map\<close>

text \<open>
  How a reader sees the file: the first line of a key counts, its value is what follows the colon.
  \<open>pending d\<close> are the recorded values.
\<close>

definition line_value :: "string \<Rightarrow> string" where
  "line_value l = substr_after (str_find (CHR '':'') l) l"

definition spec_of :: "string list \<Rightarrow> string \<rightharpoonup> string" where
  "spec_of ls = map_of (map (\<lambda>l. (line_key l, line_value l)) (filter (\<lambda>l. line_key l \<noteq> []) ls))"

definition pending :: "(string \<times> string) list \<Rightarrow> string \<rightharpoonup> string" where
  "pending d = (\<lambda>k. case map_of d k of None \<Rightarrow> None | Some v \<Rightarrow> if v = [] then None else Some v)"

text \<open>The keys of the class: not empty, no colon.\<close>

definition plain_keys :: "(string \<times> string) list \<Rightarrow> bool" where
  "plain_keys d \<longleftrightarrow> distinct (map fst d) \<and> (\<forall>k \<in> set (map fst d). k \<noteq> [] \<and> CHR '':'' \<notin> set k)"

lemma plain_keys_new: "plain_keys (aaf_data (Aaf_new p))"
  by (simp add: plain_keys_def Aaf_new_def kAafKeyAudioType_def kAafKeySuspend_def kAafKeyGpuType_def)

lemma plain_keys_set: "plain_keys (std_map_set k v d) = plain_keys d"
  by (simp add: plain_keys_def keys_std_map_set)

lemma line_key_Nil [simp]: "line_key [] = []"
  by (simp add: line_key_def substr_to_find)

lemma line_key_takeWhile: "line_key l = takeWhile (\<lambda>c. c \<noteq> CHR '':'') l"
  by (simp add: line_key_def substr_to_find)

lemma line_key_spec_line: "CHR '':'' \<notin> set k \<Longrightarrow> line_key (spec_line k v) = k"
  unfolding line_key_takeWhile spec_line_def by (auto simp: takeWhile_append)

lemma line_value_spec_line: "CHR '':'' \<notin> set k \<Longrightarrow> line_value (spec_line k v) = v"
proof -
  assume k: "CHR '':'' \<notin> set k"
  then have tw: "takeWhile (\<lambda>x. x \<noteq> CHR '':'') (k @ CHR '':'' # v) = k"
    by (auto simp: takeWhile_append)
  have "str_find (CHR '':'') (spec_line k v) = Some (length k)"
    unfolding str_find_def spec_line_def by (simp add: tw)
  then show ?thesis by (simp add: line_value_def substr_after_def spec_line_def)
qed

lemma spec_of_Nil [simp]: "spec_of [] = Map.empty"
  by (simp add: spec_of_def)

lemma spec_of_Cons:
  "spec_of (l # ls) = (if line_key l = [] then spec_of ls else (spec_of ls)(line_key l \<mapsto> line_value l))"
  by (simp add: spec_of_def)

lemma pending_set_Nil: "pending (std_map_set k [] d) = (pending d)(k := None)"
  by (auto simp: pending_def map_of_std_map_set fun_eq_iff split: option.splits)

lemma pending_keyD: "pending d k = Some v \<Longrightarrow> map_of d k = Some v \<and> v \<noteq> []"
  by (auto simp: pending_def split: option.splits if_splits)

lemma plain_keysD: "plain_keys d \<Longrightarrow> map_of d k = Some v \<Longrightarrow> k \<noteq> [] \<and> CHR '':'' \<notin> set k"
  unfolding plain_keys_def by (metis map_of_SomeD in_set_zipE zip_map_fst_snd)

text \<open>
  What the first loop achieves: recorded values replace those of the file, and what is left to the second
  loop are the recorded keys the file does not have.
\<close>

definition merged :: "(string \<times> string) list \<Rightarrow> string list \<Rightarrow> string list \<Rightarrow> (string \<times> string) list \<Rightarrow> bool" where
  "merged d ls out d' \<longleftrightarrow> plain_keys d' \<and>
     (\<forall>k. pending d' k = (if spec_of ls k = None then pending d k else None)) \<and>
     (\<forall>k. spec_of out k = (if spec_of ls k = None then None
             else if pending d k = None then spec_of ls k else pending d k))"

lemma merged_kept:
  assumes "merged d ls out d'" and "pending d (line_key l) = None" and "line_key l \<noteq> []"
  shows "merged d (l # ls) (l # out) d'"
  using assms unfolding merged_def by (auto simp: spec_of_Cons)

lemma merged_replaced:
  assumes "merged (std_map_set (line_key l) [] d) ls out d'"
    and "pending d (line_key l) = Some v" and "line_key l \<noteq> []" and "CHR '':'' \<notin> set (line_key l)"
  shows "merged d (l # ls) (spec_line (line_key l) v # out) d'"
  using assms unfolding merged_def
  by (auto simp: spec_of_Cons line_key_spec_line line_value_spec_line pending_set_Nil)

text \<open>The three ways the loop treats a line: skip it, keep it, replace it.\<close>

lemma merge_lines_ConsE:
  assumes "merge_lines d (l # ls) = (out, d')"
  obtains (skip) "line_key l = []" "merge_lines d ls = (out, d')"
  | (keep) o1 where "line_key l \<noteq> []" "pending d (line_key l) = None" "merge_lines d ls = (o1, d')" "out = l # o1"
  | (replace) o1 v where "line_key l \<noteq> []" "pending d (line_key l) = Some v" "map_of d (line_key l) = Some v"
      "merge_lines (std_map_set (line_key l) [] d) ls = (o1, d')" "out = spec_line (line_key l) v # o1"
proof (cases "line_key l = []")
  case True
  then show ?thesis using assms by (intro skip) (simp_all split: if_splits)
next
  case False
  then have l: "l \<noteq> []" by auto
  show ?thesis
  proof (cases "pending d (line_key l)")
    case None
    obtain o1 d1 where m: "merge_lines d ls = (o1, d1)" by (cases "merge_lines d ls")
    with None show ?thesis
      using assms False l
      by (intro keep [of o1]) (auto simp: pending_def split: option.splits if_splits)
  next
    case (Some v)
    let ?d0 = "std_map_set (line_key l) [] d"
    obtain o1 d1 where m: "merge_lines ?d0 ls = (o1, d1)" by (cases "merge_lines ?d0 ls")
    with pending_keyD [OF Some] Some show ?thesis
      using assms False l by (intro replace [of v o1]) auto
  qed
qed

lemma merge_lines_merged:
  "plain_keys d \<Longrightarrow> merge_lines d ls = (out, d') \<Longrightarrow> merged d ls out d'"
proof (induction ls arbitrary: d out d')
  case Nil
  then show ?case by (simp add: merged_def)
next
  case (Cons l ls)
  from Cons.prems(2) show ?case
  proof (cases rule: merge_lines_ConsE)
    case skip
    with Cons.IH [OF Cons.prems(1)] show ?thesis by (simp add: merged_def spec_of_Cons)
  next
    case (keep o1)
    with Cons.IH [OF Cons.prems(1)] show ?thesis by (auto intro: merged_kept)
  next
    case (replace o1 v)
    then have "CHR '':'' \<notin> set (line_key l)" using plain_keysD Cons.prems(1) by blast
    moreover have "merged (std_map_set (line_key l) [] d) ls o1 d'"
      using replace Cons.prems(1) by (intro Cons.IH) (simp_all add: plain_keys_set)
    ultimately show ?thesis using replace by (auto intro: merged_replaced)
  qed
qed

lemma spec_of_append: "spec_of (ls @ ms) = spec_of ms ++ spec_of ls"
  by (simp add: spec_of_def)

lemma spec_of_rest_lines: "plain_keys d \<Longrightarrow> spec_of (rest_lines d) = pending d"
proof (induction d)
  case Nil
  then show ?case by (simp add: rest_lines_def pending_def)
next
  case (Cons kv d)
  obtain k v where kv: "kv = (k, v)" by (cases kv)
  have pk: "plain_keys d" "k \<notin> set (map fst d)" "k \<noteq> []" "CHR '':'' \<notin> set k"
    using Cons.prems kv by (auto simp: plain_keys_def)
  have "map_of d k = None" using pk(2) by (simp add: map_of_eq_None_iff)
  then have "pending (kv # d) = (if v = [] then pending d else (pending d)(k \<mapsto> v))"
    by (auto simp: kv pending_def fun_eq_iff)
  with Cons.IH [OF pk(1)] kv pk show ?case
    by (auto simp: rest_lines_def spec_of_Cons line_key_spec_line line_value_spec_line)
qed

section \<open>Properties\<close>

text \<open>The lines \<open>Flush\<close> leaves in the file, given the old lines.\<close>

definition flush_lines :: "(string \<times> string) list \<Rightarrow> string list \<Rightarrow> string list" where
  "flush_lines d ls = (case merge_lines d ls of (out, d') \<Rightarrow> out @ rest_lines d')"

lemma spec_of_flush_lines:
  assumes "plain_keys d"
  shows "spec_of (flush_lines d ls) = spec_of ls ++ pending d"
proof -
  obtain out d' where m: "merge_lines d ls = (out, d')" by (cases "merge_lines d ls")
  have sp: "merged d ls out d'" using assms m by (rule merge_lines_merged)
  then have "spec_of (rest_lines d') = pending d'" by (simp add: merged_def spec_of_rest_lines)
  then have "spec_of (flush_lines d ls) = pending d' ++ spec_of out"
    by (simp add: flush_lines_def m spec_of_append)
  also have "\<dots> = spec_of ls ++ pending d"
  proof
    fix k
    show "(pending d' ++ spec_of out) k = (spec_of ls ++ pending d) k"
      using sp unfolding merged_def map_add_def
      by (cases "spec_of ls k"; cases "pending d k") auto
  qed
  finally show ?thesis .
qed

text \<open>Keys and values that fit on a line.\<close>

definition one_line :: "(string \<times> string) list \<Rightarrow> bool" where
  "one_line d \<longleftrightarrow> (\<forall>kv \<in> set d. newline \<notin> set (fst kv) \<and> newline \<notin> set (snd kv))"

lemma one_line_set: "one_line d \<Longrightarrow> one_line (std_map_set k [] d)"
  by (auto simp: one_line_def std_map_set_def split: if_splits)

lemma one_lineD: "one_line d \<Longrightarrow> (k, v) \<in> set d \<Longrightarrow> newline \<notin> set (spec_line k v)"
  by (force simp: one_line_def spec_line_def)

lemma merge_lines_keys: "merge_lines d ls = (out, d') \<Longrightarrow> map fst d' = map fst d"
proof (induction ls arbitrary: d out d')
  case (Cons l ls)
  from Cons.prems show ?case
    by (cases rule: merge_lines_ConsE) (auto dest: Cons.IH simp: keys_std_map_set)
qed simp

lemma merge_lines_one_line:
  "one_line d \<Longrightarrow> (\<forall>l \<in> set ls. newline \<notin> set l) \<Longrightarrow> merge_lines d ls = (out, d') \<Longrightarrow>
     one_line d' \<and> (\<forall>l \<in> set out. newline \<notin> set l)"
proof (induction ls arbitrary: d out d')
  case (Cons l ls)
  from Cons.prems(3) show ?case
  proof (cases rule: merge_lines_ConsE)
    case (replace o1 v)
    have "newline \<notin> set (spec_line (line_key l) v)"
      using one_lineD [OF Cons.prems(1)] map_of_SomeD [OF replace(3)] by blast
    with replace Cons.IH [OF one_line_set [OF Cons.prems(1)] _ replace(4)] Cons.prems(2) show ?thesis by auto
  qed (use Cons.IH [OF Cons.prems(1)] Cons.prems(2) in auto)
qed auto

lemma rest_lines_one_line: "one_line d \<Longrightarrow> l \<in> set (rest_lines d) \<Longrightarrow> newline \<notin> set l"
  using one_lineD by (auto simp: rest_lines_def)

lemma flush_lines_one_line:
  assumes "one_line d" and "\<forall>l \<in> set ls. newline \<notin> set l" and "l \<in> set (flush_lines d ls)"
  shows "newline \<notin> set l"
proof -
  obtain out d' where m: "merge_lines d ls = (out, d')" by (cases "merge_lines d ls")
  show ?thesis
    using merge_lines_one_line [OF assms(1,2) m] rest_lines_one_line [of d' l] assms(3)
    by (auto simp: flush_lines_def m)
qed

lemma clear_all_eq: "clear_all d = map (\<lambda>k. (k, [])) (map fst d)"
  by (auto simp: clear_all_def)

lemma spec_of_snoc_Nil: "spec_of (ls @ [[]]) = spec_of ls"
  by (simp add: spec_of_append spec_of_Cons)

lemma cbind_oscall_pair: "f (world s) = (a, w) \<Longrightarrow> cbind (oscall f) g s = g a (s\<lparr>world := w\<rparr>)"
  by (simp add: run_simps)

text \<open>The file system after a run, in the two cases of an old file and of none.\<close>

lemma Flush_run:
  assumes laws: "file_laws E file dir"
    and p: "aaf_path a = p" "p \<noteq> []" "dir p (world s)"
    and nodir: "\<not> dir (p @ ''/mixins.spec'') (world s)"
  shows "\<exists>w. Aaf_Flush E a s = (Ret (a\<lparr>aaf_data := map (\<lambda>k. (k, [])) (map fst (aaf_data a))\<rparr>), s\<lparr>world := w\<rparr>) \<and>
     file (p @ ''/mixins.spec'') w = Some (put_lines (flush_lines (aaf_data a)
        (case file (p @ ''/mixins.spec'') (world s) of None \<Rightarrow> [] | Some old \<Rightarrow> getlines old)))"
proof (cases "file (p @ ''/mixins.spec'') (world s)")
  case None
  let ?t = "p @ ''/mixins.spec''" and ?d = "aaf_data a"
  note L = file_lawsD [OF laws]
  obtain w1 where c: "file_create E ?t (world s) = (True, w1)"
    using L(4) [of ?t "world s"] by (cases "file_create E ?t (world s)") auto
  obtain w2 where ap: "file_append E ?t (put_lines (rest_lines ?d)) w1 = ((), w2)"
    by (cases "file_append E ?t (put_lines (rest_lines ?d)) w1") auto
  have f1: "file ?t w1 = Some []" using same_butD [OF L(5) [of ?t "world s"], of ?t] c by simp
  have f2: "file ?t w2 = Some (put_lines (rest_lines ?d))"
    using same_butD [OF L(6) [OF f1, of "put_lines (rest_lines ?d)"], of ?t] ap by simp
  have "Aaf_Flush E a s = (Ret (a\<lparr>aaf_data := clear_all ?d\<rparr>), s\<lparr>world := w2\<rparr>)"
    using p None nodir c ap by (simp add: Aaf_Flush_def run_simps L Let_def)
  then show ?thesis using f2 None by (auto simp: clear_all_eq flush_lines_def)
next
  case (Some old)
  let ?t = "p @ ''/mixins.spec''" and ?h = "p @ ''/.mixins.spec~''" and ?d = "aaf_data a"
  note L = file_lawsD [OF laws]
  obtain out d' where m: "merge_lines ?d (getlines old) = (out, d')" by (cases "merge_lines ?d (getlines old)")
  have keys: "map fst d' = map fst ?d" using m by (rule merge_lines_keys)
  obtain w1 where rn: "fs_rename E ?t ?h (world s) = ((), w1)" by (cases "fs_rename E ?t ?h (world s)") auto
  obtain w2 where c: "file_create E ?t w1 = (True, w2)"
    using L(4) [of ?t w1] by (cases "file_create E ?t w1") auto
  obtain w3 where a1: "file_append E ?t (put_lines out) w2 = ((), w3)"
    by (cases "file_append E ?t (put_lines out) w2") auto
  obtain b w4 where rm: "fs_remove E ?h w3 = (b, w4)" by (cases "fs_remove E ?h w3")
  obtain w5 where a2: "file_append E ?t (put_lines (rest_lines d')) w4 = ((), w5)"
    by (cases "file_append E ?t (put_lines (rest_lines d')) w4") auto
  have h1: "file ?h w1 = Some old" using same_butD [OF L(7) [OF Some, of ?h], of ?h] rn by simp
  have t2: "file ?t w2 = Some []" using same_butD [OF L(5) [of ?t w1], of ?t] c by simp
  have t3: "file ?t w3 = Some (put_lines out)"
    using same_butD [OF L(6) [OF t2, of "put_lines out"], of ?t] a1 by simp
  have t4: "file ?t w4 = Some (put_lines out)" using same_butD [OF L(8) [of ?h w3], of ?t] rm t3 by simp
  have t5: "file ?t w5 = Some (put_lines (out @ rest_lines d'))"
    using same_butD [OF L(6) [OF t4, of "put_lines (rest_lines d')"], of ?t] a2 by (simp add: put_lines_append)
  have "Aaf_Flush E a s = (Ret (a\<lparr>aaf_data := clear_all d'\<rparr>), s\<lparr>world := w5\<rparr>)"
    using p Some rn c a1 rm a2 h1 m by (simp add: Aaf_Flush_def run_simps L Let_def)
  then show ?thesis using t5 Some m keys by (auto simp: clear_all_eq flush_lines_def)
qed



end
