(* ===== verification/Civ_Utils.thy ===== *)
theory Civ_Utils
  imports Ref_Env
begin

text \<open>
  \<open>GetConfigPath\<close> (src/utils/utils.cc): the folder of the guests' ini files, computed once and kept in a
  static variable.  While it looks the folder up the process takes on the identity of the user behind
  \<open>sudo\<close>.
\<close>

definition MAX_PATH :: nat where "MAX_PATH = 2048"

text \<open>\<open>snprintf(buf, MAX_PATH, "%s%s", ...)\<close> keeps at most \<open>MAX_PATH - 1\<close> characters.\<close>

definition GetConfigPath :: "('w, 't) env \<Rightarrow> (('w, 'z) os_state_scheme, path option) cpp" where
  "GetConfigPath E =
     cbind (cget civ_config_path) (\<lambda>cached.
     case cached of Some p \<Rightarrow> cret (Some p) | None \<Rightarrow>
     cbind (oscall (os_getresuid E)) (\<lambda>(ruid, euid0, _).
     cbind (oscall (os_getresgid E)) (\<lambda>(rgid, egid0, _).
     cbind (oscall (os_geteuid E)) (\<lambda>suid.
     cbind (oscall (os_getegid E)) (\<lambda>sgid.
     cbind (oscall (os_getenv E ''SUDO_UID'')) (\<lambda>sudo_uid.
     cbind (oscall (os_getenv E ''SUDO_GID'')) (\<lambda>sudo_gid.
     let egid = (case sudo_gid of None \<Rightarrow> egid0 | Some g \<Rightarrow> word_of_int (atoi g));
         euid = (case sudo_uid of None \<Rightarrow> euid0 | Some u \<Rightarrow> word_of_int (atoi u))
     in
     cseq (cwhen (sudo_gid \<noteq> None) (oscall (os_setresgid E rgid egid sgid)))
    (cseq (cwhen (sudo_uid \<noteq> None) (oscall (os_setresuid E ruid euid suid)))
    (cseq (cmodify (\<lambda>s. s\<lparr>civ_config_path := Some []\<rparr>))
    (cbind (oscall (os_getpwuid_dir E euid)) (\<lambda>dir.
     case dir of None \<Rightarrow> cret None | Some home \<Rightarrow>
     let p = take (MAX_PATH - 1) (home @ ''/.intel/.civ'') in
     cseq (cmodify (\<lambda>s. s\<lparr>civ_config_path := Some p\<rparr>))
    (cbind (oscall (fs_exists E p)) (\<lambda>ex.
     cbind (if ex then cret True else oscall (fs_create_directories E p)) (\<lambda>ok.
     cseq (cwhen (\<not> ok) (cmodify (\<lambda>s. s\<lparr>civ_config_path := None\<rparr>)))
    (cseq (cwhen (sudo_gid \<noteq> None) (oscall (os_setresgid E rgid sgid egid)))
    (cseq (cwhen (sudo_uid \<noteq> None) (oscall (os_setresuid E ruid suid euid)))
    (cget civ_config_path)))))))))))))))))"

lemma GetConfigPath_cached: "civ_config_path s = Some p \<Longrightarrow> GetConfigPath E s = (Ret (Some p), s)"
  by (simp add: GetConfigPath_def run_simps)

lemma GetConfigPath_returning: "returning (GetConfigPath E)"
  unfolding GetConfigPath_def Let_def case_prod_unfold by (intro yields_rules)

text \<open>What \<open>GetConfigPath\<close> may change: the world and the cached path.\<close>

locale config_frame = state_preorder R
  for R :: "('w, 'z) os_state_scheme \<Rightarrow> ('w, 'z) os_state_scheme \<Rightarrow> bool" +
  assumes world: "R s (s\<lparr>world := w\<rparr>)"
    and config_path: "R s (s\<lparr>civ_config_path := p\<rparr>)"
begin

lemma host: "within only_world m \<Longrightarrow> within R m"
  by (erule within_mono) (auto simp: only_world_def world)

lemma set_config_path: "within R (cmodify (\<lambda>s. s\<lparr>civ_config_path := p\<rparr>))"
  by (rule within_cmodify) (rule config_path)

lemma GetConfigPath: "within R (GetConfigPath E)"
  unfolding GetConfigPath_def Let_def by (intro compose opt prd set_config_path host only_world_oscall)

end
end
