(* ===== verification/Vm_Process.thy ===== *)
theory Vm_Process
  imports Civ_Utils
begin

text \<open>
  The processes of a guest (src/guest/vm_process.h and .cc).  \<open>VmProcSimple\<close> runs a command line in a child
  watched by a thread; \<open>VmCoProcRpmb\<close> and \<open>VmCoProcVtpm\<close> build their command line first.  The record \<open>vm_proc\<close>
  holds the fields of all three classes, \<open>kind\<close> says which one an object is, and the functions named
  \<open>VmProcess_\<close> are the virtual calls.  \<open>Run\<close> starts the watching thread and waits on a latch that the
  thread opens when the child has been launched: the model runs that part of \<open>ThreadMon\<close> inside \<open>Run\<close>
  (\<open>ThreadMon_launch\<close>) and keeps the rest of the thread, after the child has exited, as \<open>ThreadMon_exit\<close>.
\<close>

section \<open>The classes\<close>

definition kRpmbData :: string where "kRpmbData = ''RPMB_DATA''"
definition kRpmbSockPrefix :: string where "kRpmbSockPrefix = ''/tmp/rpmb_sock_''"
definition kVtpmSock :: string where "kVtpmSock = ''swtpm-sock''"

datatype proc_kind =
    ProcSimple
  | CoProcRpmb (rpmb_bin: string) (rpmb_data_dir: string) (rpmb_sock_file: string)
  | CoProcVtpm (vtpm_bin: string) (vtpm_data_dir: string)

record vm_proc =
  kind :: proc_kind
  cmd :: string
  env_data :: "string list"
  log_dir :: string
  child :: "nat option"
  child_latch :: nat
  mon :: bool

definition VmProcSimple_new :: "string \<Rightarrow> vm_proc" where
  "VmProcSimple_new c = \<lparr>kind = ProcSimple, cmd = c, env_data = [], log_dir = ''/tmp/'', child = None,
     child_latch = 1, mon = False\<rparr>"

definition VmCoProcRpmb_new :: "string \<Rightarrow> string \<Rightarrow> string \<Rightarrow> vm_proc" where
  "VmCoProcRpmb_new bin data_dir sock_file = (VmProcSimple_new [])\<lparr>kind := CoProcRpmb bin data_dir sock_file\<rparr>"

definition VmCoProcVtpm_new :: "string \<Rightarrow> string \<Rightarrow> vm_proc" where
  "VmCoProcVtpm_new bin data_dir = (VmProcSimple_new [])\<lparr>kind := CoProcVtpm bin data_dir\<rparr>"

section \<open>VmProcSimple\<close>

text \<open>\<open>env.set(s.substr(0, s.find('=')), s.substr(s.find('=') + 1))\<close> for every string that is not empty\<close>

definition parse_env :: "string list \<Rightarrow> (string \<times> string) list" where
  "parse_env ss =
     map (\<lambda>s. (substr_to (str_find (CHR ''='') s) s, substr_after (str_find (CHR ''='') s) s))
       (filter (\<lambda>s. length s \<noteq> 0) ss)"

text \<open>The executable: the first word of the command line, \<open>None\<close> when the line is blank.\<close>

definition exe_of :: "string \<Rightarrow> string option" where
  "exe_of c =
     (case find_first_not_of (CHR '' '') c of
        None \<Rightarrow> None
      | Some exe_pos_begin \<Rightarrow>
          let exe_pos_end = (case find_first_of_from (CHR '' '') exe_pos_begin c of
                None \<Rightarrow> length c | Some e \<Rightarrow> e)
          in Some (take (exe_pos_end - exe_pos_begin) (drop exe_pos_begin c)))"

text \<open>
  The thread up to the launch of the child.  \<open>boost::filesystem::permissions\<close> throws here without an error
  code, and an exception that leaves a thread ends the process.  The handlers of the child count the latch
  down whether or not the launch succeeded.
\<close>

definition ThreadMon_launch :: "('w, 't) env \<Rightarrow> vm_proc \<Rightarrow> (('w, 'z) os_state_scheme, vm_proc) cpp" where
  "ThreadMon_launch E p =
     cbind (oscall (os_strftime E Date_T)) (\<lambda>t_buf.
     case exe_of (cmd p) of None \<Rightarrow> cret p | Some exe \<Rightarrow>
     cbind (oscall (os_thread_id E)) (\<lambda>tid.
     let f_out = log_dir p @ basename exe @ ''_'' @ t_buf @ ''_'' @ tid @ ''_out.log'' in
     cbind (oscall (file_create E f_out)) (\<lambda>_.
     cbind (oscall (fs_permissions E f_out)) (\<lambda>ok.
     if \<not> ok then ccrash else
     cbind (oscall (proc_spawn E (cmd p) (parse_env (env_data p)) f_out)) (\<lambda>pid.
     if child_latch p = 0 then ccrash
     else cret (p\<lparr>child := Some pid, child_latch := child_latch p - 1\<rparr>))))))"

text \<open>The thread after the child has exited: the command line is added to the log.\<close>

definition ThreadMon_exit :: "('w, 't) env \<Rightarrow> path \<Rightarrow> vm_proc \<Rightarrow> (('w, 'z) os_state_scheme, unit) cpp" where
  "ThreadMon_exit E f_out p =
     (case child p of
        None \<Rightarrow> cret ()
      | Some pid \<Rightarrow>
          cseq (oscall (proc_wait E pid))
          (oscall (file_append E f_out (newline # newline # ''CMD: '' @ cmd p))))"

definition VmProcSimple_Run :: "('w, 't) env \<Rightarrow> vm_proc \<Rightarrow> (('w, 'z) os_state_scheme, vm_proc) cpp" where
  "VmProcSimple_Run E p =
     cbind (ThreadMon_launch E (p\<lparr>mon := True\<rparr>)) (\<lambda>p'.
     if child_latch p' = 0 then cret p' else chang)"

definition VmProcSimple_Join :: "('w, 't) env \<Rightarrow> vm_proc \<Rightarrow> (('w, 'z) os_state_scheme, unit) cpp" where
  "VmProcSimple_Join E p =
     (if \<not> mon p then cret ()
      else case child p of None \<Rightarrow> cret () | Some pid \<Rightarrow> oscall (proc_wait E pid))"

definition VmProcSimple_SetEnv :: "string list \<Rightarrow> vm_proc \<Rightarrow> vm_proc" where
  "VmProcSimple_SetEnv e p = p\<lparr>env_data := e\<rparr>"

definition VmProcSimple_SetLogDir ::
  "('w, 't) env \<Rightarrow> path \<Rightarrow> vm_proc \<Rightarrow> (('w, 'z) os_state_scheme, vm_proc) cpp" where
  "VmProcSimple_SetLogDir E path p =
     cbind (oscall (fs_exists E path)) (\<lambda>ex.
     cbind (if ex then oscall (fs_is_directory E path) else oscall (fs_create_directories E path)) (\<lambda>ok.
     if \<not> ok then cret p else
     cbind (oscall (fs_absolute E path)) (\<lambda>abs.
     cret (p\<lparr>log_dir := abs @ ''/''\<rparr>))))"

definition VmProcSimple_Stop :: "('w, 't) env \<Rightarrow> vm_proc \<Rightarrow> (('w, 'z) os_state_scheme, vm_proc) cpp" where
  "VmProcSimple_Stop E p =
     (case child p of
        None \<Rightarrow> cret p
      | Some pid \<Rightarrow>
          if \<not> mon p then cret p else
          cbind (oscall (proc_running E pid)) (\<lambda>run.
          if \<not> run then cret p else
          cseq (oscall (proc_kill E pid))
         (cseq (oscall (os_sleep E))
         (cret (p\<lparr>mon := False\<rparr>)))))"

definition VmProcSimple_Running :: "('w, 't) env \<Rightarrow> vm_proc \<Rightarrow> (('w, 'z) os_state_scheme, bool) cpp" where
  "VmProcSimple_Running E p =
     (case child p of None \<Rightarrow> cret False | Some pid \<Rightarrow> oscall (proc_running E pid))"

section \<open>VmCoProcRpmb and VmCoProcVtpm\<close>

definition VmCoProcRpmb_Run ::
  "('w, 't) env \<Rightarrow> string \<Rightarrow> string \<Rightarrow> string \<Rightarrow> vm_proc \<Rightarrow> (('w, 'z) os_state_scheme, vm_proc) cpp" where
  "VmCoProcRpmb_Run E bin data_dir sock_file p =
     cbind (oscall (fs_exists E (data_dir @ ''/'' @ kRpmbData))) (\<lambda>ex.
     cbind (if ex then cret 0
            else system_call E (bin @ '' --dev '' @ data_dir @ ''/'' @ kRpmbData @ '' --init --size 2048'')) (\<lambda>_.
     VmProcSimple_Run E
       (p\<lparr>cmd := bin @ '' --dev '' @ data_dir @ ''/'' @ kRpmbData @ '' --sock '' @ sock_file\<rparr>)))"

definition VmCoProcRpmb_Stop ::
  "('w, 't) env \<Rightarrow> string \<Rightarrow> vm_proc \<Rightarrow> (('w, 'z) os_state_scheme, vm_proc) cpp" where
  "VmCoProcRpmb_Stop E sock_file p =
     cbind (VmProcSimple_Stop E p) (\<lambda>p'.
     cbind (oscall (fs_exists E sock_file)) (\<lambda>ex.
     if \<not> ex then cret p' else
     cbind (oscall (fs_remove_throw E sock_file)) (\<lambda>ok.
     if ok then cret p' else cthrow Filesystem_error)))"

definition VmCoProcVtpm_Run ::
  "('w, 't) env \<Rightarrow> string \<Rightarrow> string \<Rightarrow> vm_proc \<Rightarrow> (('w, 'z) os_state_scheme, vm_proc) cpp" where
  "VmCoProcVtpm_Run E bin data_dir p =
     cbind (oscall (fs_exists E data_dir)) (\<lambda>ex.
     if \<not> ex then cret p else
     VmProcSimple_Run E
       (p\<lparr>cmd := bin @ '' socket --tpmstate dir='' @ data_dir @ '' --tpm2 --ctrl type=unixio,path='' @
            data_dir @ ''/'' @ kVtpmSock\<rparr>))"

definition VmCoProcVtpm_Stop :: "('w, 't) env \<Rightarrow> vm_proc \<Rightarrow> (('w, 'z) os_state_scheme, vm_proc) cpp" where
  "VmCoProcVtpm_Stop E p = VmProcSimple_Stop E p"

section \<open>Virtual calls\<close>

definition VmProcess_Run :: "('w, 't) env \<Rightarrow> vm_proc \<Rightarrow> (('w, 'z) os_state_scheme, vm_proc) cpp" where
  "VmProcess_Run E p = (case kind p of
       ProcSimple \<Rightarrow> VmProcSimple_Run E p
     | CoProcRpmb bin data_dir sock_file \<Rightarrow> VmCoProcRpmb_Run E bin data_dir sock_file p
     | CoProcVtpm bin data_dir \<Rightarrow> VmCoProcVtpm_Run E bin data_dir p)"

definition VmProcess_Stop :: "('w, 't) env \<Rightarrow> vm_proc \<Rightarrow> (('w, 'z) os_state_scheme, vm_proc) cpp" where
  "VmProcess_Stop E p = (case kind p of
       ProcSimple \<Rightarrow> VmProcSimple_Stop E p
     | CoProcRpmb bin data_dir sock_file \<Rightarrow> VmCoProcRpmb_Stop E sock_file p
     | CoProcVtpm bin data_dir \<Rightarrow> VmCoProcVtpm_Stop E p)"

text \<open>
  Destroying a process object: the destructor of the class, then that of \<open>VmProcSimple\<close>.  A destructor must not
  throw: an exception in it ends the process.
\<close>

definition VmProcess_delete :: "('w, 't) env \<Rightarrow> vm_proc \<Rightarrow> (('w, 'z) os_state_scheme, unit) cpp" where
  "VmProcess_delete E p =
     cbind (ctry (VmProcess_Stop E p) (\<lambda>_. ccrash)) (\<lambda>p'.
     case kind p of
       ProcSimple \<Rightarrow> cret ()
     | _ \<Rightarrow> cbind (VmProcSimple_Stop E p') (\<lambda>_. cret ()))"

section \<open>What the calls reach\<close>

text \<open>Every call changes the process object it returns and the outside world, nothing else.\<close>

lemma only_world_launch: "within only_world (ThreadMon_launch E p)"
  unfolding ThreadMon_launch_def Let_def by (intro only_world_intros)

lemma only_world_Run: "within only_world (VmProcSimple_Run E p)"
  unfolding VmProcSimple_Run_def by (intro only_world_intros only_world_launch)

lemma only_world_SetLogDir: "within only_world (VmProcSimple_SetLogDir E path p)"
  unfolding VmProcSimple_SetLogDir_def by (intro only_world_intros)

lemma only_world_Stop: "within only_world (VmProcSimple_Stop E p)"
  unfolding VmProcSimple_Stop_def by (intro only_world_intros)

lemma only_world_Running: "within only_world (VmProcSimple_Running E p)"
  unfolding VmProcSimple_Running_def by (intro only_world_intros)

lemma only_world_Join: "within only_world (VmProcSimple_Join E p)"
  unfolding VmProcSimple_Join_def by (intro only_world_intros)

lemma only_world_VmProcess_Run: "within only_world (VmProcess_Run E p)"
  unfolding VmProcess_Run_def VmCoProcRpmb_Run_def VmCoProcVtpm_Run_def
  by (cases "kind p") (simp_all, (intro only_world_intros only_world_Run)+)

lemma only_world_VmProcess_Stop: "within only_world (VmProcess_Stop E p)"
  unfolding VmProcess_Stop_def VmCoProcRpmb_Stop_def VmCoProcVtpm_Stop_def
  by (cases "kind p") (simp_all, (intro only_world_intros only_world_Stop)+)

lemma only_world_VmProcess_delete: "within only_world (VmProcess_delete E p)"
  unfolding VmProcess_delete_def
  by (cases "kind p") (simp_all, (intro only_world_intros only_world_VmProcess_Stop only_world_Stop)+)

lemmas only_world_proc =
  only_world_VmProcess_delete
  only_world_VmProcess_Run only_world_VmProcess_Stop only_world_SetLogDir only_world_Running only_world_Join

section \<open>Launching\<close>

lemma exe_of_None_iff: "exe_of c = None \<longleftrightarrow> set c \<subseteq> {CHR '' ''}"
  by (auto simp: exe_of_def find_first_not_of_def Let_def)

lemma launch_cases:
  assumes "ThreadMon_launch E p s = (r, t)"
  obtains (blank) "exe_of (cmd p) = None" "r = Ret p"
  | (crash) "exe_of (cmd p) \<noteq> None" "r = Crash"
  | (launched) pid where "exe_of (cmd p) \<noteq> None" "0 < child_latch p"
      "r = Ret (p\<lparr>child := Some pid, child_latch := child_latch p - 1\<rparr>)"
proof -
  obtain t_buf w1 where w1: "os_strftime E Date_T (world s) = (t_buf, w1)"
    by (cases "os_strftime E Date_T (world s)")
  show ?thesis
  proof (cases "exe_of (cmd p)")
    case None
    with w1 show ?thesis using assms by (intro blank) (simp_all add: ThreadMon_launch_def run_simps)
  next
    case (Some exe)
    obtain tid w2 where w2: "os_thread_id E w1 = (tid, w2)" by (cases "os_thread_id E w1")
    let ?f = "log_dir p @ basename exe @ ''_'' @ t_buf @ ''_'' @ tid @ ''_out.log''"
    obtain b w3 where w3: "file_create E ?f w2 = (b, w3)" by (cases "file_create E ?f w2")
    obtain ok w4 where w4: "fs_permissions E ?f w3 = (ok, w4)" by (cases "fs_permissions E ?f w3")
    obtain pid w5 where w5: "proc_spawn E (cmd p) (parse_env (env_data p)) ?f w4 = (pid, w5)"
      by (cases "proc_spawn E (cmd p) (parse_env (env_data p)) ?f w4")
    have "r = (if ok \<and> 0 < child_latch p
        then Ret (p\<lparr>child := Some pid, child_latch := child_latch p - 1\<rparr>) else Crash)"
      using assms Some w1 w2 w3 w4 w5 by (auto simp: ThreadMon_launch_def run_simps Let_def split: if_splits)
    with Some crash launched [of pid] show ?thesis by (auto split: if_splits)
  qed
qed

lemma Run_not_Hang:
  assumes "child_latch p = 1" and "exe_of (cmd p) \<noteq> None"
  shows "fst (VmProcSimple_Run E p s) \<noteq> Hang"
proof -
  obtain r t where l: "ThreadMon_launch E (p\<lparr>mon := True\<rparr>) s = (r, t)"
    by (cases "ThreadMon_launch E (p\<lparr>mon := True\<rparr>) s")
  then show ?thesis
    using assms by (cases rule: launch_cases) (auto simp: VmProcSimple_Run_def run_simps l)
qed

section \<open>Properties\<close>

text \<open>
  C27. When \<open>Run\<close> blocks.  The caller of \<open>Run\<close> waits until the watching thread has counted the latch down;
  the thread leaves before that exactly when the command line is blank.  So \<open>Run\<close> of a fresh process
  blocks for ever if and only if its command line holds nothing but spaces, on any host.
\<close>

theorem Run_blocks_iff_blank:
  assumes "child_latch p = 1"
  shows "fst (VmProcSimple_Run E p s) = Hang \<longleftrightarrow> set (cmd p) \<subseteq> {CHR '' ''}"
proof -
  obtain r t where l: "ThreadMon_launch E (p\<lparr>mon := True\<rparr>) s = (r, t)"
    by (cases "ThreadMon_launch E (p\<lparr>mon := True\<rparr>) s")
  then show ?thesis
    using assms exe_of_None_iff [of "cmd p"]
    by (cases rule: launch_cases) (simp_all add: VmProcSimple_Run_def run_simps l)
qed

theorem Run_blocks_iff_blank_witness:
  "fst (VmProcSimple_Run ref_env (VmProcSimple_new ''  '') \<lparr>world = ref_world0, civ_config_path = None\<rparr>) = Hang"
  using Run_blocks_iff_blank [of "VmProcSimple_new ''  ''" ref_env "\<lparr>world = ref_world0, civ_config_path = None\<rparr>"]
  by (simp add: VmProcSimple_new_def)

text \<open>
  A process is killed at most once: after a \<open>Stop\<close> that found the child running and sent it a signal, a
  second \<open>Stop\<close> of the same object (the destructor calls it again) returns at once and does nothing.
\<close>

lemma Stop_kills_once:
  assumes "VmProcSimple_Stop E p s = (Ret p', t)" and "mon p" and "mon p' = False"
  shows "VmProcSimple_Stop E p' t = (Ret p', t)"
proof -
  have "p' = p\<lparr>mon := False\<rparr>"
    using assms by (auto simp: VmProcSimple_Stop_def run_simps split: option.splits prod.splits if_splits)
  then show ?thesis by (simp add: VmProcSimple_Stop_def run_simps split: option.splits)
qed

end
