(* ===== verification/Host_Devices.thy ===== *)
theory Host_Devices
  imports Ref_Env
begin

text \<open>
  The helpers of src/guest/vm_builder_qemu.cc that prepare the host: attributes under /sys, huge pages, kernel
  modules, the virtual functions of the GPU (SR-IOV) and handing PCI devices to vfio.  The functions are
  static, they keep no state of their own: everything they touch is the outside world.  An attribute may
  change between two reads, so a value that was read is the value at that moment only.
\<close>

section \<open>Paths\<close>

definition kPciDevicePath :: path where "kPciDevicePath = ''/sys/bus/pci/devices/''"
definition kPciDriverProbe :: path where "kPciDriverProbe = ''/sys/bus/pci/drivers_probe''"
definition kIntelGpuBdf :: string where "kIntelGpuBdf = ''0000:00:02.0''"
definition kIntelGpuDevPath :: path where "kIntelGpuDevPath = ''/sys/bus/pci/devices/0000:00:02.0/''"
definition kIntelGpuDevice :: path where "kIntelGpuDevice = ''/sys/bus/pci/devices/0000:00:02.0/device''"
definition kIntelGpuSriovTotalVfs :: path where
  "kIntelGpuSriovTotalVfs = ''/sys/bus/pci/devices/0000:00:02.0/sriov_totalvfs''"
definition kIntelGpuSriovAutoProbe :: path where
  "kIntelGpuSriovAutoProbe = ''/sys/bus/pci/devices/0000:00:02.0/sriov_drivers_autoprobe''"
definition kIntelGpuSriovNumVfs :: path where
  "kIntelGpuSriovNumVfs = ''/sys/bus/pci/devices/0000:00:02.0/sriov_numvfs''"
definition kVfioPciNewId :: path where "kVfioPciNewId = ''/sys/bus/pci/drivers/vfio-pci/new_id''"
definition kVfioPciRemoveId :: path where "kVfioPciRemoveId = ''/sys/bus/pci/drivers/vfio-pci/remove_id''"
definition kVfioPciUnbind :: path where "kVfioPciUnbind = ''/sys/bus/pci/drivers/vfio-pci/unbind''"
definition kVfioModulePath :: path where "kVfioModulePath = ''/sys/module/vfio/''"
definition kVfioPciModulePath :: path where "kVfioPciModulePath = ''/sys/module/vfio_pci/''"
definition kGvtgMdevTypePath :: path where
  "kGvtgMdevTypePath = ''/sys/bus/pci/devices/0000:00:02.0/mdev_supported_types/''"
definition kSys2MFreeHugePages :: path where
  "kSys2MFreeHugePages = ''/sys/kernel/mm/hugepages/hugepages-2048kB/free_hugepages''"
definition kSys2MNrHugePages :: path where
  "kSys2MNrHugePages = ''/sys/kernel/mm/hugepages/hugepages-2048kB/nr_hugepages''"
definition kDrmCard0Vf :: path where "kDrmCard0Vf = ''/sys/class/drm/card0/iov/vf''"
definition kGtPreemptTimeoutUs :: string where "kGtPreemptTimeoutUs = ''/gt/preempt_timeout_us''"
definition kGtExecQuantumMs :: string where "kGtExecQuantumMs = ''/gt/exec_quantum_ms''"
definition kPreemptTimeout :: int where "kPreemptTimeout = 50000"
definition kExecQuantum :: int where "kExecQuantum = 25"
definition EEXIST :: int where "EEXIST = 17"

section \<open>Single attributes\<close>

definition CheckUuid :: "('w, 't) env \<Rightarrow> string \<Rightarrow> bool" where
  "CheckUuid E uuid = (case uuid_size E uuid of None \<Rightarrow> False | Some n \<Rightarrow> n = 16)"

definition IsVfioDriver :: "('w, 't) env \<Rightarrow> path \<Rightarrow> (('w, 'z) os_state_scheme, bool) cpp" where
  "IsVfioDriver E p =
     cbind (oscall (fs_is_symlink E p)) (\<lambda>l.
     if \<not> l then cret False else
     cbind (oscall (fs_symlink_filename E p)) (\<lambda>f. cret (f = ''vfio-pci'')))"

text \<open>
  Streams report failure in their state, not by exceptions, and the code does not look at it: when the
  file cannot be opened or is empty, \<open>ReadSysFile\<close> returns the uninitialised variable \<open>ret\<close>, and
  \<open>WriteSysFile\<close> returns 0 whether or not anything was written.
\<close>

definition ReadSysFile :: "('w, 't) env \<Rightarrow> path \<Rightarrow> nat \<Rightarrow> (('w, 'z) os_state_scheme, int) cpp" where
  "ReadSysFile E sys_file base =
     cbind (oscall (indeterminate_int E)) (\<lambda>junk.
     cbind (oscall (file_read E sys_file)) (\<lambda>txt.
     case txt of
       None \<Rightarrow> cret (to_int32 junk)
     | Some t \<Rightarrow> (case istream_int base t of None \<Rightarrow> cret (to_int32 junk) | Some v \<Rightarrow> cret v)))"

definition WriteSysFile :: "('w, 't) env \<Rightarrow> path \<Rightarrow> string \<Rightarrow> (('w, 'z) os_state_scheme, int) cpp" where
  "WriteSysFile E sys_file str =
     cbind (oscall (file_create E sys_file)) (\<lambda>opened.
     cseq (cwhen opened (oscall (file_append E sys_file str)))
     (cret 0))"

text \<open>A write whose result is thrown away.\<close>

definition write_sys :: "('w, 't) env \<Rightarrow> path \<Rightarrow> string \<Rightarrow> (('w, 'z) os_state_scheme, unit) cpp" where
  "write_sys E p str = cbind (WriteSysFile E p str) (\<lambda>_. cret ())"

text \<open>Signed arithmetic: a result that does not fit \<open>int\<close> is undefined behaviour.\<close>

definition int_arith :: "int \<Rightarrow> ('s, int) cpp" where
  "int_arith v = (if int_min \<le> v \<and> v \<le> int_max then cret v else ccrash)"

definition LoadKernelModule ::
  "('w, 't) env \<Rightarrow> path \<Rightarrow> string \<Rightarrow> (('w, 'z) os_state_scheme, bool) cpp" where
  "LoadKernelModule E path module =
     cbind (oscall (fs_exists E path)) (\<lambda>ex.
     if ex then cret True else
     cbind (system_call E (''modprobe '' @ module)) (\<lambda>rc.
     cret (rc = 0)))"

definition GetUid :: "('w, 't) env \<Rightarrow> (('w, 'z) os_state_scheme, int) cpp" where
  "GetUid E =
     cbind (oscall (os_getenv E ''SUDO_UID'')) (\<lambda>suid.
     case suid of
       Some u \<Rightarrow> cret (atoi u)
     | None \<Rightarrow> cbind (oscall (os_getuid E)) (\<lambda>u. cret (to_int32 u)))"

section \<open>Huge pages\<close>

text \<open>The size in MiB the text of the option stands for; \<open>None\<close> where \<open>SetupHugePages\<close> returns false.\<close>

definition mem_mb_of :: "string \<Rightarrow> int option" where
  "mem_mb_of mem_size =
     (if mem_size = [] then None
      else case stoi 0 mem_size of
        Inl _ \<Rightarrow> None
      | Inr (mem_mb, _) \<Rightarrow>
          (if mem_mb \<le> 0 then None
           else let c = toupper (last mem_size) in
             if char_in (CHR ''0'') (CHR ''9'') c \<or> char_in (CHR ''A'') (CHR ''F'') c \<or> c = CHR ''M'' then Some mem_mb
             else if c = CHR ''G'' then
               (if int_max div 1024 < mem_mb then None else Some (mem_mb * 1024))
             else None))"

text \<open>The loop that waits for the kernel to reach the number of pages.\<close>

function huge_wait :: "('w, 't) env \<Rightarrow> int \<Rightarrow> nat \<Rightarrow> int \<Rightarrow> (('w, 'z) os_state_scheme, bool) cpp" where
  "huge_wait E required_hp wait_cnt nr_hp =
     (if nr_hp = required_hp then cret True
      else cbind (ReadSysFile E kSys2MNrHugePages 10) (\<lambda>nr.
        if wait_cnt < 200
        then cseq (oscall (os_sleep E)) (huge_wait E required_hp (Suc wait_cnt) nr)
        else cret False))"
  by pat_completeness auto
termination
  by (relation "measure (\<lambda>(_, _, wait_cnt, _). 200 - wait_cnt)") auto

declare huge_wait.simps [simp del]

definition SetupHugePages :: "('w, 't) env \<Rightarrow> string \<Rightarrow> (('w, 'z) os_state_scheme, bool) cpp" where
  "SetupHugePages E mem_size =
     (case mem_mb_of mem_size of None \<Rightarrow> cret False | Some mem_mb \<Rightarrow>
      cbind (ReadSysFile E kSys2MFreeHugePages 10) (\<lambda>free_hp.
      if mem_mb div 2 \<le> free_hp then cret True else
      cbind (ReadSysFile E kSys2MNrHugePages 10) (\<lambda>nr_hp.
      cbind (int_arith (nr_hp - free_hp)) (\<lambda>used_hp.
      cbind (int_arith (used_hp + mem_mb div 2)) (\<lambda>required_hp.
      cseq (write_sys E kSys2MNrHugePages (to_string required_hp))
      (huge_wait E required_hp 0 nr_hp))))))"

section \<open>Virtual functions of the GPU\<close>

text \<open>\<open>sd.replace(sd.end() - 2, sd.end(), std::to_string(i) + "/enable")\<close>\<close>

definition vf_enable_path :: "int \<Rightarrow> path" where
  "vf_enable_path i = take (length kIntelGpuDevPath - 2) kIntelGpuDevPath @ to_string i @ ''/enable''"

definition vf_setup :: "('w, 't) env \<Rightarrow> int \<Rightarrow> (('w, 'z) os_state_scheme, unit) cpp" where
  "vf_setup E i =
     cseq (write_sys E (kDrmCard0Vf @ to_string i @ kGtPreemptTimeoutUs) (to_string kPreemptTimeout))
          (write_sys E (kDrmCard0Vf @ to_string i @ kGtExecQuantumMs) (to_string kExecQuantum))"

function find_vf :: "('w, 't) env \<Rightarrow> int \<Rightarrow> int \<Rightarrow> (('w, 'z) os_state_scheme, int) cpp" where
  "find_vf E totalvfs i =
     (if i < totalvfs then
        cbind (ReadSysFile E (vf_enable_path i) 10) (\<lambda>status.
        if status = 0 then cseq (vf_setup E i) (cret i)
        else find_vf E totalvfs (i + 1))
      else cret (- 1))"
  by pat_completeness auto
termination
  by (relation "measure (\<lambda>(_, totalvfs, i). nat (totalvfs - i))") auto

declare find_vf.simps [simp del]

text \<open>
  Offering a device id to vfio, the same few lines for a virtual function and a passed-through device:
  the id may be registered already (\<open>EEXIST\<close>), then it is removed and added again.
\<close>

definition vfio_new_id :: "('w, 't) env \<Rightarrow> string \<Rightarrow> (('w, 'z) os_state_scheme, bool) cpp" where
  "vfio_new_id E ident =
     cbind (WriteSysFile E kVfioPciNewId ident) (\<lambda>errno_saved.
     if errno_saved = EEXIST then
       cseq (write_sys E kVfioPciRemoveId ident)
      (cseq (write_sys E kVfioPciNewId ident)
      (cret True))
     else cret (errno_saved = 0))"

definition SetAvailableVf :: "('w, 't) env \<Rightarrow> (('w, 'z) os_state_scheme, int) cpp" where
  "SetAvailableVf E =
     cbind (LoadKernelModule E kVfioModulePath ''vfio'') (\<lambda>ok.
     if \<not> ok then cret (- 1) else
     cbind (LoadKernelModule E kVfioPciModulePath ''vfio-pci'') (\<lambda>ok.
     if \<not> ok then cret (- 1) else
     cbind (ReadSysFile E kIntelGpuSriovTotalVfs 10) (\<lambda>totalvfs.
     if totalvfs \<le> 0 then cret (- 1) else
     cbind (ReadSysFile E kIntelGpuSriovNumVfs 10) (\<lambda>current_vfs.
     if current_vfs < 0 then cret (- 1) else
     cseq (cwhen (current_vfs = 0)
            (cseq (write_sys E kIntelGpuSriovAutoProbe ''0'')
            (cseq (write_sys E kIntelGpuSriovNumVfs ''0'')
            (cseq (write_sys E kIntelGpuSriovNumVfs (to_string totalvfs))
                  (write_sys E kIntelGpuSriovAutoProbe ''1'')))))
    (cbind (ReadSysFile E kIntelGpuDevice 16) (\<lambda>dev_id.
     if dev_id < 0 then cret (- 1) else
     cbind (vfio_new_id E (''8086 '' @ format_hex E dev_id)) (\<lambda>ok.
     if \<not> ok then cret 0 else
     find_vf E totalvfs 1)))))))"

section \<open>Passing a PCI device through\<close>

datatype PciPassthroughAction = kPciPassthrough | kPciRestore

definition kCheckUnbindRepeatCount :: nat where "kCheckUnbindRepeatCount = 2000"

text \<open>Waiting until the driver link is gone; the result is \<open>cnt\<close> after the loop.\<close>

function unbind_wait :: "('w, 't) env \<Rightarrow> path \<Rightarrow> nat \<Rightarrow> (('w, 'z) os_state_scheme, nat) cpp" where
  "unbind_wait E driver cnt =
     (if cnt < kCheckUnbindRepeatCount then
        cbind (oscall (fs_exists E driver)) (\<lambda>ex.
        if \<not> ex then cret cnt
        else cseq (oscall (os_sleep E)) (unbind_wait E driver (Suc cnt)))
      else cret cnt)"
  by pat_completeness auto
termination
  by (relation "measure (\<lambda>(_, _, cnt). kCheckUnbindRepeatCount - cnt)") auto

declare unbind_wait.simps [simp del]

text \<open>One device of the IOMMU group: \<open>False\<close> where the loop body returns false.\<close>

definition restore_entry ::
  "('w, 't) env \<Rightarrow> path \<Rightarrow> string \<Rightarrow> (('w, 'z) os_state_scheme, bool) cpp" where
  "restore_entry E x ven_dev =
     cbind (IsVfioDriver E (x @ ''/driver'')) (\<lambda>vfio.
     cseq (cwhen vfio
            (cseq (write_sys E kVfioPciRemoveId ven_dev)
                  (write_sys E kVfioPciUnbind (basename x))))
    (cseq (oscall (os_sleep E))
    (cbind (WriteSysFile E kPciDriverProbe (basename x)) (\<lambda>rc.
     cret (rc = 0)))))"

definition bind_entry ::
  "('w, 't) env \<Rightarrow> path \<Rightarrow> string \<Rightarrow> (('w, 'z) os_state_scheme, bool) cpp" where
  "bind_entry E x ven_dev =
     (let driver = x @ ''/driver'' in
      cbind (oscall (fs_exists E driver)) (\<lambda>ex.
      cbind (if \<not> ex then cret True else
               cbind (IsVfioDriver E driver) (\<lambda>vfio.
               cseq (cwhen vfio (write_sys E kVfioPciRemoveId ven_dev))
              (cseq (write_sys E (driver @ ''/unbind'') (basename x))
              (cbind (unbind_wait E driver 0) (\<lambda>cnt.
               cret (cnt < kCheckUnbindRepeatCount)))))) (\<lambda>unbound.
      if \<not> unbound then cret False else vfio_new_id E ven_dev)))"

definition passthrough_entry ::
  "('w, 't) env \<Rightarrow> PciPassthroughAction \<Rightarrow> path \<Rightarrow> (('w, 'z) os_state_scheme, bool) cpp" where
  "passthrough_entry E action x =
     cbind (ReadSysFile E (x @ ''/device'') 16) (\<lambda>device.
     cbind (ReadSysFile E (x @ ''/vendor'') 16) (\<lambda>vendor.
     let ven_dev = format_hex E vendor @ '' '' @ format_hex E device in
     case action of
       kPciRestore \<Rightarrow> restore_entry E x ven_dev
     | kPciPassthrough \<Rightarrow> bind_entry E x ven_dev))"

primrec passthrough_entries ::
  "('w, 't) env \<Rightarrow> PciPassthroughAction \<Rightarrow> path list \<Rightarrow> (('w, 'z) os_state_scheme, bool) cpp" where
  "passthrough_entries E action [] = cret True"
| "passthrough_entries E action (x # xs) =
     cbind (passthrough_entry E action x) (\<lambda>ok.
     if \<not> ok then cret False else passthrough_entries E action xs)"

definition iommu_devices_path :: "string \<Rightarrow> path" where
  "iommu_devices_path pci_id = kPciDevicePath @ pci_id @ ''/iommu_group/devices''"

text \<open>The device id is a \<open>const char *\<close>: \<open>None\<close> is the null pointer.\<close>

definition PassthroughOnePciDev ::
  "('w, 't) env \<Rightarrow> string option \<Rightarrow> PciPassthroughAction \<Rightarrow> (('w, 'z) os_state_scheme, bool) cpp" where
  "PassthroughOnePciDev E pci_id action =
     (case pci_id of None \<Rightarrow> cret False | Some bdf \<Rightarrow>
      cbind (LoadKernelModule E kVfioModulePath ''vfio'') (\<lambda>ok.
      if \<not> ok then cret False else
      cbind (LoadKernelModule E kVfioPciModulePath ''vfio-pci'') (\<lambda>ok.
      if \<not> ok then cret False else
      let p = iommu_devices_path bdf in
      cbind (oscall (fs_exists E p)) (\<lambda>ex.
      if \<not> ex then cret False else
      cbind (oscall (fs_is_directory E p)) (\<lambda>dir.
      if \<not> dir then cret False else
      cbind (oscall_throw Filesystem_error (fs_entries E p)) (\<lambda>xs.
      passthrough_entries E action xs))))))"

section \<open>What the helpers reach\<close>

lemma only_world_ReadSysFile: "within only_world (ReadSysFile E p b)"
  unfolding ReadSysFile_def by (intro only_world_intros)

lemma only_world_WriteSysFile: "within only_world (WriteSysFile E p str)"
  unfolding WriteSysFile_def by (intro only_world_intros)

lemma only_world_write_sys: "within only_world (write_sys E p str)"
  unfolding write_sys_def by (intro only_world_intros only_world_WriteSysFile)

lemma only_world_IsVfioDriver: "within only_world (IsVfioDriver E p)"
  unfolding IsVfioDriver_def by (intro only_world_intros)

lemma only_world_LoadKernelModule: "within only_world (LoadKernelModule E p m)"
  unfolding LoadKernelModule_def by (intro only_world_intros)

lemma only_world_int_arith: "within only_world (int_arith v)"
  unfolding int_arith_def by (intro only_world_intros)

lemmas only_world_sys =
  only_world_intros only_world_ReadSysFile only_world_WriteSysFile only_world_write_sys only_world_IsVfioDriver
  only_world_LoadKernelModule only_world_int_arith

lemma only_world_GetUid: "within only_world (GetUid E)"
  unfolding GetUid_def by (intro only_world_intros)

lemma only_world_huge_wait: "within only_world (huge_wait E req cnt nr)"
proof (induction E req cnt nr rule: huge_wait.induct)
  case (1 E req cnt nr)
  show ?case
    by (subst huge_wait.simps) (intro only_world_sys 1)
qed

lemma only_world_SetupHugePages: "within only_world (SetupHugePages E m)"
  unfolding SetupHugePages_def by (intro only_world_sys only_world_huge_wait)

lemma only_world_find_vf: "within only_world (find_vf E tot i)"
proof (induction E tot i rule: find_vf.induct)
  case (1 E tot i)
  show ?case
    by (subst find_vf.simps, unfold vf_setup_def) (intro only_world_sys 1)
qed

lemma only_world_vfio_new_id: "within only_world (vfio_new_id E ident)"
  unfolding vfio_new_id_def by (intro only_world_sys)

lemma only_world_SetAvailableVf: "within only_world (SetAvailableVf E)"
  unfolding SetAvailableVf_def by (intro only_world_sys only_world_vfio_new_id only_world_find_vf)

lemma only_world_unbind_wait: "within only_world (unbind_wait E d cnt)"
proof (induction E d cnt rule: unbind_wait.induct)
  case (1 E d cnt)
  show ?case
    by (subst unbind_wait.simps) (intro only_world_sys 1)
qed

lemma only_world_passthrough_entry: "within only_world (passthrough_entry E action x)"
  unfolding passthrough_entry_def restore_entry_def bind_entry_def Let_def
  by (cases action) (simp_all, (intro only_world_sys only_world_vfio_new_id only_world_unbind_wait)+)

lemma only_world_passthrough_entries: "within only_world (passthrough_entries E action xs)"
  by (induction xs) (auto intro!: only_world_intros only_world_passthrough_entry)

lemma only_world_PassthroughOnePciDev: "within only_world (PassthroughOnePciDev E bdf action)"
  unfolding PassthroughOnePciDev_def Let_def by (intro only_world_sys only_world_passthrough_entries)

lemmas only_world_dev =
  only_world_sys only_world_GetUid only_world_SetupHugePages only_world_SetAvailableVf
  only_world_PassthroughOnePciDev

section \<open>How the helpers end\<close>

lemma returning_ReadSysFile [yields_rules]: "returning (ReadSysFile E p b)"
  unfolding ReadSysFile_def by (intro yields_rules)

lemma WriteSysFile_zero: "\<exists>w. WriteSysFile E p str s = (Ret 0, s\<lparr>world := w\<rparr>)"
  by (auto simp: WriteSysFile_def run_simps split: prod.splits)

lemma write_sys_unit: "\<exists>w. write_sys E p str s = (Ret (), s\<lparr>world := w\<rparr>)"
  using WriteSysFile_zero [of E p str s] by (auto simp: write_sys_def run_simps)

lemma returning_WriteSysFile [yields_rules]: "returning (WriteSysFile E p str)"
  unfolding WriteSysFile_def by (intro yields_rules)

lemma returning_write_sys [yields_rules]: "returning (write_sys E p str)"
  unfolding write_sys_def by (intro yields_rules)

lemma returning_huge_wait [yields_rules]: "returning (huge_wait E req cnt nr)"
proof (induction E req cnt nr rule: huge_wait.induct)
  case (1 E req cnt nr)
  show ?case
    by (subst huge_wait.simps) (intro yields_rules 1)
qed

lemma vfio_new_id_True: "vfio_new_id E ident s = (Ret b, t) \<Longrightarrow> b"
  using WriteSysFile_zero [of E kVfioPciNewId ident s]
  by (auto simp: vfio_new_id_def run_simps EEXIST_def)

text \<open>A value of an attribute at some moment.\<close>

definition was_read :: "('w, 't) env \<Rightarrow> path \<Rightarrow> nat \<Rightarrow> int \<Rightarrow> bool" where
  "was_read E p base v \<longleftrightarrow> (\<exists>w s. fst (ReadSysFile E p base \<lparr>world = w, civ_config_path = s\<rparr>) = Ret v)"

lemma ReadSysFile_was_read: "ReadSysFile E p base s = (Ret v, t) \<Longrightarrow> was_read E p base v"
  unfolding was_read_def
  by (rule exI [of _ "world s"], rule exI [of _ "civ_config_path s"])
    (auto simp: ReadSysFile_def run_simps split: prod.splits option.splits)

lemma huge_wait_True: "huge_wait E req cnt nr s = (Ret True, t) \<Longrightarrow> was_read E kSys2MNrHugePages 10 nr \<Longrightarrow>
    was_read E kSys2MNrHugePages 10 req"
proof (induction E req cnt nr arbitrary: s rule: huge_wait.induct)
  case (1 E req cnt nr)
  note run = "1.prems"(1) [unfolded huge_wait.simps [of E req cnt nr]]
  show ?case
  proof (cases "nr = req")
    case False
    with run obtain nr' s' where rd: "ReadSysFile E kSys2MNrHugePages 10 s = (Ret nr', s')" and "cnt < 200"
      and rest: "\<exists>s''. huge_wait E req (Suc cnt) nr' s'' = (Ret True, t)"
      by (auto simp: ret_iffs split: if_splits)
    with "1.IH" [OF False, of nr'] ReadSysFile_was_read [OF rd] show ?thesis by blast
  qed (use "1.prems" in simp)
qed

lemma find_vf_Ret:
  "find_vf E tot i s = (Ret v, t) \<Longrightarrow> 0 \<le> i \<Longrightarrow>
     (v = - 1 \<or> i \<le> v \<and> v < tot \<and> was_read E (vf_enable_path v) 10 0) \<and>
     (\<forall>j. i \<le> j \<and> j < (if v = - 1 then tot else v) \<longrightarrow> (\<exists>st. st \<noteq> 0 \<and> was_read E (vf_enable_path j) 10 st))"
proof (induction E tot i arbitrary: s rule: find_vf.induct)
  case (1 E tot i)
  note run = "1.prems"(1) [unfolded find_vf.simps [of E tot i]]
  show ?case
  proof (cases "i < tot")
    case True
    with run obtain st s1 where rd: "ReadSysFile E (vf_enable_path i) 10 s = (Ret st, s1)"
      and rest: "if st = 0 then v = i else find_vf E tot (i + 1) s1 = (Ret v, t)"
      by (auto simp: ret_iffs split: if_splits)
    show ?thesis
    proof (cases "st = 0")
      case True
      with rest \<open>i < tot\<close> ReadSysFile_was_read [OF rd] "1.prems"(2) show ?thesis by auto
    next
      case False
      with "1.IH" [OF True False, of s1] rest ReadSysFile_was_read [OF rd] "1.prems"(2) show ?thesis
        by (smt (verit))
    qed
  qed (use run in \<open>auto simp: ret_iffs\<close>)
qed

lemma SetAvailableVf_find:
  assumes "SetAvailableVf E s = (Ret v, t)" and "v \<noteq> - 1"
  shows "\<exists>tot s1. was_read E kIntelGpuSriovTotalVfs 10 tot \<and> 0 < tot \<and> find_vf E tot 1 s1 = (Ret v, t)"
  using assms
  by (auto simp: SetAvailableVf_def ret_iffs not_le dest!: ReadSysFile_was_read vfio_new_id_True split: if_splits)

lemma unbind_wait_bound: "unbind_wait E d cnt s = (Ret n, t) \<Longrightarrow> n < kCheckUnbindRepeatCount \<Longrightarrow>
    \<exists>w. fst (fs_exists E d w) = False"
proof (induction E d cnt arbitrary: s rule: unbind_wait.induct)
  case (1 E d cnt)
  then show ?case
    by (simp add: unbind_wait.simps [of E d cnt] ret_iffs split: if_splits) (metis fst_conv)+
qed

lemma bind_entry_True:
  assumes "bind_entry E x ven_dev s = (Ret True, t)"
  shows "\<exists>w. fst (fs_exists E (x @ ''/driver'') w) = False"
proof -
  obtain ex w where ex: "fs_exists E (x @ ''/driver'') (world s) = (ex, w)"
    by (cases "fs_exists E (x @ ''/driver'') (world s)")
  show ?thesis
  proof (cases ex)
    case True
    with assms ex show ?thesis
      by (auto simp: bind_entry_def Let_def ret_iffs if_run dest!: unbind_wait_bound split: if_splits)
  next
    case False
    with ex show ?thesis by (metis fst_conv)
  qed
qed

lemma passthrough_entries_True:
  "passthrough_entries E kPciPassthrough xs s = (Ret True, t) \<Longrightarrow> x \<in> set xs \<Longrightarrow>
     \<exists>w. fst (fs_exists E (x @ ''/driver'') w) = False"
proof (induction xs arbitrary: s)
  case (Cons y ys)
  then show ?case
    by (auto simp: ret_iffs passthrough_entry_def Let_def dest: bind_entry_True split: if_splits)
qed simp

section \<open>Properties\<close>

lemma mem_mb_of_range: "mem_mb_of m = Some mb \<Longrightarrow> 0 < mb \<and> mb \<le> int_max"
  by (auto simp: mem_mb_of_def int_max_def Let_def split: if_splits sum.splits prod.splits dest!: stoi_range)

lemma stoi0_unit:
  "\<not> is_digit_of 10 c \<Longrightarrow> 0 < n \<Longrightarrow>
     stoi 0 (dec_digits n @ [c]) = (if int n \<le> int_max then Inr (int n, length (dec_digits n)) else Inl Out_of_range)"
  by (simp add: stoi_def strto0_dec_digits signed_of_def int_min_def)

lemma stoi0_zero: "\<not> is_digit_of 10 c \<Longrightarrow> stoi 0 (dec_digits 0 @ [c]) = Inr (0, 1)"
proof -
  assume c: "\<not> is_digit_of 10 c"
  then have c8: "\<not> is_digit_of 8 c" by (auto simp: is_digit_of_def split: option.splits)
  have z: "dec_digits 0 = ''0''" by (simp add: dec_digits.simps digit_char_def char_of_def bit_0)
  have "\<not> isspace (CHR ''0'')" "is_digit_of 8 (CHR ''0'')" "digits_value 8 ''0'' = 0"
    by (simp_all add: isspace_def is_digit_of_def digit_val_def digits_value_def)
  with c8 show ?thesis
    by (simp add: z stoi_def strto_def strto_base_def signed_of_def int_min_def int_max_def)
qed

lemma unit_size:
  assumes "\<not> is_digit_of 10 c" and "\<not> char_in (CHR ''0'') (CHR ''9'') (toupper c)" "\<not> char_in (CHR ''A'') (CHR ''F'') (toupper c)"
  shows "mem_mb_of (dec_digits n @ [c]) =
      (if n = 0 \<or> int_max < int n then None
       else if toupper c = CHR ''M'' then Some (int n)
       else if toupper c = CHR ''G'' then (if int_max div 1024 < int n then None else Some (int n * 1024))
       else None)"
  using assms stoi0_zero [OF assms(1)] stoi0_unit [OF assms(1), of n]
  by (cases "n = 0") (simp_all add: mem_mb_of_def)

text \<open>
  C31. The memory size of a guest with SR-IOV graphics.  A decimal number with the unit \<open>M\<close> stands for itself,
  with the unit \<open>G\<close> for 1024 times as much; a size that does not fit a 32-bit \<open>int\<close> of MiB is refused in both
  forms, so the multiplication never overflows; other units are refused; every accepted size is positive
  and fits.
\<close>

theorem mem_mb_of_units:
  "mem_mb_of (to_string (int n) @ ''M'') = (if 0 < n \<and> n \<le> 2147483647 then Some (int n) else None) \<and>
   mem_mb_of (to_string (int n) @ ''G'') = (if 0 < n \<and> n \<le> 2097151 then Some (int n * 1024) else None) \<and>
   mem_mb_of (to_string (int n) @ ''T'') = None \<and>
   mem_mb_of s \<in> insert None (Some ` {1..2147483647})"
proof (intro conjI)
  have u: "\<not> is_digit_of 10 (CHR ''M'')" "\<not> is_digit_of 10 (CHR ''G'')" "\<not> is_digit_of 10 (CHR ''T'')"
    by (simp_all add: is_digit_of_10_code)
  have ts: "to_string (int n) = dec_digits n" by (simp add: to_string_def)
  show "mem_mb_of (to_string (int n) @ ''M'') = (if 0 < n \<and> n \<le> 2147483647 then Some (int n) else None)"
    by (simp only: ts, subst unit_size [OF u(1)]) (simp_all add: int_max_def toupper_def char_in_def)
  show "mem_mb_of (to_string (int n) @ ''G'') = (if 0 < n \<and> n \<le> 2097151 then Some (int n * 1024) else None)"
    by (simp only: ts, subst unit_size [OF u(2)]) (simp_all add: int_max_def toupper_def char_in_def)
  show "mem_mb_of (to_string (int n) @ ''T'') = None"
    by (simp only: ts, subst unit_size [OF u(3)]) (simp_all add: int_max_def toupper_def char_in_def)
  show "mem_mb_of s \<in> insert None (Some ` {1..2147483647})"
    using mem_mb_of_range [of s] by (cases "mem_mb_of s") (auto simp: int_max_def)
qed

text \<open>
  When \<open>SetupHugePages\<close> reports success the kernel has reported enough pages: either half as many free
  huge pages as the guest has MiB, or the number of pages in use plus that many.
\<close>

lemma SetupHugePages_enough:
  assumes "SetupHugePages E mem_size s = (Ret True, t)"
  shows "\<exists>mb free_hp. mem_mb_of mem_size = Some mb \<and> was_read E kSys2MFreeHugePages 10 free_hp \<and>
      (mb div 2 \<le> free_hp \<or>
       (\<exists>nr_hp. was_read E kSys2MNrHugePages 10 nr_hp \<and>
          was_read E kSys2MNrHugePages 10 (nr_hp - free_hp + mb div 2)))"
proof (cases "mem_mb_of mem_size")
  case None
  with assms show ?thesis by (simp add: SetupHugePages_def run_simps)
next
  case (Some mb)
  with assms obtain free_hp s1 where rd: "ReadSysFile E kSys2MFreeHugePages 10 s = (Ret free_hp, s1)"
    and rest: "mb div 2 \<le> free_hp \<or> (\<exists>nr_hp s2 s3.
       ReadSysFile E kSys2MNrHugePages 10 s1 = (Ret nr_hp, s2) \<and>
       huge_wait E (nr_hp - free_hp + mb div 2) 0 nr_hp s3 = (Ret True, t))"
    by (auto simp: SetupHugePages_def ret_iffs int_arith_def split: if_splits)
  from rest show ?thesis
    using Some ReadSysFile_was_read [OF rd] by (auto dest!: ReadSysFile_was_read huge_wait_True)
qed

lemmas host_eval =
  run_simps ret_iffs ref_defs ReadSysFile_def WriteSysFile_def write_sys_def istream_int_def strto_def strto_base_def
  digits_value_def signed_of_def int_min_def int_max_def is_digit_of_def digit_val_def isspace_def
  LoadKernelModule_def tolower_def Let_def

text \<open>
  C32. The virtual function a guest gets is at least 1, below the number the device reports, and was read as
  not enabled just before; every lower one was read as enabled.  The function never returns 0, the
  physical function, although its source has a \<open>return false\<close>: that branch is dead because
  \<open>WriteSysFile\<close> never reports an error.
\<close>

theorem SetAvailableVf_lowest:
  assumes "SetAvailableVf E s = (Ret v, t)" and "v \<noteq> - 1"
  shows "\<exists>totalvfs. was_read E kIntelGpuSriovTotalVfs 10 totalvfs \<and> 1 \<le> v \<and> v < totalvfs \<and>
     was_read E (vf_enable_path v) 10 0 \<and>
     (\<forall>j\<in>{1..<v}. \<exists>st. st \<noteq> 0 \<and> was_read E (vf_enable_path j) 10 st)"
proof -
  obtain tot s1 where "was_read E kIntelGpuSriovTotalVfs 10 tot" and f: "find_vf E tot 1 s1 = (Ret v, t)"
    using SetAvailableVf_find [OF assms] by blast
  with find_vf_Ret [OF f] assms(2) show ?thesis by auto
qed

definition sriov_host :: ref_world where
  "sriov_host = ref_world0\<lparr>r_dirs := [kVfioModulePath, kVfioPciModulePath],
     r_files := [(kIntelGpuSriovTotalVfs, ''3''), (kIntelGpuSriovNumVfs, ''2''), (kIntelGpuDevice, ''0x9a49''),
       (vf_enable_path 1, ''1''), (vf_enable_path 2, ''0'')]\<rparr>"

theorem SetAvailableVf_lowest_witness:
  "fst (SetAvailableVf ref_env \<lparr>world = sriov_host, civ_config_path = None\<rparr>) = Ret 2 \<and>
   (\<exists>totalvfs. was_read ref_env kIntelGpuSriovTotalVfs 10 totalvfs \<and> 2 < totalvfs) \<and>
   was_read ref_env (vf_enable_path 2) 10 0"
proof -
  let ?s = "\<lparr>world = sriov_host, civ_config_path = None\<rparr>"
  have vf: "vf_enable_path 1 = ''/sys/bus/pci/devices/0000:00:02.1/enable''"
    "vf_enable_path 2 = ''/sys/bus/pci/devices/0000:00:02.2/enable''"
    by (simp_all add: vf_enable_path_def kIntelGpuDevPath_def to_string_def dec_digits.simps digit_char_def
        char_of_def bit_0 bit_Suc)
  have run: "fst (SetAvailableVf ref_env ?s) = Ret 2"
    by (simp add: SetAvailableVf_def sriov_host_def host_eval find_vf.simps vf vfio_new_id_def EEXIST_def vf_setup_def
        kVfioModulePath_def kVfioPciModulePath_def kIntelGpuSriovTotalVfs_def kIntelGpuSriovNumVfs_def
        kIntelGpuDevice_def kVfioPciNewId_def kDrmCard0Vf_def kGtPreemptTimeoutUs_def kGtExecQuantumMs_def)
  then have "SetAvailableVf ref_env ?s = (Ret 2, snd (SetAvailableVf ref_env ?s))" by (metis prod.collapse)
  from SetAvailableVf_lowest [OF this] run show ?thesis by auto
qed



end
