(* ===== verification/Vm_Builder.thy ===== *)
theory Vm_Builder
  imports Vsock_Cid_Pool Aaf Vm_Process Host_Devices
begin

text \<open>
  The base class \<open>VmBuilder\<close> (src/guest/vm_builder.h and .cc), the fields of \<open>VmBuilderQemu\<close>
  (src/guest/vm_builder_qemu.h) and the state its member functions run on: the outside world, the globals of the
  process they reach (the context id pool, the static variable of \<open>BuildExtraGuestPmCtrlCmd\<close>) and the object
  itself, \<open>this\<close>.
\<close>

section \<open>The states of a guest\<close>

datatype VmState = kVmEmpty | kVmCreated | kVmBooting | kVmRunning | kVmPaused | kVmUnknown

definition VmStateToStr :: "VmState \<Rightarrow> string" where
  "VmStateToStr s = (case s of
       kVmEmpty \<Rightarrow> ''Empty''
     | kVmCreated \<Rightarrow> ''Created''
     | kVmBooting \<Rightarrow> ''Booting''
     | kVmRunning \<Rightarrow> ''Running''
     | kVmPaused \<Rightarrow> ''Paused''
     | kVmUnknown \<Rightarrow> ''Unknown'')"

section \<open>The object\<close>

text \<open>
  The closures put into \<open>end_call_\<close>, named by what they do: \<open>ProbeSnd\<close> loads the sound module again,
  \<open>RestorePci\<close> gives the devices of \<open>pci_pt_dev_set_\<close> back, \<open>RemovePmSocket\<close> removes the file named by the
  static variable.
\<close>

datatype end_call_fn = ProbeSnd | RestorePci | RemovePmSocket

record vm_builder =
  vm_name :: string
  vsock_cid :: u32
  vm_state :: VmState

record 't builder = vm_builder +
  cfg :: "'t CivConfig"
  aaf_cfg :: "aaf option"
  main_proc :: "vm_proc option"
  co_procs :: "vm_proc list"
  emul_cmd :: string
  pci_pt_dev_set :: "string list"
  vm_ready_latch :: nat
  end_call :: "end_call_fn list"

definition VmBuilderQemu_new :: "string \<Rightarrow> 't CivConfig \<Rightarrow> 't builder" where
  "VmBuilderQemu_new name c = \<lparr>vm_name = name, vsock_cid = 0, vm_state = kVmEmpty, cfg = c, aaf_cfg = None,
     main_proc = None, co_procs = [], emul_cmd = [], pci_pt_dev_set = [], vm_ready_latch = 1, end_call = []\<rparr>"

definition VmBuilder_GetName :: "'z vm_builder_scheme \<Rightarrow> string" where "VmBuilder_GetName b = vm_name b"
definition VmBuilder_GetCid :: "'z vm_builder_scheme \<Rightarrow> u32" where "VmBuilder_GetCid b = vsock_cid b"
definition VmBuilder_GetState :: "'z vm_builder_scheme \<Rightarrow> VmState" where "VmBuilder_GetState b = vm_state b"

section \<open>The state of a member function\<close>

record 'w civ_state = "'w os_state" +
  cid_pool :: bitset
  socketPath :: path

record ('w, 't) build_state = "'w civ_state" +
  this :: "'t builder"

type_synonym ('w, 't, 'a) member = "(('w, 't) build_state, 'a) cpp"

definition upd_this :: "('t builder \<Rightarrow> 't builder) \<Rightarrow> ('w, 't, unit) member" where
  "upd_this f = cmodify (\<lambda>s. s\<lparr>this := f (this s)\<rparr>)"

definition get_this :: "('t builder \<Rightarrow> 'a) \<Rightarrow> ('w, 't, 'a) member" where
  "get_this f = cget (\<lambda>s. f (this s))"

text \<open>\<open>cfg_.GetValue(group, key)\<close>\<close>

definition cfg_value :: "('w, 't) env \<Rightarrow> string \<Rightarrow> string \<Rightarrow> ('w, 't, string) member" where
  "cfg_value E grp key = get_this (\<lambda>b. GetValue E (cfg b) grp key)"

text \<open>\<open>emul_cmd_.append(str)\<close>, \<open>emul_cmd_.clear()\<close>, \<open>co_procs_.emplace_back(p)\<close>, \<open>end_call_.emplace(f)\<close>\<close>

definition emul_append :: "string \<Rightarrow> ('w, 't, unit) member" where
  "emul_append str = upd_this (\<lambda>b. b\<lparr>emul_cmd := emul_cmd b @ str\<rparr>)"

definition emul_clear :: "('w, 't, unit) member" where
  "emul_clear = upd_this (\<lambda>b. b\<lparr>emul_cmd := []\<rparr>)"

definition co_procs_add :: "vm_proc \<Rightarrow> ('w, 't, unit) member" where
  "co_procs_add p = upd_this (\<lambda>b. b\<lparr>co_procs := co_procs b @ [p]\<rparr>)"

definition end_call_add :: "end_call_fn \<Rightarrow> ('w, 't, unit) member" where
  "end_call_add f = upd_this (\<lambda>b. b\<lparr>end_call := end_call b @ [f]\<rparr>)"

text \<open>\<open>aaf_cfg_->Set(k, v)\<close>, which dereferences the pointer, and the same under \<open>if (aaf_cfg_)\<close>\<close>

definition aaf_set :: "string \<Rightarrow> string \<Rightarrow> ('w, 't, unit) member" where
  "aaf_set k v =
     cbind (get_this aaf_cfg) (\<lambda>p.
     case p of None \<Rightarrow> ccrash | Some a \<Rightarrow> upd_this (\<lambda>b. b\<lparr>aaf_cfg := Some (Aaf_Set k v a)\<rparr>))"

definition aaf_set_if :: "string \<Rightarrow> string \<Rightarrow> ('w, 't, unit) member" where
  "aaf_set_if k v = cbind (get_this aaf_cfg) (\<lambda>p. cwhen (p \<noteq> None) (aaf_set k v))"

lemma upd_this_run [run_simps]: "upd_this f s = (Ret (), s\<lparr>this := f (this s)\<rparr>)"
  by (simp add: upd_this_def run_simps)

lemma get_this_run [run_simps]: "get_this f s = (Ret (f (this s)), s)"
  by (simp add: get_this_def run_simps)

lemma cfg_value_run [run_simps]: "cfg_value E g k s = (Ret (GetValue E (cfg (this s)) g k), s)"
  by (simp add: cfg_value_def run_simps)

lemma upd_this_Ret_iff [ret_iffs]: "upd_this f s = (Ret y, u) \<longleftrightarrow> u = s\<lparr>this := f (this s)\<rparr>"
  by (auto simp: upd_this_def ret_iffs)

lemma get_this_Ret_iff [ret_iffs]: "get_this f s = (Ret y, u) \<longleftrightarrow> y = f (this s) \<and> u = s"
  by (auto simp: get_this_def ret_iffs)

lemma cfg_value_Ret_iff [ret_iffs]:
  "cfg_value E g k s = (Ret y, u) \<longleftrightarrow> y = GetValue E (cfg (this s)) g k \<and> u = s"
  by (auto simp: cfg_value_def ret_iffs)

end
