(* ===== verification/Vm_Builder_Qemu.thy ===== *)
theory Vm_Builder_Qemu
  imports Vm_Builder
begin

text \<open>
  \<open>VmBuilderQemu::BuildVmArgs\<close> and the functions it calls (src/guest/vm_builder_qemu.cc): they read the guest's
  options, prepare the host and assemble the command line of the emulator and the list of companion
  processes.  The member functions appear in the order of the source; each returns what the C++ function
  returns and works on the state of theory \<open>Vm_Builder\<close>.
\<close>

definition MAX_NUM_GUEST :: nat where "MAX_NUM_GUEST = 7"
definition kQmpPowerSocket :: path where "kQmpPowerSocket = ''/tmp/qmp-pwr-socket-''"

section \<open>Host preparation\<close>

definition SoundCardHook :: "('w, 't) env \<Rightarrow> ('w, 't, unit) member" where
  "SoundCardHook E =
     cbind (system_call E ''ls /proc/asound/sofhdadsp'') (\<lambda>rc.
     cwhen (rc = 0)
      (cbind (system_call E ''modprobe -r snd-sof-pci-intel-tgl'') (\<lambda>rc.
       cwhen (rc = 0) (end_call_add ProbeSnd))))"

definition SetupSriov :: "('w, 't) env \<Rightarrow> ('w, 't, bool) member" where
  "SetupSriov E =
     cbind (cfg_value E kGroupVgpu kVgpuMonId) (\<lambda>vgpu_mon_id.
     cseq (if vgpu_mon_id = [] then emul_append '' -display gtk,gl=on''
           else emul_append ('' -display gtk,gl=on,monitor='' @ vgpu_mon_id))
    (cbind (cfg_value E kGroupMem kMemSize) (\<lambda>mem_size0.
     let mem_size = trim E mem_size0 in
     cbind (SetupHugePages E mem_size) (\<lambda>ok.
     if \<not> ok then cret False else
     cbind (SetAvailableVf E) (\<lambda>vf.
     if vf < 0 then cret False else
     cseq (emul_append ('' -device virtio-vga,max_outputs=1,blob=true'' @
            '' -device vfio-pci,host=0000:00:02.'' @ to_string vf @
            '' -object memory-backend-memfd,hugetlb=on,id=mem_sriov,size='' @ mem_size @
            '' -machine memory-backend=mem_sriov''))
     (cret True))))))"

definition BringDownBtHciIntf :: "('w, 't) env \<Rightarrow> ('w, 't, unit) member" where
  "BringDownBtHciIntf E =
     cbind (cfg_value E kGroupbluetooth kHciDown) (\<lambda>hci_status.
     cwhen (trim E hci_status = ''true'')
      (cbind (system_call E ''sudo hciconfig hci0 down'') (\<lambda>_. cret ())))"

text \<open>The loop over the socket names, from \<open>avail\<close> on; the static variable keeps the last name tried.\<close>

function pm_socket_loop :: "('w, 't) env \<Rightarrow> nat \<Rightarrow> ('w, 't, unit) member" where
  "pm_socket_loop E avail =
     (if avail < MAX_NUM_GUEST then
        (let path = kQmpPowerSocket @ to_string (int avail) in
         cseq (cmodify (\<lambda>s. s\<lparr>socketPath := path\<rparr>))
        (cbind (oscall (os_access E path)) (\<lambda>ex.
         if \<not> ex then emul_append ('' -qmp unix:'' @ path @ '',server,nowait'')
         else pm_socket_loop E (Suc avail))))
      else cret ())"
  by pat_completeness auto
termination
  by (relation "measure (\<lambda>(_, avail). MAX_NUM_GUEST - avail)") auto

declare pm_socket_loop.simps [simp del]

definition BuildExtraGuestPmCtrlCmd :: "('w, 't) env \<Rightarrow> ('w, 't, unit) member" where
  "BuildExtraGuestPmCtrlCmd E =
     cbind (cfg_value E kGroupExtra kExtraPwrCtrlMultiOS) (\<lambda>ex_cmd.
     cwhen (ex_cmd = ''true'')
      (cseq (pm_socket_loop E 0)
      (end_call_add RemovePmSocket)))"

text \<open>One device of the list: \<open>boost::trim(*it)\<close>, then the attempt.\<close>

definition pt_device :: "('w, 't) env \<Rightarrow> string \<Rightarrow> ('w, 't, unit) member" where
  "pt_device E it0 =
     (let it = trim E it0 in
      cbind (PassthroughOnePciDev E (Some it) kPciPassthrough) (\<lambda>ok.
      cwhen ok
       (cseq (upd_this (\<lambda>b. b\<lparr>pci_pt_dev_set := std_set_insert it (pci_pt_dev_set b)\<rparr>))
       (emul_append ('' -device vfio-pci,host='' @ it @ '',x-no-kvm-intx=on'')))))"

definition BuildPtPciDevicesCmd :: "('w, 't) env \<Rightarrow> ('w, 't, unit) member" where
  "BuildPtPciDevicesCmd E =
     cbind (cfg_value E kGroupPciPt kPciPtDev) (\<lambda>pt_pci0.
     let pt_pci = trim E pt_pci0 in
     if pt_pci = [] then cret () else
     cseq (BringDownBtHciIntf E)
     (cfor (split_on E (CHR '','') True pt_pci) (pt_device E)))"

definition SetPciDevicesCallback :: "('w, 't, unit) member" where
  "SetPciDevicesCallback =
     cbind (get_this pci_pt_dev_set) (\<lambda>devs.
     if devs = [] then cret () else end_call_add RestorePci)"

definition PassthroughGpu :: "('w, 't) env \<Rightarrow> ('w, 't, bool) member" where
  "PassthroughGpu E =
     cbind (PassthroughOnePciDev E (Some kIntelGpuBdf) kPciPassthrough) (\<lambda>ok.
     if ok then
       cseq (upd_this (\<lambda>b. b\<lparr>pci_pt_dev_set := std_set_insert kIntelGpuBdf (pci_pt_dev_set b)\<rparr>))
       (cret True)
     else cret False)"

definition CreateGvtgVgpu :: "('w, 't) env \<Rightarrow> ('w, 't, bool) member" where
  "CreateGvtgVgpu E =
     cbind (cfg_value E kGroupVgpu kVgpuGvtgVer) (\<lambda>gvtg_ver.
     cbind (cfg_value E kGroupVgpu kVgpuUuid) (\<lambda>uuid.
     cbind (WriteSysFile E (kGvtgMdevTypePath @ gvtg_ver @ ''/create'') uuid) (\<lambda>rc.
     cret (rc = 0))))"

section \<open>Companion processes\<close>

definition RunMediationSrv :: "('w, 't) env \<Rightarrow> ('w, 't, unit) member" where
  "RunMediationSrv E =
     cbind (cfg_value E kGroupMed kMedBattery) (\<lambda>batt_med.
     cseq (cwhen (batt_med \<noteq> []) (co_procs_add (VmProcSimple_new batt_med)))
    (cbind (cfg_value E kGroupMed kMedThermal) (\<lambda>ther_med.
     cseq (cwhen (ther_med \<noteq> []) (co_procs_add (VmProcSimple_new ther_med)))
    (cbind (cfg_value E kGroupMed kMedCamera) (\<lambda>cam_med.
     cwhen (length cam_med = 1 \<and> tolower (hd cam_med) = CHR ''y'')
       (co_procs_add (VmProcSimple_new ''/usr/local/bin/stream'')))))))"

definition kTimeKeepPipe :: path where "kTimeKeepPipe = ''/tmp/qmp-time-keep-pipe''"

definition BuildGuestTimeKeepCmd :: "('w, 't) env \<Rightarrow> ('w, 't, unit) member" where
  "BuildGuestTimeKeepCmd E =
     cbind (cfg_value E kGroupService kServTimeKeep) (\<lambda>tk.
     if tk = [] then cret () else
     cseq (co_procs_add (VmProcSimple_new (tk @ '' '' @ kTimeKeepPipe)))
     (emul_append ('' -qmp pipe:'' @ kTimeKeepPipe)))"

definition kPmCtrlSock :: path where "kPmCtrlSock = ''/tmp/qmp-pm-sock''"

text \<open>The socket becomes the first argument of the command.\<close>

definition pm_with_sock :: "string \<Rightarrow> string" where
  "pm_with_sock pm =
     (case find_first_of_from (CHR '' '') 0 pm of
        Some pos \<Rightarrow> take (pos + 1) pm @ kPmCtrlSock @ '' '' @ drop (pos + 1) pm
      | None \<Rightarrow> pm @ '' '' @ kPmCtrlSock)"

definition BuildGuestPmCtrlCmd :: "('w, 't) env \<Rightarrow> ('w, 't, unit) member" where
  "BuildGuestPmCtrlCmd E =
     cbind (cfg_value E kGroupService kServPmCtrl) (\<lambda>pm.
     if pm = [] then cret () else
     cseq (co_procs_add (VmProcSimple_new (pm_with_sock pm)))
     (emul_append ('' -qmp unix:'' @ kPmCtrlSock @ '',server=on,wait=off -no-reboot'')))"

section \<open>Pieces of the command line\<close>

definition BuildAudioCmd :: "('w, 't) env \<Rightarrow> ('w, 't, unit) member" where
  "BuildAudioCmd E =
     cbind (GetUid E) (\<lambda>uid.
     cbind (cfg_value E kGroupAudio kDisableEmul) (\<lambda>dis.
     if dis = ''true'' then cret () else
     emul_append ('' -device intel-hda'' @
       '' -device hda-duplex,audiodev=android_spk'' @
       '' -audiodev id=android_spk,timer-period=5000,driver=pa,'' @
       ''in.fixed-settings=off,out.fixed-settings=off,server=/run/user/'' @ to_string uid @
       ''/pulse/native'')))"

definition BuildExtraCmd :: "('w, 't) env \<Rightarrow> ('w, 't, unit) member" where
  "BuildExtraCmd E =
     cbind (cfg_value E kGroupExtra kExtraCmd) (\<lambda>ex_cmd.
     if ex_cmd = [] then cret () else emul_append ('' '' @ ex_cmd))"

definition SetExtraServices :: "('w, 't) env \<Rightarrow> ('w, 't, unit) member" where
  "SetExtraServices E =
     cbind (cfg_value E kGroupExtra kExtraService) (\<lambda>ex_srvs0.
     let ex_srvs = trim E ex_srvs0 in
     if ex_srvs = [] then cret () else
     cfor (split_on E (CHR '';'') True ex_srvs) (\<lambda>it.
       if trim E it = [] then cret () else co_procs_add (VmProcSimple_new (trim E it))))"

definition BuildEmulPath :: "('w, 't) env \<Rightarrow> ('w, 't, bool) member" where
  "BuildEmulPath E =
     cbind (cfg_value E kGroupEmul kEmulPath) (\<lambda>str_emul_path.
     cbind (oscall (fs_exists E str_emul_path)) (\<lambda>ex.
     cbind (if ex then oscall (fs_absolute E str_emul_path)
            else oscall (search_path E (if str_emul_path = [] then ''qemu-system-x86_64'' else str_emul_path)))
       (\<lambda>emul_path.
     if emul_path = [] then cret False else
     cseq (upd_this (\<lambda>b. b\<lparr>emul_cmd := emul_path\<rparr>))
     (cret True))))"

definition last_args :: string where
  "last_args = '' -device intel-iommu,device-iotlb=on,caching-mode=on'' @ '' -nodefaults ''"

definition BuildFixedCmd :: "('w, 't, unit) member" where
  "BuildFixedCmd =
     cseq (emul_append ('' -M q35'' @
        '' -machine kernel_irqchip=on'' @
        '' -k en-us'' @
        '' -cpu host,-waitpkg,pmu=off'' @
        '' -enable-kvm'' @
        '' -device qemu-xhci,id=xhci,p2=8,p3=8'' @
        '' -device usb-mouse'' @
        '' -device usb-kbd''))
     (emul_append last_args)"

text \<open>\<open>std::string(GetConfigPath())\<close> of a null pointer is undefined.\<close>

definition BuildNameQmp :: "('w, 't) env \<Rightarrow> ('w, 't, bool) member" where
  "BuildNameQmp E =
     cbind (cfg_value E kGroupGlob kGlobName) (\<lambda>name0.
     let name = trim E name0 in
     if name = [] then cseq emul_clear (cret False) else
     cseq (emul_append ('' -name '' @ name))
    (case split_on E (CHR '','') False name of
       [] \<Rightarrow> ccrash
     | name_param0 # _ \<Rightarrow>
         cbind (GetConfigPath E) (\<lambda>dir.
         case dir of None \<Rightarrow> ccrash | Some d \<Rightarrow>
         cseq (emul_append ('' -qmp unix:'' @ d @ ''/.'' @ name_param0 @ ''.qmp.unix.socket,server,nowait''))
         (cret True))))"

definition BuildNetCmd :: "('w, 't) env \<Rightarrow> ('w, 't, unit) member" where
  "BuildNetCmd E =
     cbind (cfg_value E kGroupNet kNetModel) (\<lambda>model0.
     let model = (if model0 = [] then ''e1000'' else model0) in
     if model = ''none'' then cret () else
     cbind (cfg_value E kGroupNet kNetAdbPort) (\<lambda>adb_port.
     cbind (cfg_value E kGroupNet kNetFastbootPort) (\<lambda>fb_port.
     cseq (emul_append ('' -netdev user,id=net0'' @
             (if adb_port \<noteq> [] then '',hostfwd=tcp::'' @ adb_port @ ''-:5555'' else []) @
             (if fb_port \<noteq> [] then '',hostfwd=tcp::'' @ fb_port @ ''-:5554'' else [])))
     (emul_append ('' -device '' @ model @ '',netdev=net0,bus=pcie.0,addr=0xA'')))))"

definition take_cid :: "(bitset \<Rightarrow> u32 \<times> bitset) \<Rightarrow> ('w, 't, u32) member" where
  "take_cid f =
     cbind (cget (\<lambda>s. f (cid_pool s))) (\<lambda>(c, p).
     cseq (cmodify (\<lambda>s. s\<lparr>cid_pool := p\<rparr>))
    (cseq (upd_this (\<lambda>b. b\<lparr>vsock_cid := c\<rparr>))
    (cret c)))"

definition vsock_device :: "u32 \<Rightarrow> string" where
  "vsock_device c =
     '' -device vhost-vsock-pci,id=vhost-vsock-pci0,bus=pcie.0,addr=0x10,guest-cid='' @ to_string (uint c)"

text \<open>\<open>std::stoul\<close> gives 64 bits, the parameter of \<open>GetCid\<close> has 32: the conversion drops the upper half.\<close>

definition BuildVsockCmd :: "('w, 't) env \<Rightarrow> ('w, 't, bool) member" where
  "BuildVsockCmd E =
     cbind (cfg_value E kGroupGlob kGlobCid) (\<lambda>str_cid.
     cbind (if str_cid = [] then take_cid GetCid
            else case stoul str_cid of
                Inl _ \<Rightarrow> cret 0
              | Inr n \<Rightarrow> take_cid (GetCid_cid (ucast n))) (\<lambda>c.
     if c = 0 then cseq emul_clear (cret False) else
     cseq (emul_append (vsock_device c))
     (cret True)))"

definition BuildRpmbCmd :: "('w, 't) env \<Rightarrow> ('w, 't, unit) member" where
  "BuildRpmbCmd E =
     cbind (cfg_value E kGroupRpmb kRpmbBinPath) (\<lambda>rpmb_bin.
     cbind (cfg_value E kGroupRpmb kRpmbDataDir) (\<lambda>rpmb_data.
     cbind (oscall (os_strftime E Date_T)) (\<lambda>t_buf.
     let rpmb_sock = kRpmbSockPrefix @ t_buf in
     cwhen (rpmb_bin \<noteq> [] \<and> rpmb_data \<noteq> [])
      (cseq (emul_append ('' -device virtio-serial,addr=1'' @
               '' -device virtserialport,chardev=rpmb0,name=rpmb0,nr=1'' @
               '' -chardev socket,id=rpmb0,path='' @ rpmb_sock))
      (co_procs_add (VmCoProcRpmb_new rpmb_bin rpmb_data rpmb_sock))))))"

definition BuildVtpmCmd :: "('w, 't) env \<Rightarrow> ('w, 't, unit) member" where
  "BuildVtpmCmd E =
     cbind (cfg_value E kGroupVtpm kVtpmBinPath) (\<lambda>vtpm_bin.
     cbind (cfg_value E kGroupVtpm kVtpmDataDir) (\<lambda>vtpm_data.
     cwhen (vtpm_bin \<noteq> [] \<and> vtpm_data \<noteq> [])
      (cseq (emul_append ('' -chardev socket,id=chrtpm,path='' @ vtpm_data @ ''/'' @ kVtpmSock @
               '' -tpmdev emulator,id=tpm0,chardev=chrtpm -device tpm-crb,tpmdev=tpm0''))
      (co_procs_add (VmCoProcVtpm_new vtpm_bin vtpm_data)))))"

definition InitAafCfg :: "('w, 't) env \<Rightarrow> ('w, 't, unit) member" where
  "InitAafCfg E =
     cbind (cfg_value E kGroupAaf kAafPath) (\<lambda>p.
     cwhen (p \<noteq> []) (upd_this (\<lambda>b. b\<lparr>aaf_cfg := Some (Aaf_new p)\<rparr>)))"

definition BuildAafCfg :: "('w, 't) env \<Rightarrow> ('w, 't, bool) member" where
  "BuildAafCfg E =
     cbind (cfg_value E kGroupAaf kAafPath) (\<lambda>p.
     if p = [] then cret True else
     cbind (cfg_value E kGroupAaf kAafSuspend) (\<lambda>aaf_suspend.
     cbind (if aaf_suspend = [] then cret True
            else if aaf_suspend = ''true'' \<or> aaf_suspend = ''enable''
            then cseq (aaf_set kAafKeySuspend ''true'') (cret True)
            else if aaf_suspend = ''false'' \<or> aaf_suspend = ''disable''
            then cseq (aaf_set kAafKeySuspend ''false'') (cret True)
            else cret False) (\<lambda>ok.
     if \<not> ok then cret False else
     cbind (cfg_value E kGroupAaf kAafAudioType) (\<lambda>aaf_audio_type.
     cseq (cwhen (aaf_audio_type \<noteq> []) (aaf_set kAafKeyAudioType aaf_audio_type))
    (cseq (emul_append ('' -virtfs local,mount_tag=aaf,security_model=none,path='' @ p))
     (cret True))))))"

section \<open>Graphics\<close>

text \<open>One function for each branch of \<open>BuildVgpuCmd\<close>.\<close>

definition vgpu_gvtg :: "('w, 't) env \<Rightarrow> ('w, 't, bool) member" where
  "vgpu_gvtg E =
     cbind (cfg_value E kGroupVgpu kVgpuUuid) (\<lambda>vgpu_uuid.
     if vgpu_uuid = [] then cret False else
     if \<not> CheckUuid E vgpu_uuid then cret False else
     cbind (CreateGvtgVgpu E) (\<lambda>ok.
     if \<not> ok then cret False else
     cseq (emul_append ('' -device vfio-pci-nohotplug,ramfb=on,display=on,addr=2.0,x-igd-opregion=on,sysfsdev='' @
             kIntelGpuDevPath @ vgpu_uuid))
    (cseq (aaf_set_if kAafKeyGpuType ''gvtg'')
     (cret True))))"

definition vgpu_gvtd :: "('w, 't) env \<Rightarrow> ('w, 't, bool) member" where
  "vgpu_gvtd E =
     cseq (SoundCardHook E)
    (cbind (PassthroughGpu E) (\<lambda>ok.
     if \<not> ok then cret False else
     cseq (emul_append ('' -vga none -nographic'' @
        '' -device vfio-pci,host=00:02.0,x-igd-gms=2,id=hostdev0,bus=pcie.0,addr=0x2,x-igd-opregion=on'' @
        '' -display none''))
    (cseq (aaf_set_if kAafKeyGpuType ''gvtd'')
     (cret True))))"

text \<open>\<open>std::stoi(outputs, &pos, 10)\<close> is not guarded by a handler.\<close>

definition vgpu_virtio :: "('w, 't) env \<Rightarrow> ('w, 't, bool) member" where
  "vgpu_virtio E =
     cseq (emul_append '' -device virtio-vga-gl'')
    (cbind (cfg_value E kGroupVgpu kVgpuOutputs) (\<lambda>outputs.
     cseq (cwhen (outputs \<noteq> [])
            (case stoi 10 outputs of
               Inl e \<Rightarrow> cthrow e
             | Inr (v, pos) \<Rightarrow> cwhen (pos = length outputs) (emul_append ('',max_outputs='' @ outputs))))
    (cseq (aaf_set_if kAafKeyGpuType ''virtio'')
     (cret True))))"

definition BuildVgpuCmd :: "('w, 't) env \<Rightarrow> ('w, 't, bool) member" where
  "BuildVgpuCmd E =
     cbind (cfg_value E kGroupVgpu kVgpuType) (\<lambda>vgpu_type.
     if vgpu_type = [] then cret True
     else if vgpu_type = kVgpuGvtG then vgpu_gvtg E
     else if vgpu_type = kVgpuGvtD then vgpu_gvtd E
     else if vgpu_type = kVgpuVirtio then vgpu_virtio E
     else if vgpu_type = kVgpuRamfb then cseq (emul_append '' -device ramfb'') (cret True)
     else if vgpu_type = kVgpuVirtio2D then
       cseq (emul_append '' -device virtio-vga'')
      (cseq (aaf_set_if kAafKeyGpuType ''virtio'')
       (cret True))
     else if vgpu_type = kVgpuSriov then
       cbind (SetupSriov E) (\<lambda>ok.
       if \<not> ok then cret False else
       cseq (aaf_set_if kAafKeyGpuType ''sriov'') (cret True))
     else cret False)"

definition BuildVinputCmd :: "('w, 't) env \<Rightarrow> ('w, 't, unit) member" where
  "BuildVinputCmd E =
     cbind (cfg_value E kGroupVgpu kVgpuType) (\<lambda>vgpu_type.
     cbind (cfg_value E kGroupService kServVinput) (\<lambda>vinput.
     if vinput = [] then cret () else
     let gvtd = (vgpu_type = kVgpuGvtD) in
     cseq (emul_append ((if gvtd then '' -qmp unix:./qmp-vinput-sock,server,nowait'' else []) @
        '' -device virtio-input-host-pci,evdev=/dev/input/by-id/Power-Button-vm0'' @
        '' -device virtio-input-host-pci,evdev=/dev/input/by-id/Volume-Button-vm0'' @
        '' -device virtio-input-host-pci,evdev=/dev/input/by-id/Other-Button-vm0''))
     (co_procs_add (VmProcSimple_new (vinput @ (if gvtd then '' --gvtd'' else []))))))"

definition BuildDispCmd :: "('w, 't) env \<Rightarrow> ('w, 't, unit) member" where
  "BuildDispCmd E =
     cbind (cfg_value E kGroupDisplay kDispOptions) (\<lambda>disp_op.
     if disp_op = [] then emul_append '' -display gtk,gl=on''
     else emul_append ('' -display '' @ disp_op))"

section \<open>Memory, processors, firmware, disk\<close>

definition BuildMemCmd :: "('w, 't) env \<Rightarrow> ('w, 't, unit) member" where
  "BuildMemCmd E = cbind (cfg_value E kGroupMem kMemSize) (\<lambda>v. emul_append ('' -m '' @ v))"

definition BuildVcpuCmd :: "('w, 't) env \<Rightarrow> ('w, 't, unit) member" where
  "BuildVcpuCmd E = cbind (cfg_value E kGroupVcpu kVcpuNum) (\<lambda>v. emul_append ('' -smp '' @ v))"

definition BuildFirmwareCmd :: "('w, 't) env \<Rightarrow> ('w, 't, bool) member" where
  "BuildFirmwareCmd E =
     cbind (cfg_value E kGroupFirm kFirmType) (\<lambda>firm_type.
     if firm_type = [] then cret False
     else if firm_type = kFirmUnified then
       cbind (cfg_value E kGroupFirm kFirmPath) (\<lambda>p.
       cseq (emul_append ('' -drive if=pflash,format=raw,file='' @ p))
       (cret True))
     else if firm_type = kFirmSplited then
       cbind (cfg_value E kGroupFirm kFirmCode) (\<lambda>code.
       cseq (emul_append ('' -drive if=pflash,format=raw,readonly,file='' @ code))
      (cbind (cfg_value E kGroupFirm kFirmVars) (\<lambda>vars.
       cseq (emul_append ('' -drive if=pflash,format=raw,file='' @ vars))
       (cret True))))
     else cret False)"

definition BuildVdiskCmd :: "('w, 't) env \<Rightarrow> ('w, 't, unit) member" where
  "BuildVdiskCmd E =
     cbind (cfg_value E kGroupDisk kDiskPath) (\<lambda>p.
     emul_append ('' -drive file='' @ p @ '',if=none,id=disk1,discard=unmap,detect-zeroes=unmap'' @
       '' -device virtio-blk-pci,drive=disk1,bootindex=1''))"

section \<open>The whole build\<close>

text \<open>\<open>if (aaf_cfg_) aaf_cfg_->Flush();\<close>\<close>

definition flush_aaf :: "('w, 't) env \<Rightarrow> ('w, 't, unit) member" where
  "flush_aaf E =
     cbind (get_this aaf_cfg) (\<lambda>p.
     case p of
       None \<Rightarrow> cret ()
     | Some a \<Rightarrow> cbind (Aaf_Flush E a) (\<lambda>a'. upd_this (\<lambda>b. b\<lparr>aaf_cfg := Some a'\<rparr>)))"

text \<open>The part of \<open>BuildVmArgs\<close> after the last step that can refuse.\<close>

definition build_tail :: "('w, 't) env \<Rightarrow> ('w, 't, bool) member" where
  "build_tail E =
     cseq (BuildVdiskCmd E)
    (cseq (BuildPtPciDevicesCmd E)
    (cseq SetPciDevicesCallback
    (cseq (RunMediationSrv E)
    (cseq (BuildGuestTimeKeepCmd E)
    (cseq (BuildGuestPmCtrlCmd E)
    (cseq (BuildExtraGuestPmCtrlCmd E)
    (cseq (BuildAudioCmd E)
    (cseq (BuildExtraCmd E)
    (cseq BuildFixedCmd
    (cseq (SetExtraServices E)
    (cseq (flush_aaf E)
    (cseq (upd_this (\<lambda>b. b\<lparr>main_proc := Some (VmProcSimple_new (emul_cmd b))\<rparr>))
    (cseq (upd_this (\<lambda>b. b\<lparr>vm_state := kVmCreated\<rparr>))
     (cret True))))))))))))))"

definition BuildVmArgs :: "('w, 't) env \<Rightarrow> ('w, 't, bool) member" where
  "BuildVmArgs E =
     cbind (BuildEmulPath E) (\<lambda>ok.
     if \<not> ok then cret False else
     cbind (BuildNameQmp E) (\<lambda>ok.
     if \<not> ok then cret False else
     cseq (BuildRpmbCmd E)
    (cseq (BuildDispCmd E)
    (cseq (InitAafCfg E)
    (cbind (BuildVgpuCmd E) (\<lambda>ok.
     if \<not> ok then cret False else
     cseq (BuildVinputCmd E)
    (cbind (BuildAafCfg E) (\<lambda>ok.
     if \<not> ok then cret False else
     cseq (BuildNetCmd E)
    (cbind (BuildVsockCmd E) (\<lambda>ok.
     if \<not> ok then cret False else
     cseq (BuildVtpmCmd E)
    (cseq (BuildMemCmd E)
    (cseq (BuildVcpuCmd E)
    (cbind (BuildFirmwareCmd E) (\<lambda>ok.
     if \<not> ok then cret False else
     build_tail E))))))))))))))"

section \<open>What a build step may change\<close>

text \<open>
  All steps but four only add to the object: the command line, the companion processes, the devices taken and
  the calls to make at the end grow; the name, the options, the context id, the state, the main process and
  the pool stay as they are; a companion of the AAF file, once created, stays.
\<close>

definition build_step :: "('w, 't) build_state \<Rightarrow> ('w, 't) build_state \<Rightarrow> bool" where
  "build_step s t \<longleftrightarrow>
     cid_pool t = cid_pool s \<and>
     vm_name (this t) = vm_name (this s) \<and> cfg (this t) = cfg (this s) \<and>
     vsock_cid (this t) = vsock_cid (this s) \<and> vm_state (this t) = vm_state (this s) \<and>
     main_proc (this t) = main_proc (this s) \<and> vm_ready_latch (this t) = vm_ready_latch (this s) \<and>
     prefix (emul_cmd (this s)) (emul_cmd (this t)) \<and>
     prefix (co_procs (this s)) (co_procs (this t)) \<and>
     prefix (end_call (this s)) (end_call (this t)) \<and>
     set (pci_pt_dev_set (this s)) \<subseteq> set (pci_pt_dev_set (this t)) \<and>
     (aaf_cfg (this s) \<noteq> None \<longrightarrow> aaf_cfg (this t) \<noteq> None)"

interpretation build_step: state_preorder build_step
  by unfold_locales (auto simp: build_step_def intro: prefix_order.trans)

lemma build_step_only_world:
  fixes m :: "('w, 't, 'a) member"
  assumes "within only_world m"
  shows "within build_step m"
  using assms by (rule within_mono) (auto simp: only_world_def build_step_def)

lemma build_step_upd_this:
  assumes "\<And>s :: ('w, 't) build_state. build_step s (s\<lparr>this := f (this s)\<rparr>)"
  shows "within build_step (upd_this f :: ('w, 't, unit) member)"
  using assms by (simp add: within_def upd_this_def cmodify_def)

lemma build_step_get_this: "within build_step (get_this f)"
  unfolding get_this_def by (rule build_step.within_cget)

lemma build_step_cfg_value: "within build_step (cfg_value E g k)"
  unfolding cfg_value_def by (rule build_step_get_this)

lemma build_step_emul_append: "within build_step (emul_append str)"
  unfolding emul_append_def by (rule build_step_upd_this) (simp add: build_step_def)

lemma build_step_co_procs_add: "within build_step (co_procs_add p)"
  unfolding co_procs_add_def by (rule build_step_upd_this) (simp add: build_step_def)

lemma build_step_end_call_add: "within build_step (end_call_add f)"
  unfolding end_call_add_def by (rule build_step_upd_this) (simp add: build_step_def)

lemma build_step_case_option:
  "within build_step n \<Longrightarrow> (\<And>x. within build_step (f x)) \<Longrightarrow>
     within build_step (case a of None \<Rightarrow> n | Some x \<Rightarrow> f x)"
  by (cases a) simp_all

lemma build_step_case_sum:
  "(\<And>x. within build_step (f x)) \<Longrightarrow> (\<And>x. within build_step (g x)) \<Longrightarrow>
     within build_step (case a of Inl x \<Rightarrow> f x | Inr x \<Rightarrow> g x)"
  by (cases a) simp_all

lemma build_step_case_prod:
  "(\<And>x y. within build_step (f x y)) \<Longrightarrow> within build_step (case a of (x, y) \<Rightarrow> f x y)"
  by (cases a) simp

lemma build_step_aaf_new: "within build_step (upd_this (\<lambda>b. b\<lparr>aaf_cfg := Some a\<rparr>))"
  by (rule build_step_upd_this) (simp add: build_step_def)

lemma build_step_aaf_set: "within build_step (aaf_set k v)"
  unfolding aaf_set_def
  by (intro build_step.compose build_step_get_this build_step_case_option build_step_aaf_new)

lemma build_step_aaf_set_if: "within build_step (aaf_set_if k v)"
  unfolding aaf_set_if_def by (intro build_step.compose build_step_get_this build_step_aaf_set)

lemma build_step_pci_insert:
  "within build_step (upd_this (\<lambda>b. b\<lparr>pci_pt_dev_set := std_set_insert d (pci_pt_dev_set b)\<rparr>))"
  by (rule build_step_upd_this) (auto simp: build_step_def set_std_set_insert)

lemma build_step_socketPath: "within build_step (cmodify (\<lambda>s. s\<lparr>socketPath := p\<rparr>))"
  by (rule build_step.within_cmodify) (simp add: build_step_def)

interpretation build_config: config_frame build_step
  by unfold_locales (simp_all add: build_step_def)

lemmas build_step_GetConfigPath = build_config.GetConfigPath

lemmas build_step_host =
  only_world_oscall [THEN build_step_only_world] only_world_system_call [THEN build_step_only_world]
  only_world_SetupHugePages [THEN build_step_only_world] only_world_SetAvailableVf [THEN build_step_only_world]
  only_world_PassthroughOnePciDev [THEN build_step_only_world] only_world_WriteSysFile [THEN build_step_only_world]
  only_world_GetUid [THEN build_step_only_world]

lemmas build_step_intros =
  build_step.compose build_step_get_this build_step_cfg_value build_step_emul_append build_step_co_procs_add
  build_step_end_call_add build_step_case_option build_step_case_sum build_step_case_prod build_step_aaf_new
  build_step_aaf_set build_step_aaf_set_if build_step_pci_insert build_step_socketPath build_step_GetConfigPath
  build_step_host

lemma build_step_SetupSriov: "within build_step (SetupSriov E)"
  unfolding SetupSriov_def Let_def by (intro build_step_intros)

lemma build_step_vgpu_gvtg: "within build_step (vgpu_gvtg E)"
  unfolding vgpu_gvtg_def CreateGvtgVgpu_def by (intro build_step_intros)

lemma build_step_vgpu_gvtd: "within build_step (vgpu_gvtd E)"
  unfolding vgpu_gvtd_def SoundCardHook_def PassthroughGpu_def by (intro build_step_intros)

lemma build_step_vgpu_virtio: "within build_step (vgpu_virtio E)"
  unfolding vgpu_virtio_def by (intro build_step_intros)

lemma build_step_BuildVgpuCmd: "within build_step (BuildVgpuCmd E)"
  unfolding BuildVgpuCmd_def
  by (intro build_step_intros build_step_SetupSriov build_step_vgpu_gvtg build_step_vgpu_gvtd build_step_vgpu_virtio)

lemma build_step_pm_socket_loop: "within build_step (pm_socket_loop E avail)"
proof (induction E avail rule: pm_socket_loop.induct)
  case (1 E avail)
  show ?case
    by (subst pm_socket_loop.simps, unfold Let_def)
      (rule build_step_intros build_step_socketPath 1 [OF _ refl] | assumption | simp add: build_step_def)+
qed

lemma build_step_BuildExtraGuestPmCtrlCmd: "within build_step (BuildExtraGuestPmCtrlCmd E)"
  unfolding BuildExtraGuestPmCtrlCmd_def by (intro build_step_intros build_step_pm_socket_loop)

lemma build_step_BuildPtPciDevicesCmd: "within build_step (BuildPtPciDevicesCmd E)"
  unfolding BuildPtPciDevicesCmd_def BringDownBtHciIntf_def pt_device_def Let_def by (intro build_step_intros)

lemma build_step_SetPciDevicesCallback: "within build_step SetPciDevicesCallback"
  unfolding SetPciDevicesCallback_def by (intro build_step_intros)

lemma build_step_RunMediationSrv: "within build_step (RunMediationSrv E)"
  unfolding RunMediationSrv_def by (intro build_step_intros)

lemma build_step_BuildGuestTimeKeepCmd: "within build_step (BuildGuestTimeKeepCmd E)"
  unfolding BuildGuestTimeKeepCmd_def by (intro build_step_intros)

lemma build_step_BuildGuestPmCtrlCmd: "within build_step (BuildGuestPmCtrlCmd E)"
  unfolding BuildGuestPmCtrlCmd_def by (intro build_step_intros)

lemma build_step_BuildAudioCmd: "within build_step (BuildAudioCmd E)"
  unfolding BuildAudioCmd_def by (intro build_step_intros)

lemma build_step_BuildExtraCmd: "within build_step (BuildExtraCmd E)"
  unfolding BuildExtraCmd_def by (intro build_step_intros)

lemma build_step_SetExtraServices: "within build_step (SetExtraServices E)"
  unfolding SetExtraServices_def Let_def by (intro build_step_intros)

lemma build_step_BuildFixedCmd: "within build_step BuildFixedCmd"
  unfolding BuildFixedCmd_def by (intro build_step_intros)

lemma build_step_BuildNetCmd: "within build_step (BuildNetCmd E)"
  unfolding BuildNetCmd_def Let_def by (intro build_step_intros)

lemma build_step_BuildRpmbCmd: "within build_step (BuildRpmbCmd E)"
  unfolding BuildRpmbCmd_def Let_def by (intro build_step_intros)

lemma build_step_BuildVtpmCmd: "within build_step (BuildVtpmCmd E)"
  unfolding BuildVtpmCmd_def by (intro build_step_intros)

lemma build_step_InitAafCfg: "within build_step (InitAafCfg E)"
  unfolding InitAafCfg_def by (intro build_step_intros)

lemma build_step_BuildAafCfg: "within build_step (BuildAafCfg E)"
  unfolding BuildAafCfg_def by (intro build_step_intros)

lemma build_step_BuildVinputCmd: "within build_step (BuildVinputCmd E)"
  unfolding BuildVinputCmd_def Let_def by (intro build_step_intros)

lemma build_step_BuildDispCmd: "within build_step (BuildDispCmd E)"
  unfolding BuildDispCmd_def by (intro build_step_intros)

lemma build_step_BuildMemCmd: "within build_step (BuildMemCmd E)"
  unfolding BuildMemCmd_def by (intro build_step_intros)

lemma build_step_BuildVcpuCmd: "within build_step (BuildVcpuCmd E)"
  unfolding BuildVcpuCmd_def by (intro build_step_intros)

lemma build_step_BuildFirmwareCmd: "within build_step (BuildFirmwareCmd E)"
  unfolding BuildFirmwareCmd_def by (intro build_step_intros)

lemma build_step_BuildVdiskCmd: "within build_step (BuildVdiskCmd E)"
  unfolding BuildVdiskCmd_def by (intro build_step_intros)

lemma build_step_flush_aaf: "within build_step (flush_aaf E)"
  unfolding flush_aaf_def
  by (intro build_step_intros build_step_only_world [OF only_world_Aaf_Flush])

lemmas build_steps =
  build_step_BuildVgpuCmd build_step_BuildExtraGuestPmCtrlCmd build_step_BuildPtPciDevicesCmd
  build_step_SetPciDevicesCallback build_step_RunMediationSrv build_step_BuildGuestTimeKeepCmd
  build_step_BuildGuestPmCtrlCmd build_step_BuildAudioCmd build_step_BuildExtraCmd build_step_SetExtraServices
  build_step_BuildFixedCmd build_step_BuildNetCmd build_step_BuildRpmbCmd build_step_BuildVtpmCmd
  build_step_InitAafCfg build_step_BuildAafCfg build_step_BuildVinputCmd build_step_BuildDispCmd
  build_step_BuildMemCmd build_step_BuildVcpuCmd build_step_BuildFirmwareCmd build_step_BuildVdiskCmd
  build_step_flush_aaf

text \<open>\<open>BuildEmulPath\<close> and \<open>BuildNameQmp\<close> also replace the command line.\<close>

definition build_keep :: "('w, 't) build_state \<Rightarrow> ('w, 't) build_state \<Rightarrow> bool" where
  "build_keep s t \<longleftrightarrow> build_step (s\<lparr>this := (this s)\<lparr>emul_cmd := []\<rparr>\<rparr>) (t\<lparr>this := (this t)\<lparr>emul_cmd := []\<rparr>\<rparr>)"

interpretation build_keep: state_preorder build_keep
  by unfold_locales (auto simp: build_keep_def intro: build_step.refl build_step.trans)

lemma build_keep_step: "within build_step m \<Longrightarrow> within build_keep m"
  by (erule within_mono) (auto simp: build_keep_def build_step_def)

lemma build_keep_assign: "within build_keep (upd_this (\<lambda>b. b\<lparr>emul_cmd := line\<rparr>))"
  by (auto simp: within_def upd_this_run build_keep_def build_step.refl)

lemma build_keep_BuildEmulPath: "within build_keep (BuildEmulPath E)"
  unfolding BuildEmulPath_def
  by (intro build_keep.compose build_keep_assign build_keep_step [OF build_step_cfg_value]
      build_keep_step [OF build_step_only_world] only_world_oscall)

lemma build_keep_BuildNameQmp:
  fixes E :: "('w, 't) env"
  shows "within build_keep (BuildNameQmp E)"
proof -
  have opt: "within build_keep (case a of None \<Rightarrow> ccrash | Some d \<Rightarrow> f d)"
    if "\<And>d. within build_keep (f d)" for a and f :: "string \<Rightarrow> ('w, 't, bool) member"
    using that by (cases a) (auto intro: build_keep.compose)
  have lst: "within build_keep (case a of [] \<Rightarrow> ccrash | x # _ \<Rightarrow> f x)"
    if "\<And>x. within build_keep (f x)" for a and f :: "string \<Rightarrow> ('w, 't, bool) member"
    using that by (cases a) (auto intro: build_keep.compose)
  show ?thesis
    unfolding BuildNameQmp_def Let_def emul_clear_def
    by (intro build_keep.compose opt lst build_keep_assign build_keep_step [OF build_step_emul_append]
        build_keep_step [OF build_step_cfg_value] build_keep_step [OF build_step_GetConfigPath])
qed

end
