(* ===== verification/Build_Frames.thy ===== *)
theory Build_Frames
  imports Vm_Builder_Qemu
begin

text \<open>
  The build steps seen through any relation on states that does not care about the fields they touch.  The locale
  \<open>builder_frame\<close> asks of a preorder that it ignores the world, the two static paths, the command line, the AAF
  settings, the context id and additions to the calls at the end; it then contains every step that touches
  nothing else.  \<open>builder_procs\<close> adds companion processes with a property, \<open>builder_pci\<close> devices handed to the
  guest.  Each is interpreted on the relations the theorems need.
\<close>

locale builder_frame = state_preorder R
  for R :: "('w, 't) build_state \<Rightarrow> ('w, 't) build_state \<Rightarrow> bool" +
  assumes world: "R s (s\<lparr>world := w\<rparr>)"
    and config_path: "R s (s\<lparr>civ_config_path := cp\<rparr>)"
    and socket: "R s (s\<lparr>socketPath := sp\<rparr>)"
    and line: "R s (s\<lparr>this := (this s)\<lparr>emul_cmd := l\<rparr>\<rparr>)"
    and aaf: "R s (s\<lparr>this := (this s)\<lparr>aaf_cfg := Some a\<rparr>\<rparr>)"
    and at_end: "R s (s\<lparr>this := (this s)\<lparr>end_call := end_call (this s) @ [f]\<rparr>\<rparr>)"
    and pool: "R s (s\<lparr>cid_pool := p\<rparr>)"
    and cid: "R s (s\<lparr>this := (this s)\<lparr>vsock_cid := c\<rparr>\<rparr>)"
begin

lemma host: "within only_world m \<Longrightarrow> within R m"
  by (erule within_mono) (auto simp: only_world_def world)

lemma get: "within R (get_this f)"
  unfolding get_this_def by (rule within_cget)

lemma value_read: "within R (cfg_value E g k)"
  unfolding cfg_value_def by (rule get)

lemma append: "within R (emul_append str)"
  unfolding emul_append_def by (simp add: within_def upd_this_run line)

lemma assign: "within R (upd_this (\<lambda>b. b\<lparr>emul_cmd := l\<rparr>))"
  by (simp add: within_def upd_this_run line)

lemma clear: "within R emul_clear"
  unfolding emul_clear_def by (rule assign)

lemma aaf_new: "within R (upd_this (\<lambda>b. b\<lparr>aaf_cfg := Some a\<rparr>))"
  by (simp add: within_def upd_this_run aaf)

lemma add_end: "within R (end_call_add f)"
  unfolding end_call_add_def by (simp add: within_def upd_this_run at_end)

lemma set_socket: "within R (cmodify (\<lambda>s. s\<lparr>socketPath := sp\<rparr>))"
  by (simp add: within_def run_simps socket)

lemma set_config_path: "within R (cmodify (\<lambda>s. s\<lparr>civ_config_path := cp\<rparr>))"
  by (simp add: within_def run_simps config_path)

lemma set_pool: "within R (cmodify (\<lambda>s. s\<lparr>cid_pool := p\<rparr>))"
  by (simp add: within_def run_simps pool)

lemma set_cid: "within R (upd_this (\<lambda>b. b\<lparr>vsock_cid := c\<rparr>))"
  by (simp add: within_def upd_this_run cid)

lemma sum: "(\<And>x. within R (f x)) \<Longrightarrow> (\<And>x. within R (g x)) \<Longrightarrow> within R (case a of Inl x \<Rightarrow> f x | Inr x \<Rightarrow> g x)"
  by (cases a) simp_all

lemma set_aaf: "within R (aaf_set k v)"
  unfolding aaf_set_def by (intro within_cbind get opt within_ccrash aaf_new)

lemma set_aaf_if: "within R (aaf_set_if k v)"
  unfolding aaf_set_if_def by (intro within_cbind get within_cwhen set_aaf)

lemmas flow =
  within_cret within_cthrow within_ccrash within_chang within_cget within_cbind within_cseq within_cwhen within_ctry
  within_cfor within_if opt sum lst prd

lemmas prims =
  get value_read append assign clear aaf_new add_end set_socket set_config_path set_pool set_cid set_aaf set_aaf_if

lemma os: "within R (oscall f)" "within R (system_call E str)" "within R (PassthroughOnePciDev E bdf action)"
  "within R (WriteSysFile E p str)" "within R (SetupHugePages E m)" "within R (SetAvailableVf E)" "within R (GetUid E)"
  "within R (Aaf_Flush E x)"
  by (rule host, intro only_world_dev only_world_Aaf_Flush)+

lemma config: "within R (GetConfigPath E)"
  unfolding GetConfigPath_def Let_def by (intro flow prims os)

lemma frame_pm_socket_loop: "within R (pm_socket_loop E avail)"
proof (induction E avail rule: pm_socket_loop.induct)
  case (1 E avail)
  show ?case
    by (subst pm_socket_loop.simps, unfold Let_def) (intro flow prims os 1 [OF _ HOL.refl])
qed

lemma frame_extra_pm: "within R (BuildExtraGuestPmCtrlCmd E)"
  unfolding BuildExtraGuestPmCtrlCmd_def by (intro flow prims frame_pm_socket_loop)

lemma frame_emul: "within R (BuildEmulPath E)" "within R (BuildNameQmp E)"
  unfolding BuildEmulPath_def BuildNameQmp_def Let_def by (intro flow prims os config)+

lemma frame_vsock: "within R (BuildVsockCmd E)"
  unfolding BuildVsockCmd_def take_cid_def by (intro flow prims)

lemma frame_line: "within R (BuildDispCmd E)" "within R (InitAafCfg E)" "within R (BuildAafCfg E)"
  "within R (BuildNetCmd E)" "within R (BuildMemCmd E)" "within R (BuildVcpuCmd E)" "within R (BuildFirmwareCmd E)"
  "within R (BuildVdiskCmd E)" "within R (BuildAudioCmd E)" "within R (BuildExtraCmd E)" "within R BuildFixedCmd"
  "within R SetPciDevicesCallback" "within R (flush_aaf E)"
  unfolding BuildDispCmd_def InitAafCfg_def BuildAafCfg_def BuildNetCmd_def BuildMemCmd_def BuildVcpuCmd_def
    BuildFirmwareCmd_def BuildVdiskCmd_def BuildAudioCmd_def BuildExtraCmd_def BuildFixedCmd_def
    SetPciDevicesCallback_def flush_aaf_def Let_def
  by (intro flow prims os)+

lemmas frame = frame_extra_pm frame_emul frame_vsock frame_line

end

section \<open>Devices\<close>

locale builder_pci = builder_frame R
  for R :: "('w, 't) build_state \<Rightarrow> ('w, 't) build_state \<Rightarrow> bool" +
  assumes device: "R s (s\<lparr>this := (this s)\<lparr>pci_pt_dev_set := std_set_insert d (pci_pt_dev_set (this s))\<rparr>\<rparr>)"
begin

lemma add_device: "within R (upd_this (\<lambda>b. b\<lparr>pci_pt_dev_set := std_set_insert d (pci_pt_dev_set b)\<rparr>))"
  by (simp add: within_def upd_this_run device)

lemma pci_gpu: "within R (vgpu_gvtd E)"
  unfolding vgpu_gvtd_def SoundCardHook_def PassthroughGpu_def by (intro flow prims os add_device)

lemma pci_vgpu: "within R (BuildVgpuCmd E)"
  unfolding BuildVgpuCmd_def vgpu_gvtg_def CreateGvtgVgpu_def vgpu_virtio_def SetupSriov_def Let_def
  by (intro flow prims os pci_gpu)

lemma pci_devices: "within R (BuildPtPciDevicesCmd E)"
  unfolding BuildPtPciDevicesCmd_def BringDownBtHciIntf_def pt_device_def Let_def
  by (intro flow prims os add_device)

end

section \<open>Companion processes\<close>

text \<open>
  The command lines of companions are values of options, which \<open>boost::trim\<close> has cut, with arguments added.
  \<open>good\<close> is a property of command lines that adding characters keeps; \<open>trimmed E good\<close> says that every value
  that is not empty has it.
\<close>

definition trimmed :: "('w, 't) env \<Rightarrow> (string \<Rightarrow> bool) \<Rightarrow> bool" where
  "trimmed E good \<longleftrightarrow> (\<forall>s. trim E s = [] \<or> good (trim E s))"

locale builder_procs = builder_frame R
  for R :: "('w, 't) build_state \<Rightarrow> ('w, 't) build_state \<Rightarrow> bool" +
  fixes good :: "string \<Rightarrow> bool"
  assumes good_more: "good c \<Longrightarrow> set c \<subseteq> set d \<Longrightarrow> good d"
    and good_stream: "good ''/usr/local/bin/stream''"
    and proc: "good c \<Longrightarrow> R s (s\<lparr>this := (this s)\<lparr>co_procs := co_procs (this s) @ [VmProcSimple_new c]\<rparr>\<rparr>)"
    and rpmb: "R s (s\<lparr>this := (this s)\<lparr>co_procs := co_procs (this s) @ [VmCoProcRpmb_new bin dir sock]\<rparr>\<rparr>)"
    and vtpm: "R s (s\<lparr>this := (this s)\<lparr>co_procs := co_procs (this s) @ [VmCoProcVtpm_new bin dir]\<rparr>\<rparr>)"
begin

lemma add_proc: "good c \<Longrightarrow> within R (co_procs_add (VmProcSimple_new c))"
  unfolding co_procs_add_def by (simp add: within_def upd_this_run proc)

lemma add_co: "within R (co_procs_add (VmCoProcRpmb_new bin dir sock))" "within R (co_procs_add (VmCoProcVtpm_new bin dir))"
  unfolding co_procs_add_def by (simp_all add: within_def upd_this_run rpmb vtpm)

lemma bind_value:
  assumes "trimmed E good" and "\<And>v. v = [] \<or> good v \<Longrightarrow> within R (f v)"
  shows "within R (cbind (cfg_value E g k) f)"
proof (rule withinI)
  fix s :: "('w, 't) build_state"
  have "GetValue E (cfg (this s)) g k = [] \<or> good (GetValue E (cfg (this s)) g k)"
    using assms(1) by (auto simp: GetValue_def trimmed_def split: option.splits)
  from assms(2) [OF this] show "R s (snd (cbind (cfg_value E g k) f s))"
    by (simp add: within_def run_simps)
qed

lemma procs_rpmb: "within R (BuildRpmbCmd E)"
  unfolding BuildRpmbCmd_def Let_def by (intro flow prims os add_co)

lemma procs_vtpm: "within R (BuildVtpmCmd E)"
  unfolding BuildVtpmCmd_def by (intro flow prims add_co)

lemma cwhen_nonempty: "(v \<noteq> [] \<Longrightarrow> within R m) \<Longrightarrow> within R (cwhen (v \<noteq> []) m)"
  by (simp add: cwhen_def within_cret)

lemma procs_mediation: "trimmed E good \<Longrightarrow> within R (RunMediationSrv E)"
  unfolding RunMediationSrv_def
  by (intro bind_value within_cseq cwhen_nonempty within_cwhen add_proc good_stream; auto)

lemma procs_time_keep: "trimmed E good \<Longrightarrow> within R (BuildGuestTimeKeepCmd E)"
  unfolding BuildGuestTimeKeepCmd_def
  by (intro bind_value within_if within_cret within_cseq append add_proc) (auto intro: good_more)

lemma pm_with_sock_set: "set pm \<subseteq> set (pm_with_sock pm)"
proof (cases "find_first_of_from (CHR '' '') 0 pm")
  case (Some pos)
  have "set pm = set (take (pos + 1) pm) \<union> set (drop (pos + 1) pm)"
    by (metis append_take_drop_id set_append)
  with Some show ?thesis by (auto simp: pm_with_sock_def)
qed (auto simp: pm_with_sock_def)

lemma procs_pm: "trimmed E good \<Longrightarrow> within R (BuildGuestPmCtrlCmd E)"
  unfolding BuildGuestPmCtrlCmd_def
  by (intro bind_value within_if within_cret within_cseq append add_proc) (auto intro: good_more [OF _ pm_with_sock_set])

lemma procs_vinput: "trimmed E good \<Longrightarrow> within R (BuildVinputCmd E)"
  unfolding BuildVinputCmd_def Let_def
  by (intro bind_value within_if within_cret within_cseq append add_proc) (auto intro: good_more)

lemma procs_extra:
  assumes "trimmed E good"
  shows "within R (SetExtraServices E)"
proof -
  have "within R (if trim E it = [] then cret () else co_procs_add (VmProcSimple_new (trim E it)))" for it
    using assms by (auto simp: trimmed_def within_cret intro!: add_proc)
  note add = within_cfor [of "\<lambda>it. if trim E it = [] then cret () else co_procs_add (VmProcSimple_new (trim E it))", OF this]
  show ?thesis
    unfolding SetExtraServices_def Let_def by (rule within_cbind [OF value_read], rule within_if [OF within_cret add])
qed

lemmas procs = procs_rpmb procs_vtpm procs_mediation procs_time_keep procs_pm procs_vinput procs_extra

end

section \<open>The whole build\<close>

locale builder_all = builder_procs R good + builder_pci R
  for R :: "('w, 't) build_state \<Rightarrow> ('w, 't) build_state \<Rightarrow> bool" and good :: "string \<Rightarrow> bool" +
  assumes main: "R s (s\<lparr>this := (this s)\<lparr>main_proc := Some q\<rparr>\<rparr>)"
    and state: "R s (s\<lparr>this := (this s)\<lparr>vm_state := st\<rparr>\<rparr>)"
begin

lemma set_main: "within R (upd_this (\<lambda>b. b\<lparr>main_proc := Some (g b)\<rparr>))"
  by (simp add: within_def upd_this_run main)

lemma set_state: "within R (upd_this (\<lambda>b. b\<lparr>vm_state := st\<rparr>))"
  by (simp add: within_def upd_this_run state)

lemma whole_tail: "trimmed E good \<Longrightarrow> within R (build_tail E)"
  unfolding build_tail_def by (intro flow frame procs pci_devices set_main set_state)

lemma whole: "trimmed E good \<Longrightarrow> within R (BuildVmArgs E)"
  unfolding BuildVmArgs_def by (intro flow frame procs pci_vgpu whole_tail)

end

end
