(* ===== verification/Build_Facts.thy ===== *)
theory Build_Facts
  imports Build_Frames
begin

text \<open>
  What \<open>BuildVmArgs\<close> leaves behind: the state of the object and of the context id pool on every outcome, the shape
  of the command line, the companion processes, and the calls that undo the preparation of the host.
\<close>

section \<open>Predicates that build steps keep\<close>

definition stable :: "('s \<Rightarrow> 's \<Rightarrow> bool) \<Rightarrow> ('s \<Rightarrow> bool) \<Rightarrow> bool" where
  "stable R P \<longleftrightarrow> (\<forall>s t. P s \<longrightarrow> R s t \<longrightarrow> P t)"

lemma step_seq:
  assumes "within R m" and "stable R P" and "\<And>s. P s \<Longrightarrow> X s" and "triple P n Q X"
  shows "triple P (cseq m n) Q X"
  using assms by (intro triple_cseq [OF triple_within [where R = R]]) (auto simp: stable_def)

lemma step_guard:
  assumes "within R m" and "stable R P" and "\<And>s. P s \<Longrightarrow> X s" and "\<And>s. P s \<Longrightarrow> Q False s" and "triple P n Q X"
  shows "triple P (cbind m (\<lambda>ok. if \<not> ok then cret False else n)) Q X"
  using assms by (intro triple_cbind [OF triple_within [where R = R]]) (auto simp: stable_def intro: triple_cret)

section \<open>The object and the pool\<close>

text \<open>
  \<open>cid_of p s\<close>: the pool is \<open>p\<close> less the id the object holds; the object holds none (0) or one that was free in
  \<open>p\<close>.
\<close>

definition cid_of :: "bitset \<Rightarrow> ('w, 't) build_state \<Rightarrow> bool" where
  "cid_of p s \<longleftrightarrow>
     vsock_cid (this s) = 0 \<and> cid_pool s = p \<or>
     vsock_cid (this s) \<in> free_cids p \<and> cid_pool s = p(unat (vsock_cid (this s)) := False)"

definition unbuilt :: "bitset \<Rightarrow> string \<Rightarrow> 't CivConfig \<Rightarrow> ('w, 't) build_state \<Rightarrow> bool" where
  "unbuilt p n c s \<longleftrightarrow>
     cid_of p s \<and> vm_name (this s) = n \<and> cfg (this s) = c \<and> vm_state (this s) = kVmEmpty \<and>
     main_proc (this s) = None \<and> vm_ready_latch (this s) = 1"

text \<open>\<open>built\<close>: as a successful build leaves the object.\<close>

definition built :: "bitset \<Rightarrow> string \<Rightarrow> 't CivConfig \<Rightarrow> ('w, 't) build_state \<Rightarrow> bool" where
  "built p n c s \<longleftrightarrow>
     cid_of p s \<and> vsock_cid (this s) \<noteq> 0 \<and> vm_name (this s) = n \<and> cfg (this s) = c \<and> vm_state (this s) = kVmCreated \<and>
     main_proc (this s) = Some (VmProcSimple_new (emul_cmd (this s))) \<and> vm_ready_latch (this s) = 1"

lemma BuildVsockCmd_cases:
  "(\<exists>t. BuildVsockCmd E s = (Ret False, t) \<and> cid_pool t = cid_pool s \<and>
      (\<exists>v. v \<in> {0, vsock_cid (this s)} \<and> this t = (this s)\<lparr>vsock_cid := v, emul_cmd := []\<rparr>)) \<or>
   (\<exists>t c. BuildVsockCmd E s = (Ret True, t) \<and> c \<in> free_cids (cid_pool s) \<and>
      cid_pool t = (cid_pool s)(unat c := False) \<and>
      this t = (this s)\<lparr>vsock_cid := c, emul_cmd := emul_cmd (this s) @ vsock_device c\<rparr>)"
proof -
  have take: "(\<exists>t. take_cid f s = (Ret 0, t) \<and> cid_pool t = cid_pool s \<and> this t = (this s)\<lparr>vsock_cid := 0\<rparr>) \<or>
      (\<exists>t c. take_cid f s = (Ret c, t) \<and> c \<noteq> 0 \<and> c \<in> free_cids (cid_pool s) \<and>
         cid_pool t = (cid_pool s)(unat c := False) \<and> this t = (this s)\<lparr>vsock_cid := c\<rparr>)"
    if "f = GetCid \<or> (\<exists>n. f = GetCid_cid n)" for f
  proof -
    have "f p = (0, p) \<or> (\<exists>c. f p = (c, p(unat c := False)) \<and> c \<noteq> 0 \<and> c \<in> free_cids p)" for p
      using that
    proof (elim disjE exE)
      assume "f = GetCid"
      then show ?thesis by (cases p rule: GetCid_cases) (auto simp: free_cids_unat)
    next
      fix n assume "f = GetCid_cid n"
      then show ?thesis by (auto simp: GetCid_cid_def free_cids_unat cid_range_unat)
    qed
    from this [of "cid_pool s"] show ?thesis by (auto simp: take_cid_def run_simps)
  qed
  let ?str = "GetValue E (cfg (this s)) kGroupGlob kGlobCid"
  show ?thesis
  proof (cases "?str = []")
    case True
    with take [OF disjI1, OF refl] show ?thesis
      by (auto simp: BuildVsockCmd_def run_simps emul_clear_def emul_append_def)
  next
    case False
    show ?thesis
    proof (cases "stoul ?str")
      case (Inl e)
      with False show ?thesis
        by (auto simp: BuildVsockCmd_def run_simps emul_clear_def intro!: exI [of _ "vsock_cid (this s)"])
    next
      case (Inr n)
      with False take [OF disjI2, OF exI, OF refl, of "ucast n"] show ?thesis
        by (auto simp: BuildVsockCmd_def run_simps emul_clear_def emul_append_def)
    qed
  qed
qed

definition unbuilt_cid :: "bitset \<Rightarrow> string \<Rightarrow> 't CivConfig \<Rightarrow> ('w, 't) build_state \<Rightarrow> bool" where
  "unbuilt_cid p n c s \<longleftrightarrow> unbuilt p n c s \<and> vsock_cid (this s) \<noteq> 0"

definition unbuilt_nocid :: "bitset \<Rightarrow> string \<Rightarrow> 't CivConfig \<Rightarrow> ('w, 't) build_state \<Rightarrow> bool" where
  "unbuilt_nocid p n c s \<longleftrightarrow> unbuilt p n c s \<and> vsock_cid (this s) = 0"

lemma stable_unbuilt:
  "stable build_step (unbuilt_cid p n c)" "stable build_step (unbuilt_nocid p n c)"
  "stable build_keep (unbuilt_nocid p n c)"
  by (auto simp: stable_def unbuilt_cid_def unbuilt_nocid_def unbuilt_def cid_of_def build_step_def build_keep_def)

lemma unbuilt_cidD: "unbuilt_cid p n c s \<Longrightarrow> unbuilt p n c s" "unbuilt_nocid p n c s \<Longrightarrow> unbuilt p n c s"
  by (simp_all add: unbuilt_cid_def unbuilt_nocid_def)

definition build_post :: "bitset \<Rightarrow> string \<Rightarrow> 't CivConfig \<Rightarrow> bool \<Rightarrow> ('w, 't) build_state \<Rightarrow> bool" where
  "build_post p n c ok s \<longleftrightarrow> (if ok then built p n c s else unbuilt p n c s)"

lemma build_tail_post: "triple (unbuilt_cid p n c) (build_tail E) (build_post p n c) (unbuilt p n c)"
proof -
  have fin: "triple (unbuilt_cid p n c)
     (cseq (upd_this (\<lambda>b. b\<lparr>main_proc := Some (VmProcSimple_new (emul_cmd b))\<rparr>))
     (cseq (upd_this (\<lambda>b. b\<lparr>vm_state := kVmCreated\<rparr>)) (cret True))) (build_post p n c) (unbuilt p n c)"
    by (auto simp: triple_def run_simps build_post_def unbuilt_cid_def unbuilt_def built_def cid_of_def)
  show ?thesis
    unfolding build_tail_def
    by (intro step_seq [where R = build_step] build_steps stable_unbuilt fin unbuilt_cidD)
qed

lemma BuildVsockCmd_post:
  fixes c :: "'t CivConfig" and E :: "('w, 't) env"
  shows "triple (unbuilt_nocid p n c) (BuildVsockCmd E)
     (\<lambda>ok s. if ok then unbuilt_cid p n c s else unbuilt p n c s) (unbuilt p n c)"
  unfolding triple_def
proof (intro allI impI)
  fix s :: "('w, 't) build_state" assume "unbuilt_nocid p n c s"
  then show "ends (\<lambda>ok s. if ok then unbuilt_cid p n c s else unbuilt p n c s) (unbuilt p n c) (BuildVsockCmd E s)"
    using BuildVsockCmd_cases [of E s]
    by (auto simp: unbuilt_nocid_def unbuilt_cid_def unbuilt_def cid_of_def free_cids_unat)
qed

lemma BuildVmArgs_post:
  fixes c :: "'t CivConfig" and E :: "('w, 't) env"
  shows "triple (unbuilt_nocid p n c) (BuildVmArgs E) (build_post p n c) (unbuilt p n c)"
proof -
  have fail: "unbuilt_nocid p n c s \<Longrightarrow> build_post p n c False s" "unbuilt_cid p n c s \<Longrightarrow> build_post p n c False s"
    for s :: "('w, 't) build_state"
    by (simp_all add: build_post_def unbuilt_cidD)
  have vs: "triple (unbuilt_nocid p n c) (cbind (BuildVsockCmd E) (\<lambda>ok. if \<not> ok then cret False else m))
      (build_post p n c) (unbuilt p n c)" if "triple (unbuilt_cid p n c) m (build_post p n c) (unbuilt p n c)"
    for m :: "('w, 't, bool) member"
    by (rule triple_cbind [OF BuildVsockCmd_post], rule triple_guard) (simp_all add: build_post_def that [unfolded build_post_def])
  show ?thesis
    unfolding BuildVmArgs_def
    apply (rule step_guard [OF build_keep_BuildEmulPath stable_unbuilt(3)])
      apply (erule unbuilt_cidD fail)+
    apply (rule step_guard [OF build_keep_BuildNameQmp stable_unbuilt(3)])
      apply (erule unbuilt_cidD fail)+
    apply (intro step_seq [where R = build_step] step_guard [where R = build_step] vs build_steps stable_unbuilt
        unbuilt_cidD build_tail_post fail; assumption)
    done
qed

section \<open>The command line\<close>

text \<open>The name of the guest as the option gives it.\<close>

definition guest_name :: "('w, 't) env \<Rightarrow> 't CivConfig \<Rightarrow> string" where
  "guest_name E c = trim E (GetValue E c kGroupGlob kGlobName)"

text \<open>A command line that starts with a program and the name of the guest.\<close>

definition cmd_head :: "('w, 't) env \<Rightarrow> 't CivConfig \<Rightarrow> string \<Rightarrow> bool" where
  "cmd_head E c h \<longleftrightarrow> guest_name E c \<noteq> [] \<and> (\<exists>emul. emul \<noteq> [] \<and> prefix (emul @ '' -name '' @ guest_name E c) h)"

definition cmd_named :: "('w, 't) env \<Rightarrow> 't CivConfig \<Rightarrow> ('w, 't) build_state \<Rightarrow> bool" where
  "cmd_named E c s \<longleftrightarrow> cmd_head E c (emul_cmd (this s))"

definition cmd_vsock :: "('w, 't) env \<Rightarrow> 't CivConfig \<Rightarrow> ('w, 't) build_state \<Rightarrow> bool" where
  "cmd_vsock E c s \<longleftrightarrow>
     (\<exists>h. cmd_head E c h \<and> prefix (h @ vsock_device (vsock_cid (this s))) (emul_cmd (this s)))"

definition cmd_complete :: "('w, 't) env \<Rightarrow> 't CivConfig \<Rightarrow> ('w, 't) build_state \<Rightarrow> bool" where
  "cmd_complete E c s \<longleftrightarrow>
     (\<exists>h k. cmd_head E c h \<and> emul_cmd (this s) = h @ vsock_device (vsock_cid (this s)) @ k @ last_args)"

lemma cmd_head_prefix: "cmd_head E c h \<Longrightarrow> prefix h k \<Longrightarrow> cmd_head E c k"
  by (auto simp: cmd_head_def intro: prefix_order.trans)

lemma stable_cmd: "stable build_step (cmd_named E c)" "stable build_step (cmd_vsock E c)"
  by (auto simp: stable_def cmd_named_def cmd_vsock_def build_step_def intro: cmd_head_prefix prefix_order.trans)

definition same_cmd :: "('w, 't) build_state \<Rightarrow> ('w, 't) build_state \<Rightarrow> bool" where
  "same_cmd s t \<longleftrightarrow> emul_cmd (this t) = emul_cmd (this s) \<and> vsock_cid (this t) = vsock_cid (this s)"

interpretation same_cmd: state_preorder same_cmd
  by unfold_locales (auto simp: same_cmd_def)

lemma same_cmd_upd_this:
  "(\<And>b :: 't builder. emul_cmd (f b) = emul_cmd b \<and> vsock_cid (f b) = vsock_cid b) \<Longrightarrow>
     within same_cmd (upd_this f :: ('w, 't, unit) member)"
  by (simp add: within_def upd_this_run same_cmd_def)

lemma same_cmd_only_world:
  fixes m :: "('w, 't, 'a) member"
  shows "within only_world m \<Longrightarrow> within same_cmd m"
  by (erule within_mono) (auto simp: only_world_def same_cmd_def)

lemma same_cmd_get_this: "within same_cmd (get_this f)"
  unfolding get_this_def by (rule same_cmd.within_cget)

lemma same_cmd_SetExtraServices: "within same_cmd (SetExtraServices E)"
  unfolding SetExtraServices_def Let_def co_procs_add_def cfg_value_def
  by (intro same_cmd.compose same_cmd_get_this same_cmd_upd_this) simp_all

lemma same_cmd_flush_aaf: "within same_cmd (flush_aaf E)"
proof -
  have "within same_cmd (case p of None \<Rightarrow> cret ()
      | Some a \<Rightarrow> cbind (Aaf_Flush E a) (\<lambda>a'. upd_this (\<lambda>b. b\<lparr>aaf_cfg := Some a'\<rparr>)))" for p
    by (cases p) (auto intro!: same_cmd.compose same_cmd_upd_this same_cmd_only_world [OF only_world_Aaf_Flush])
  then show ?thesis unfolding flush_aaf_def by (intro same_cmd.compose same_cmd_get_this)
qed

lemma stable_cmd_complete: "stable same_cmd (cmd_complete E c)"
  by (auto simp: stable_def same_cmd_def cmd_complete_def)

lemma build_tail_cmd: "triple (cmd_vsock E c) (build_tail E) (\<lambda>ok s. ok \<longrightarrow> cmd_complete E c s) (\<lambda>_. True)"
proof -
  have fixed: "triple (cmd_vsock E c) BuildFixedCmd (\<lambda>_. cmd_complete E c) (\<lambda>_. True)"
    by (auto simp: triple_def BuildFixedCmd_def run_simps emul_append_def cmd_vsock_def cmd_complete_def prefix_def)
  have fin: "within same_cmd (upd_this (\<lambda>b. b\<lparr>main_proc := Some (VmProcSimple_new (emul_cmd b))\<rparr>))"
    "within same_cmd (upd_this (\<lambda>b. b\<lparr>vm_state := kVmCreated\<rparr>))"
    by (rule same_cmd_upd_this, simp)+
  show ?thesis
    unfolding build_tail_def
    by (intro step_seq [where R = build_step] build_steps stable_cmd TrueI triple_cseq [OF fixed]
        step_seq [OF same_cmd_SetExtraServices stable_cmd_complete] step_seq [OF same_cmd_flush_aaf stable_cmd_complete]
        step_seq [OF fin(1) stable_cmd_complete] step_seq [OF fin(2) stable_cmd_complete] triple_cret impI)
qed

lemma BuildEmulPath_cmd:
  "triple (\<lambda>s. cfg (this s) = c) (BuildEmulPath E)
     (\<lambda>ok s. cfg (this s) = c \<and> (ok \<longrightarrow> emul_cmd (this s) \<noteq> [])) (\<lambda>_. True)"
  by (auto simp: triple_def BuildEmulPath_def run_simps split: prod.splits)

lemma GetConfigPath_this: "GetConfigPath E s = (r, t) \<Longrightarrow> build_step s t"
  by (rule withinD [OF build_step_GetConfigPath])

lemma BuildNameQmp_cmd:
  fixes E :: "('w, 't) env"
  shows "triple (\<lambda>s. cfg (this s) = c \<and> emul_cmd (this s) \<noteq> []) (BuildNameQmp E)
     (\<lambda>ok s. ok \<longrightarrow> cmd_named E c s) (\<lambda>_. True)"
  unfolding triple_def
proof (intro allI impI)
  fix s :: "('w, 't) build_state"
  assume s: "cfg (this s) = c \<and> emul_cmd (this s) \<noteq> []"
  show "ends (\<lambda>ok s. ok \<longrightarrow> cmd_named E c s) (\<lambda>_. True) (BuildNameQmp E s)"
  proof (cases "guest_name E c = []")
    case True
    with s show ?thesis by (simp add: BuildNameQmp_def run_simps guest_name_def emul_clear_def)
  next
    case False
    let ?s = "s\<lparr>this := (this s)\<lparr>emul_cmd := emul_cmd (this s) @ '' -name '' @ guest_name E c\<rparr>\<rparr>"
    have named: "cmd_named E c ?s" using False s by (auto simp: cmd_named_def cmd_head_def)
    obtain r t where g: "GetConfigPath E ?s = (r, t)" by (cases "GetConfigPath E ?s")
    have "cmd_named E c t"
      using named GetConfigPath_this [OF g] stable_cmd(1) [of E c] by (simp add: stable_def)
    then have ext: "cmd_named E c (t\<lparr>this := (this t)\<lparr>emul_cmd := emul_cmd (this t) @ str\<rparr>\<rparr>)" for str
      by (auto simp: cmd_named_def intro: cmd_head_prefix)
    show ?thesis
      using False s g ext
      by (cases "split_on E CHR '','' False (guest_name E c)"; cases r)
        (auto simp: BuildNameQmp_def run_simps guest_name_def emul_append_def Let_def split: option.splits)
  qed
qed

lemma BuildVsockCmd_cmd:
  fixes E :: "('w, 't) env"
  shows "triple (cmd_named E c) (BuildVsockCmd E) (\<lambda>ok s. ok \<longrightarrow> cmd_vsock E c s) (\<lambda>_. True)"
  unfolding triple_def
proof (intro allI impI)
  fix s :: "('w, 't) build_state"
  assume "cmd_named E c s"
  then show "ends (\<lambda>ok s. ok \<longrightarrow> cmd_vsock E c s) (\<lambda>_. True) (BuildVsockCmd E s)"
    using BuildVsockCmd_cases [of E s] by (auto simp: cmd_named_def cmd_vsock_def)
qed

lemma bind_guard:
  "triple P m (\<lambda>ok s. ok \<longrightarrow> R s) (\<lambda>_. True) \<Longrightarrow> triple R n (\<lambda>ok s. ok \<longrightarrow> Q s) (\<lambda>_. True) \<Longrightarrow>
     triple P (cbind m (\<lambda>ok. if \<not> ok then cret False else n)) (\<lambda>ok s. ok \<longrightarrow> Q s) (\<lambda>_. True)"
  by (rule triple_cbind, assumption) (auto intro: triple_cret)

lemma BuildVmArgs_cmd:
  "triple (\<lambda>s. cfg (this s) = c) (BuildVmArgs E) (\<lambda>ok s. ok \<longrightarrow> cmd_complete E c s) (\<lambda>_. True)"
proof -
  note step = step_seq [where R = build_step] step_guard [where R = build_step] build_steps stable_cmd TrueI
  have "triple (cmd_vsock E c)
      (cseq (BuildVtpmCmd E) (cseq (BuildMemCmd E) (cseq (BuildVcpuCmd E)
        (cbind (BuildFirmwareCmd E) (\<lambda>ok. if \<not> ok then cret False else build_tail E)))))
      (\<lambda>ok s. ok \<longrightarrow> cmd_complete E c s) (\<lambda>_. True)"
    by (intro step build_tail_cmd; simp)
  note 1 = bind_guard [OF BuildVsockCmd_cmd this]
  have 2: "triple (cmd_named E c)
      (cseq (BuildRpmbCmd E) (cseq (BuildDispCmd E) (cseq (InitAafCfg E)
      (cbind (BuildVgpuCmd E) (\<lambda>ok. if \<not> ok then cret False else
       cseq (BuildVinputCmd E) (cbind (BuildAafCfg E) (\<lambda>ok. if \<not> ok then cret False else
       cseq (BuildNetCmd E) (cbind (BuildVsockCmd E) (\<lambda>ok. if \<not> ok then cret False else
       cseq (BuildVtpmCmd E) (cseq (BuildMemCmd E) (cseq (BuildVcpuCmd E)
       (cbind (BuildFirmwareCmd E) (\<lambda>ok. if \<not> ok then cret False else build_tail E)))))))))))))
      (\<lambda>ok s. ok \<longrightarrow> cmd_complete E c s) (\<lambda>_. True)"
    by (intro step 1; simp)
  have 3: "triple (\<lambda>s. cfg (this s) = c) (BuildEmulPath E)
      (\<lambda>ok s. ok \<longrightarrow> (cfg (this s) = c \<and> emul_cmd (this s) \<noteq> [])) (\<lambda>_. True)"
    by (rule triple_conseq [OF BuildEmulPath_cmd]) auto
  show ?thesis
    unfolding BuildVmArgs_def by (rule bind_guard [OF 3 bind_guard [OF BuildNameQmp_cmd 2]])
qed

section \<open>Companions can be started\<close>

definition blank :: "string \<Rightarrow> bool" where
  "blank s \<longleftrightarrow> set s \<subseteq> {CHR '' ''}"

text \<open>A process that has not been run and whose \<open>Run\<close> will not block: its command line is not blank.\<close>

definition startable :: "vm_proc \<Rightarrow> bool" where
  "startable p \<longleftrightarrow> child_latch p = 1 \<and> child p = None \<and> (kind p = ProcSimple \<longrightarrow> \<not> blank (cmd p))"

lemma startable_new:
  "\<not> blank c \<Longrightarrow> startable (VmProcSimple_new c)"
  "startable (VmCoProcRpmb_new b d f)" "startable (VmCoProcVtpm_new b d)"
  by (simp_all add: startable_def VmCoProcRpmb_new_def VmCoProcVtpm_new_def VmProcSimple_new_def)

text \<open>Every process that is new can be started.\<close>

definition adds_startable :: "('w, 't) build_state \<Rightarrow> ('w, 't) build_state \<Rightarrow> bool" where
  "adds_startable s t \<longleftrightarrow>
     (\<forall>q \<in> set (co_procs (this t)). q \<in> set (co_procs (this s)) \<or> startable q)"

interpretation adds_startable: builder_all adds_startable "\<lambda>c. \<not> blank c"
  by unfold_locales (auto simp: adds_startable_def startable_new blank_def)

text \<open>
  What this needs of \<open>boost::trim\<close>: a result that is not empty is not blank (there is no white space at its ends).
\<close>

definition trim_law :: "('w, 't) env \<Rightarrow> bool" where
  "trim_law E \<longleftrightarrow> trimmed E (\<lambda>c. \<not> blank c)"

section \<open>Devices are given back\<close>

definition pci_kept :: "('w, 't) build_state \<Rightarrow> ('w, 't) build_state \<Rightarrow> bool" where
  "pci_kept s t \<longleftrightarrow> pci_pt_dev_set (this t) = pci_pt_dev_set (this s) \<and> prefix (end_call (this s)) (end_call (this t))"

interpretation pci_kept: builder_procs pci_kept "\<lambda>_. True"
  by unfold_locales (auto simp: pci_kept_def intro: prefix_order.trans)

definition pci_undo :: "('w, 't) build_state \<Rightarrow> bool" where
  "pci_undo s \<longleftrightarrow> pci_pt_dev_set (this s) = [] \<or> RestorePci \<in> set (end_call (this s))"

lemma stable_pci_undo: "stable pci_kept pci_undo"
  by (auto simp: stable_def pci_kept_def pci_undo_def prefix_def)

lemma trimmed_True: "trimmed E (\<lambda>_. True)"
  by (simp add: trimmed_def)

lemma build_tail_undo: "triple (\<lambda>_. True) (build_tail E) (\<lambda>ok s. ok \<longrightarrow> pci_undo s) (\<lambda>_. True)"
proof -
  have any: "triple (\<lambda>_. True) m (\<lambda>_ _. True) (\<lambda>_. True)" for m :: "('w, 't, unit) member"
    by (rule triple_within [of "\<lambda>_ _. True"]) (simp_all add: within_def)
  have cb: "triple (\<lambda>_. True) SetPciDevicesCallback (\<lambda>_. pci_undo) (\<lambda>_. True)"
    by (simp add: triple_def SetPciDevicesCallback_def run_simps end_call_add_def pci_undo_def)
  have fin: "within pci_kept (upd_this (\<lambda>b. b\<lparr>main_proc := Some (VmProcSimple_new (emul_cmd b))\<rparr>))"
    "within pci_kept (upd_this (\<lambda>b. b\<lparr>vm_state := kVmCreated\<rparr>))"
    by (simp_all add: within_def upd_this_run pci_kept_def)
  show ?thesis
    unfolding build_tail_def
    by (rule triple_cseq [OF any], rule triple_cseq [OF any], rule triple_cseq [OF cb],
        intro step_seq [OF _ stable_pci_undo] pci_kept.frame pci_kept.procs trimmed_True fin TrueI triple_cret impI)
qed

section \<open>A guest on the reference host\<close>

text \<open>A guest with one companion process and one device, for the witnesses.\<close>

definition demo_cfg :: "ref_tree CivConfig" where
  "demo_cfg = \<lparr>cfg_data = [(''global'', [(''name'', ''civ-1'')]), (''mediation'', [(''battery_med'', ''batsys'')]),
     (''passthrough'', [(''passthrough_pci'', ''0000:00:14.0'')]),
     (''firmware'', [(''type'', ''unified''), (''path'', ''/OVMF.fd'')])]\<rparr>"

definition demo_host :: ref_world where
  "demo_host = ref_world0\<lparr>r_dirs := [''/sys/module/vfio/'', ''/sys/module/vfio_pci/'',
       ''/sys/bus/pci/devices/0000:00:14.0/iommu_group/devices''],
     r_files := [(''/c.ini'', [])], r_inis := [(''/c.ini'', cfg_data demo_cfg)],
     r_shm := [((''CivClientShm77'', ''StartVmEnv''), [''PATH=/bin'']), ((''CivClientShm77'', ''StartVmCfgPath''), [''/c.ini'']),
       ((''shm1'', ''StartVmCfgPath''), [''/c.ini'']), ((''shm1'', ''ImportVmCfgPath''), [''/c.ini''])]\<rparr>"

definition demo_state :: "(ref_world, ref_tree) build_state" where
  "demo_state = \<lparr>world = demo_host, civ_config_path = Some ''/civ'', cid_pool = initial_bs, socketPath = [],
     this = VmBuilderQemu_new ''civ-1'' demo_cfg\<rparr>"

lemmas build_defs =
  BuildVmArgs_def build_tail_def BuildEmulPath_def BuildNameQmp_def BuildRpmbCmd_def BuildDispCmd_def InitAafCfg_def
  BuildVgpuCmd_def BuildVinputCmd_def BuildAafCfg_def BuildNetCmd_def BuildVsockCmd_def BuildVtpmCmd_def BuildMemCmd_def
  BuildVcpuCmd_def BuildFirmwareCmd_def BuildVdiskCmd_def BuildPtPciDevicesCmd_def SetPciDevicesCallback_def
  RunMediationSrv_def BuildGuestTimeKeepCmd_def BuildGuestPmCtrlCmd_def BuildExtraGuestPmCtrlCmd_def BuildAudioCmd_def
  BuildExtraCmd_def BuildFixedCmd_def SetExtraServices_def flush_aaf_def

lemma demo_run:
  "case BuildVmArgs ref_env demo_state of (r, t) \<Rightarrow> r = Ret True \<and> pci_pt_dev_set (this t) = [''0000:00:14.0''] \<and>
     co_procs (this t) = [VmProcSimple_new ''batsys''] \<and> vsock_cid (this t) = 1000 \<and>
     end_call (this t) = [RestorePci] \<and> world t = world demo_state"
  by (simp add: build_defs run_simps demo_state_def demo_host_def VmBuilderQemu_new_def GetValue_def demo_cfg_def ref_defs isspace_def
      emul_append_def take_cid_def GetCid_def Find_next_def first_set_from.simps initial_bs_def GetConfigPath_cached
      GetUid_def Let_def BringDownBtHciIntf_def pt_device_def PassthroughOnePciDev_def LoadKernelModule_def
      iommu_devices_path_def kPciDevicePath_def kVfioModulePath_def kVfioPciModulePath_def oscall_throw_def
      end_call_add_def co_procs_add_def)

definition demo_built :: "(ref_world, ref_tree) build_state" where
  "demo_built = snd (BuildVmArgs ref_env demo_state)"

lemma demo_build:
  "BuildVmArgs ref_env demo_state = (Ret True, demo_built)"
  "pci_pt_dev_set (this demo_built) = [''0000:00:14.0'']" "co_procs (this demo_built) = [VmProcSimple_new ''batsys'']"
  "vsock_cid (this demo_built) = 1000" "this demo_state = VmBuilderQemu_new ''civ-1'' demo_cfg"
  "cid_pool demo_state = initial_bs" "end_call (this demo_built) = [RestorePci]" "world demo_built = world demo_state"
  using demo_run unfolding demo_built_def by (auto simp: case_prod_unfold demo_state_def intro: prod_eqI)

lemma demo_main: "main_proc (this demo_built) = Some (VmProcSimple_new (emul_cmd (this demo_built)))"
proof -
  have "unbuilt_nocid initial_bs ''civ-1'' demo_cfg demo_state"
    by (simp add: unbuilt_nocid_def unbuilt_def cid_of_def demo_build VmBuilderQemu_new_def)
  from tripleD [OF BuildVmArgs_post this demo_build(1)] show ?thesis
    by (simp add: build_post_def built_def)
qed

lemma ref_trim_law: "trim_law ref_env"
proof -
  have "\<not> blank (ref_trim s)" if ne: "ref_trim s \<noteq> []" for s
  proof -
    have "dropWhile isspace (rev (dropWhile isspace s)) \<noteq> []" using ne by (simp add: ref_trim_def)
    then have "\<not> isspace (last (ref_trim s))"
      using hd_dropWhile [of isspace "rev (dropWhile isspace s)"] by (simp add: ref_trim_def last_rev)
    moreover have "last (ref_trim s) \<in> set (ref_trim s)" using ne by (rule last_in_set)
    ultimately show ?thesis by (auto simp: blank_def isspace_def)
  qed
  then show ?thesis by (auto simp: trim_law_def trimmed_def ref_env_def)
qed

section \<open>Properties\<close>

text \<open>
  C11. What a build leaves behind, on every host and for every set of options.  If \<open>BuildVmArgs\<close> returns true the
  guest is in state Created, its main process will run the assembled command line, and the guest holds one
  context id that was free before and is no longer.  If it ends in any other way (false, an exception) the
  guest is in state Empty without a main process, and it holds no context id or one it has taken.
\<close>

theorem BuildVmArgs_result:
  assumes "this s = VmBuilderQemu_new n c" and "BuildVmArgs E s = (r, t)"
  shows "if r = Ret True
     then vm_state (this t) = kVmCreated \<and>
       main_proc (this t) = Some (VmProcSimple_new (emul_cmd (this t))) \<and>
       vsock_cid (this t) \<in> free_cids (cid_pool s) \<and>
       cid_pool t = (cid_pool s)(unat (vsock_cid (this t)) := False)
     else vm_state (this t) = kVmEmpty \<and> main_proc (this t) = None \<and>
       (vsock_cid (this t) = 0 \<and> cid_pool t = cid_pool s \<or>
        vsock_cid (this t) \<in> free_cids (cid_pool s) \<and>
        cid_pool t = (cid_pool s)(unat (vsock_cid (this t)) := False))"
proof -
  have "unbuilt_nocid (cid_pool s) n c s"
    using assms(1) by (simp add: unbuilt_nocid_def unbuilt_def cid_of_def VmBuilderQemu_new_def)
  from tripleD [OF BuildVmArgs_post this assms(2)] show ?thesis
    by (cases r) (auto simp: build_post_def built_def unbuilt_def cid_of_def split: if_splits)
qed

theorem BuildVmArgs_result_witness:
  "vm_state (this demo_built) = kVmCreated \<and> cid_pool demo_built = initial_bs(1000 := False)"
  using BuildVmArgs_result [OF demo_build(5,1)] by (simp add: demo_build)

text \<open>
  C22. The shape of the command line of every guest that is built: it starts with a program and the name of the
  guest, passes the context id the guest holds, and ends with the IOMMU device and \<open>-nodefaults\<close>, which the
  source requires to be the last arguments.
\<close>

theorem BuildVmArgs_command_line:
  assumes "BuildVmArgs E s = (Ret True, t)"
  shows "\<exists>emul mid rest. emul \<noteq> [] \<and>
     emul_cmd (this t) = emul @ '' -name '' @ trim E (GetValue E (cfg (this s)) kGroupGlob kGlobName) @ mid @
       vsock_device (vsock_cid (this t)) @ rest @ last_args"
proof -
  from tripleD [OF BuildVmArgs_cmd [of "cfg (this s)"] _ assms] have "cmd_complete E (cfg (this s)) t" by simp
  then obtain emul zs k where "emul \<noteq> []"
    "emul_cmd (this t) = emul @ '' -name '' @ guest_name E (cfg (this s)) @ zs @ vsock_device (vsock_cid (this t)) @ k @ last_args"
    by (auto simp: cmd_complete_def cmd_head_def prefix_def)
  then show ?thesis by (intro exI [of _ emul] exI [of _ zs] exI [of _ k]) (simp add: guest_name_def)
qed

theorem BuildVmArgs_command_line_witness:
  "\<exists>emul mid rest. emul \<noteq> [] \<and>
     emul_cmd (this demo_built) = emul @ '' -name '' @ ''civ-1'' @ mid @
       vsock_device (vsock_cid (this demo_built)) @ rest @ last_args"
proof -
  have "trim ref_env (GetValue ref_env (cfg (this demo_state)) kGroupGlob kGlobName) = ''civ-1''"
    by (simp add: GetValue_def demo_state_def demo_cfg_def VmBuilderQemu_new_def ref_defs isspace_def)
  with BuildVmArgs_command_line [OF demo_build(1)] show ?thesis by simp
qed

text \<open>
  C28. Devices are not forgotten: when a build succeeds and has handed PCI devices to vfio, the call that gives them
  back is queued for the end of the guest.
\<close>

theorem BuildVmArgs_restores_pci:
  assumes "BuildVmArgs E s = (Ret True, t)" and "pci_pt_dev_set (this t) \<noteq> []"
  shows "RestorePci \<in> set (end_call (this t))"
proof -
  from assms(1) obtain s1 where tl: "build_tail E s1 = (Ret True, t)"
    by (auto simp: BuildVmArgs_def ret_iffs split: if_splits)
  from tripleD [OF build_tail_undo _ tl] assms(2) show ?thesis by (simp add: pci_undo_def)
qed

theorem BuildVmArgs_restores_pci_witness: "RestorePci \<in> set (end_call (this demo_built))"
  using demo_build(1) by (rule BuildVmArgs_restores_pci) (simp add: demo_build)

text \<open>
  The companions of a guest can be started: provided \<open>boost::trim\<close> leaves no blank text, every companion process
  a build adds has a command line of its own or one that is not blank, so \<open>Run\<close> will not block on it.
\<close>

lemma BuildVmArgs_startable:
  assumes "trim_law E" and "this s = VmBuilderQemu_new n c" and "BuildVmArgs E s = (r, t)"
    and "q \<in> set (co_procs (this t))"
  shows "startable q"
  using withinD [OF adds_startable.whole [OF assms(1) [unfolded trim_law_def]] assms(3)] assms(2,4)
  by (auto simp: adds_startable_def VmBuilderQemu_new_def)



text \<open>
  C30. The context id asked for in the options is taken modulo 2^32: \<open>std::stoul\<close> reads 64 bits and the pool takes
  32.  The request is granted exactly when that number is a free id.
\<close>

theorem BuildVsockCmd_modulo:
  assumes "GetValue E (cfg (this s)) kGroupGlob kGlobCid = to_string (int n)" and "n < 2 ^ 64"
  shows "fst (BuildVsockCmd E s) = Ret (of_nat (n mod 2 ^ 32) \<in> free_cids (cid_pool s)) \<and>
     (of_nat (n mod 2 ^ 32) \<in> free_cids (cid_pool s) = False \<or>
      vsock_cid (this (snd (BuildVsockCmd E s))) = of_nat (n mod 2 ^ 32))"
proof -
  let ?c = "of_nat (n mod 2 ^ 32) :: u32"
  have "stoul (to_string (int n)) = Inr (of_nat n)"
    using assms(2) strto_digits [of "dec_digits n" "[]"] dec_digits_all_digits [of _ n]
    by (auto simp: stoul_def to_string_def digits_value_dec_digits)
  moreover have "ucast (of_nat n :: 64 word) = ?c"
    by (simp add: word_unat_eq_iff unat_of_nat unsigned_ucast_eq take_bit_eq_mod mod_mod_cancel)
  moreover have "to_string (int n) \<noteq> []" by (simp add: to_string_def)
  ultimately show ?thesis
    using assms(1) pool.take_cid_free [of ?c "cid_pool s"] pool.take_cid_refused [of ?c "cid_pool s"] pool.zero_range
      pool.free_range [of "cid_pool s"]
    by (cases "?c \<in> free_cids (cid_pool s)"; cases "GetCid_cid ?c (cid_pool s)")
      (auto simp: BuildVsockCmd_def run_simps take_cid_def emul_clear_def emul_append_def)
qed

theorem BuildVsockCmd_modulo_witness:
  "\<exists>s. GetValue ref_env (cfg (this s)) kGroupGlob kGlobCid = ''4294968296'' \<and>
     vsock_cid (this (snd (BuildVsockCmd ref_env s))) = 1000"
proof -
  let ?c = "\<lparr>cfg_data = [(''global'', [(''vsock_cid'', ''4294968296'')])]\<rparr>"
  let ?s = "demo_state\<lparr>this := VmBuilderQemu_new ''civ-1'' ?c\<rparr>"
  have digits: "to_string (int 4294968296) = ''4294968296''"
    by (simp add: to_string_def dec_digits.simps digit_char_def char_of_def bit_0 bit_Suc)
  have read: "GetValue ref_env (cfg (this ?s)) kGroupGlob kGlobCid = ''4294968296''"
    by (simp add: VmBuilderQemu_new_def GetValue_def ref_defs isspace_def)
  have "(1000 :: u32) \<in> free_cids (cid_pool ?s)"
    by (simp add: free_cids_unat demo_build initial_bs_def)
  with BuildVsockCmd_modulo [of ref_env ?s 4294968296] read digits
  have "vsock_cid (this (snd (BuildVsockCmd ref_env ?s))) = 1000" by simp
  with read show ?thesis by blast
qed

end
