(* ===== verification/Vm_Lifecycle.thy ===== *)
theory Vm_Lifecycle
  imports Build_Facts
begin

text \<open>
  Running a guest that has been built (the rest of src/guest/vm_builder_qemu.cc): \<open>SetProcessEnv\<close>, \<open>StartVm\<close>, the wait
  for the guest's ready message, \<open>WaitVmExit\<close>, \<open>StopVm\<close> and the destructor, which calls \<open>StopVm\<close>.
\<close>

section \<open>Starting\<close>

definition SetProcessEnv :: "string list \<Rightarrow> ('w, 't, unit) member" where
  "SetProcessEnv e =
     cbind (get_this main_proc) (\<lambda>p.
     case p of None \<Rightarrow> ccrash | Some q \<Rightarrow> upd_this (\<lambda>b. b\<lparr>main_proc := Some (VmProcSimple_SetEnv e q)\<rparr>))"

text \<open>\<open>for (i = 0; i < co_procs_.size(); ++i)\<close> with a body that replaces \<open>co_procs_[i]\<close>; the list does not change
  its length meanwhile.\<close>

primrec co_procs_each :: "(vm_proc \<Rightarrow> ('w, 't, vm_proc) member) \<Rightarrow> nat list \<Rightarrow> ('w, 't, unit) member" where
  "co_procs_each f [] = cret ()"
| "co_procs_each f (i # ids) =
     cbind (get_this (\<lambda>b. co_procs b ! i)) (\<lambda>q.
     cbind (f q) (\<lambda>q'.
     cseq (upd_this (\<lambda>b. b\<lparr>co_procs := (co_procs b)[i := q']\<rparr>))
     (co_procs_each f ids)))"

definition for_co_procs :: "(vm_proc \<Rightarrow> ('w, 't, vm_proc) member) \<Rightarrow> ('w, 't, unit) member" where
  "for_co_procs f = cbind (get_this (\<lambda>b. length (co_procs b))) (\<lambda>n. co_procs_each f [0..<n])"

definition SetProcLogDir :: "('w, 't) env \<Rightarrow> ('w, 't, unit) member" where
  "SetProcLogDir E =
     cbind (oscall (os_strftime E Date_HMS)) (\<lambda>t_buf.
     cbind (get_this vm_name) (\<lambda>name.
     let dir = ''/tmp/'' @ name @ ''_'' @ t_buf in
     cbind (get_this main_proc) (\<lambda>p.
     case p of None \<Rightarrow> ccrash | Some q \<Rightarrow>
     cbind (VmProcSimple_SetLogDir E dir q) (\<lambda>q'.
     cseq (upd_this (\<lambda>b. b\<lparr>main_proc := Some q'\<rparr>))
     (for_co_procs (VmProcSimple_SetLogDir E dir))))))"

definition run_if_stopped :: "('w, 't) env \<Rightarrow> vm_proc \<Rightarrow> ('w, 't, vm_proc) member" where
  "run_if_stopped E q =
     cbind (VmProcSimple_Running E q) (\<lambda>running.
     if \<not> running then VmProcess_Run E q else cret q)"

definition StartVm :: "('w, 't) env \<Rightarrow> ('w, 't, unit) member" where
  "StartVm E =
     cbind (get_this main_proc) (\<lambda>p.
     if p = None then cret () else
     cseq (SetProcLogDir E)
    (cseq (for_co_procs (run_if_stopped E))
    (cbind (get_this main_proc) (\<lambda>p.
     case p of None \<Rightarrow> ccrash | Some q \<Rightarrow>
     cbind (VmProcess_Run E q) (\<lambda>q'.
     cseq (upd_this (\<lambda>b. b\<lparr>main_proc := Some q'\<rparr>))
     (upd_this (\<lambda>b. b\<lparr>vm_state := kVmBooting\<rparr>)))))))"

section \<open>Waiting for the guest\<close>

definition SetVmReady :: "('w, 't, unit) member" where
  "SetVmReady =
     cseq (upd_this (\<lambda>b. b\<lparr>vm_ready_latch := vm_ready_latch b - 1\<rparr>))
     (upd_this (\<lambda>b. b\<lparr>vm_state := kVmRunning\<rparr>))"

text \<open>
  The wait on the latch lasts at most a second; during it the listener may call \<open>SetVmReady\<close> from its own
  thread.  The schedule \<open>ready\<close> says in which of the waits (counted from 1) that happens, so the loop is
  considered under every interleaving.
\<close>

function WaitVmReady_loop :: "('w, 't) env \<Rightarrow> (nat \<Rightarrow> bool) \<Rightarrow> nat \<Rightarrow> ('w, 't, bool) member" where
  "WaitVmReady_loop E ready wait_cnt =
     (if wait_cnt < 200 then
        cbind (get_this main_proc) (\<lambda>p.
        case p of None \<Rightarrow> ccrash | Some q \<Rightarrow>
        cbind (VmProcSimple_Running E q) (\<lambda>running.
        if \<not> running then cret False else
        cseq (oscall (os_sleep E))
       (cseq (cwhen (ready (Suc wait_cnt)) SetVmReady)
       (cbind (get_this vm_state) (\<lambda>st.
        if st = kVmRunning then cret True
        else WaitVmReady_loop E ready (Suc wait_cnt))))))
      else cret False)"
  by pat_completeness auto
termination
  by (relation "measure (\<lambda>(_, _, wait_cnt). 200 - wait_cnt)") auto

declare WaitVmReady_loop.simps [simp del]

definition WaitVmReady :: "('w, 't) env \<Rightarrow> (nat \<Rightarrow> bool) \<Rightarrow> ('w, 't, bool) member" where
  "WaitVmReady E ready = WaitVmReady_loop E ready 0"

definition PauseVm :: "('w, 't, unit) member" where "PauseVm = cret ()"

definition WaitVmExit :: "('w, 't) env \<Rightarrow> ('w, 't, unit) member" where
  "WaitVmExit E =
     cbind (get_this main_proc) (\<lambda>p.
     case p of None \<Rightarrow> cret () | Some q \<Rightarrow> VmProcSimple_Join E q)"

section \<open>Stopping\<close>

text \<open>The closures of \<open>end_call_\<close>; their results are thrown away.\<close>

definition run_end_call :: "('w, 't) env \<Rightarrow> end_call_fn \<Rightarrow> ('w, 't, unit) member" where
  "run_end_call E f = (case f of
       ProbeSnd \<Rightarrow> cbind (system_call E ''modprobe snd-sof-pci-intel-tgl'') (\<lambda>_. cret ())
     | RestorePci \<Rightarrow>
         cbind (get_this pci_pt_dev_set) (\<lambda>devs.
         cfor devs (\<lambda>it. cbind (PassthroughOnePciDev E (Some it) kPciRestore) (\<lambda>_. cret ())))
     | RemovePmSocket \<Rightarrow>
         cbind (cget socketPath) (\<lambda>p. cbind (oscall (fs_remove E p)) (\<lambda>_. cret ())))"

text \<open>
  \<open>while (!end_call_.empty()) { end_call_.front()(); end_call_.pop(); }\<close>: no closure changes the queue, so the loop
  goes through the calls that are queued when it starts.
\<close>

primrec end_call_loop :: "('w, 't) env \<Rightarrow> end_call_fn list \<Rightarrow> ('w, 't, unit) member" where
  "end_call_loop E [] = cret ()"
| "end_call_loop E (f # fs) =
     cseq (run_end_call E f)
    (cseq (upd_this (\<lambda>b. b\<lparr>end_call := tl (end_call b)\<rparr>))
     (end_call_loop E fs))"

definition release_cid :: "('w, 't, unit) member" where
  "release_cid = cmodify (\<lambda>s. s\<lparr>cid_pool := snd (ReleaseCid (vsock_cid (this s)) (cid_pool s))\<rparr>)"

text \<open>\<open>co_procs_.clear()\<close> destroys the processes.\<close>

definition clear_co_procs :: "('w, 't) env \<Rightarrow> ('w, 't, unit) member" where
  "clear_co_procs E =
     cbind (get_this co_procs) (\<lambda>ps.
     cseq (cfor ps (VmProcess_delete E))
     (upd_this (\<lambda>b. b\<lparr>co_procs := []\<rparr>)))"

definition StopVm :: "('w, 't) env \<Rightarrow> ('w, 't, unit) member" where
  "StopVm E =
     cbind (get_this main_proc) (\<lambda>p.
     cseq (case p of None \<Rightarrow> cret () | Some q \<Rightarrow>
             cbind (VmProcess_Stop E q) (\<lambda>q'. upd_this (\<lambda>b. b\<lparr>main_proc := Some q'\<rparr>)))
    (cseq (for_co_procs (VmProcess_Stop E))
    (cseq (clear_co_procs E)
    (cseq release_cid
    (cbind (get_this end_call) (end_call_loop E))))))"

text \<open>The destructor, then those of the members: the main process is the one with something to do.\<close>

definition VmBuilderQemu_delete :: "('w, 't) env \<Rightarrow> ('w, 't, unit) member" where
  "VmBuilderQemu_delete E =
     cseq (ctry (StopVm E) (\<lambda>_. ccrash))
    (cbind (get_this main_proc) (\<lambda>p.
     case p of None \<Rightarrow> cret () | Some q \<Rightarrow> VmProcess_delete E q))"

section \<open>What stopping does to the pool\<close>

definition keep_cid :: "('w, 't) build_state \<Rightarrow> ('w, 't) build_state \<Rightarrow> bool" where
  "keep_cid s t \<longleftrightarrow> cid_pool t = cid_pool s \<and> vsock_cid (this t) = vsock_cid (this s)"

interpretation keep_cid: state_preorder keep_cid
  by unfold_locales (auto simp: keep_cid_def)

lemma keep_cid_host:
  fixes m :: "('w, 't, 'a) member"
  shows "within only_world m \<Longrightarrow> within keep_cid m"
  by (erule within_mono) (auto simp: only_world_def keep_cid_def)

lemma keep_cid_get: "within keep_cid (get_this f)"
  unfolding get_this_def by (rule keep_cid.within_cget)

lemma keep_cid_upd:
  "(\<And>b :: 't builder. vsock_cid (f b) = vsock_cid b) \<Longrightarrow> within keep_cid (upd_this f :: ('w, 't, unit) member)"
  by (simp add: within_def upd_this_run keep_cid_def)

lemma keep_cid_each:
  assumes "\<And>q. within only_world (f q)"
  shows "within keep_cid (co_procs_each f ids)"
  by (induction ids)
    (auto intro!: keep_cid.within_cret keep_cid.within_cbind keep_cid.within_cseq keep_cid_get keep_cid_upd
      keep_cid_host [OF assms])

lemma keep_cid_for_co_procs: "(\<And>q. within only_world (f q)) \<Longrightarrow> within keep_cid (for_co_procs f)"
  unfolding for_co_procs_def by (intro keep_cid.compose keep_cid_get keep_cid_each)

lemma keep_cid_clear: "within keep_cid (clear_co_procs E)"
  unfolding clear_co_procs_def
  by (intro keep_cid.compose keep_cid_get keep_cid_upd keep_cid_host only_world_proc) simp

lemma keep_cid_run_end_call: "within keep_cid (run_end_call E f)"
  unfolding run_end_call_def
  by (cases f)
    (simp_all, (intro keep_cid.compose keep_cid_get keep_cid_host only_world_PassthroughOnePciDev only_world_oscall
        only_world_system_call)+)

lemma keep_cid_end_calls: "within keep_cid (end_call_loop E fs)"
  by (induction fs) (auto intro!: keep_cid.compose keep_cid_run_end_call keep_cid_upd)

lemma end_call_kept: "run_end_call E f s = (r, t) \<Longrightarrow> this t = this s"
proof -
  assume run: "run_end_call E f s = (r, t)"
  have "within only_world (run_end_call E f)"
    unfolding run_end_call_def get_this_def
    by (cases f) (simp_all, (intro only_world_dev only_world_intros)+)
  from withinD [OF this run] show ?thesis by (auto simp: only_world_def)
qed

lemma end_call_loop_empties:
  "end_call_loop E fs s = (Ret (), t) \<Longrightarrow> end_call (this s) = fs @ gs \<Longrightarrow> this t = (this s)\<lparr>end_call := gs\<rparr>"
proof (induction fs arbitrary: s)
  case (Cons f fs)
  then obtain s1 where f: "run_end_call E f s = (Ret (), s1)"
    and l: "end_call_loop E fs (s1\<lparr>this := (this s1)\<lparr>end_call := tl (end_call (this s1))\<rparr>\<rparr>) = (Ret (), t)"
    by (auto simp: ret_iffs)
  have "this t = (this (s1\<lparr>this := (this s1)\<lparr>end_call := tl (end_call (this s1))\<rparr>\<rparr>))\<lparr>end_call := gs\<rparr>"
    by (rule Cons.IH [OF l]) (simp add: end_call_kept [OF f] Cons.prems)
  then show ?case by (simp add: end_call_kept [OF f])
qed (simp add: ret_iffs)

definition main_stop :: "('w, 't) env \<Rightarrow> vm_proc option \<Rightarrow> ('w, 't, unit) member" where
  "main_stop E p = (case p of None \<Rightarrow> cret () | Some q \<Rightarrow>
     cbind (VmProcess_Stop E q) (\<lambda>q'. upd_this (\<lambda>b. b\<lparr>main_proc := Some q'\<rparr>)))"

lemma keep_cid_main_stop: "within keep_cid (main_stop E p)"
  unfolding main_stop_def
  by (cases p) (auto intro!: keep_cid.compose keep_cid_upd keep_cid_host [OF only_world_VmProcess_Stop])

lemma StopVm_Ret:
  assumes "StopVm E s = (Ret (), t)"
  shows "cid_pool t = snd (ReleaseCid (vsock_cid (this s)) (cid_pool s))"
    "vsock_cid (this t) = vsock_cid (this s)" "end_call (this t) = []" "co_procs (this t) = []"
proof -
  obtain s1 s2 s3 where m: "main_stop E (main_proc (this s)) s = (Ret (), s1)"
    and c: "for_co_procs (VmProcess_Stop E) s1 = (Ret (), s2)" and d: "clear_co_procs E s2 = (Ret (), s3)"
    and e: "end_call_loop E (end_call (this s3)) (s3\<lparr>cid_pool := snd (ReleaseCid (vsock_cid (this s3)) (cid_pool s3))\<rparr>) = (Ret (), t)"
    using assms by (auto simp: StopVm_def release_cid_def ret_iffs main_stop_def)
  have "keep_cid s s3"
    using withinD [OF keep_cid_main_stop m] withinD [OF keep_cid_for_co_procs c] withinD [OF keep_cid_clear d]
    by (auto intro: keep_cid.trans only_world_VmProcess_Stop)
  then show "cid_pool t = snd (ReleaseCid (vsock_cid (this s)) (cid_pool s))" "vsock_cid (this t) = vsock_cid (this s)"
    using withinD [OF keep_cid_end_calls e] by (auto simp: keep_cid_def)
  have "this t = (this s3)\<lparr>end_call := []\<rparr>" using end_call_loop_empties [OF e, of "[]"] by simp
  moreover have "co_procs (this s3) = []" using d by (auto simp: clear_co_procs_def ret_iffs)
  ultimately show "end_call (this t) = []" "co_procs (this t) = []" by simp_all
qed

section \<open>Starting does not block\<close>

lemma live_oscall:
  assumes "\<And>s w. P s \<Longrightarrow> P (s\<lparr>world := w\<rparr>)"
  shows "live P (oscall f) (\<lambda>_. P)"
  using assms by (auto simp: live_def oscall_def split: prod.splits)

lemma live_get_this: "live P (get_this f) (\<lambda>x s. P s \<and> x = f (this s))"
  by (auto simp: live_def run_simps)

text \<open>A call that only touches the world, from a state predicate that ignores the world.\<close>

lemma live_world:
  assumes "within only_world m" and "\<And>s. P s \<Longrightarrow> fst (m s) \<noteq> Hang" and "\<And>s w. P s \<Longrightarrow> P (s\<lparr>world := w\<rparr>)"
    and "\<And>s x t. P s \<Longrightarrow> m s = (Ret x, t) \<Longrightarrow> Q x"
  shows "live P m (\<lambda>x s. P s \<and> Q x)"
proof (rule liveI)
  fix s x t assume "P s" and run: "m s = (Ret x, t)"
  moreover obtain w where "t = s\<lparr>world := w\<rparr>" by (rule only_worldE [OF assms(1) run])
  ultimately show "P t \<and> Q x" using assms(3,4) by blast
qed (rule assms(2))

lemma not_Hang_oscall [simp]: "fst (oscall f s) \<noteq> Hang"
  by (simp add: oscall_def split: prod.splits)

lemma not_Hang_SetLogDir: "fst (VmProcSimple_SetLogDir E dir q s) \<noteq> Hang"
  by (simp add: VmProcSimple_SetLogDir_def run_simps split: prod.splits)

lemma SetLogDir_startable:
  "VmProcSimple_SetLogDir E dir q s = (Ret q', t) \<Longrightarrow> startable q \<Longrightarrow> startable q'"
  by (auto simp: VmProcSimple_SetLogDir_def ret_iffs startable_def split: if_splits)

lemma startable_exe: "startable q \<Longrightarrow> kind q = ProcSimple \<Longrightarrow> exe_of (cmd q) \<noteq> None"
  by (simp add: startable_def exe_of_None_iff blank_def)

lemma live_Run:
  assumes "child_latch q = 1" and "x \<in> set c" "x \<noteq> CHR '' ''"
  shows "live P (VmProcSimple_Run E (q\<lparr>cmd := c\<rparr>)) (\<lambda>_ _. True)"
  by (rule liveI, rule Run_not_Hang) (use assms in \<open>auto simp: exe_of_None_iff\<close>)

lemma live_VmProcess_Run:
  fixes q :: vm_proc
  assumes "startable q"
  shows "live (\<lambda>_. True) (VmProcess_Run E q) (\<lambda>_ _. True)"
proof -
  have latch: "child_latch q = 1" using assms by (simp add: startable_def)
  have sys: "live (\<lambda>_. True) (system_call E c) (\<lambda>_ _. True)" for c
    unfolding system_call_def oscall_throw_def
    by (auto simp: live_def run_simps split: prod.splits option.splits)
  have os: "live (\<lambda>_. True) (oscall f) (\<lambda>_ _. True)" for f
    by (rule live_oscall) simp
  note run = live_Run [OF latch, of "CHR ''-''"]
  show ?thesis
  proof (cases "kind q")
    case ProcSimple
    then show ?thesis
      by (simp add: VmProcess_Run_def live_def Run_not_Hang [OF latch startable_exe [OF assms]])
  next
    case (CoProcRpmb bin dir sock)
    have "live (\<lambda>_. True) (VmCoProcRpmb_Run E bin dir sock q) (\<lambda>_ _. True)"
      unfolding VmCoProcRpmb_Run_def
      by (intro live_cbind [where R = "\<lambda>_ _. True"] os live_if sys live_cret TrueI run) simp_all
    with CoProcRpmb show ?thesis by (simp add: VmProcess_Run_def)
  next
    case (CoProcVtpm bin dir)
    have "live (\<lambda>_. True) (VmCoProcVtpm_Run E bin dir q) (\<lambda>_ _. True)"
      unfolding VmCoProcVtpm_Run_def
      by (intro live_cbind [where R = "\<lambda>_ _. True"] os live_if live_cret TrueI run) simp_all
    with CoProcVtpm show ?thesis by (simp add: VmProcess_Run_def)
  qed
qed

lemma run_if_stopped_not_Hang: "startable q \<Longrightarrow> fst (run_if_stopped E q s) \<noteq> Hang"
proof -
  assume q: "startable q"
  have "live (\<lambda>_. True) (run_if_stopped E q) (\<lambda>_ _. True)"
    unfolding run_if_stopped_def
    by (intro live_cbind [where R = "\<lambda>_ _. True"] live_if live_VmProcess_Run [OF q] live_cret)
      (auto simp: live_def VmProcSimple_Running_def run_simps split: option.splits prod.splits)
  then show ?thesis by (rule liveD) simp
qed

lemma only_world_run_if_stopped: "within only_world (run_if_stopped E q)"
  unfolding run_if_stopped_def by (intro only_world_intros only_world_proc)

text \<open>
  \<open>ready_from ids s\<close>: the main process can be started, and so can the companions at the positions \<open>ids\<close>;
  \<open>all_ready s\<close>: so can all companions.
\<close>

definition main_ready :: "('w, 't) build_state \<Rightarrow> bool" where
  "main_ready s \<longleftrightarrow> (\<exists>q. main_proc (this s) = Some q \<and> startable q)"

definition ready_from :: "nat list \<Rightarrow> ('w, 't) build_state \<Rightarrow> bool" where
  "ready_from ids s \<longleftrightarrow> main_ready s \<and> distinct ids \<and>
     (\<forall>i\<in>set ids. i < length (co_procs (this s)) \<and> startable (co_procs (this s) ! i))"

definition all_ready :: "('w, 't) build_state \<Rightarrow> bool" where
  "all_ready s \<longleftrightarrow> main_ready s \<and> (\<forall>q\<in>set (co_procs (this s)). startable q)"

lemma ready_world:
  "main_ready s \<Longrightarrow> main_ready (s\<lparr>world := w\<rparr>)" "ready_from ids s \<Longrightarrow> ready_from ids (s\<lparr>world := w\<rparr>)"
  "all_ready s \<Longrightarrow> all_ready (s\<lparr>world := w\<rparr>)"
  by (simp_all add: ready_from_def main_ready_def all_ready_def)

lemma live_each:
  assumes world: "\<And>q. within only_world (f q)" and ok: "\<And>q s. startable q \<Longrightarrow> fst (f q s) \<noteq> Hang"
  shows "live (ready_from ids) (co_procs_each f ids) (\<lambda>_. main_ready)"
proof (induction ids)
  case (Cons i ids)
  have 1: "live (ready_from (i # ids)) (get_this (\<lambda>b. co_procs b ! i)) (\<lambda>q s. ready_from (i # ids) s \<and> startable q)"
    by (rule live_conseq [OF live_get_this]) (auto simp: ready_from_def)
  have 2: "live (\<lambda>s. ready_from (i # ids) s \<and> startable q) (f q) (\<lambda>q'. ready_from (i # ids))" for q
    by (rule live_conseq [OF live_world [OF world, where Q = "\<lambda>_. True" and P = "\<lambda>s. ready_from (i # ids) s \<and> startable q"]])
      (auto simp: ok ready_world)
  have 3: "live (ready_from (i # ids)) (upd_this (\<lambda>b. b\<lparr>co_procs := (co_procs b)[i := q']\<rparr>)) (\<lambda>_. ready_from ids)" for q'
    by (auto simp: live_def run_simps ready_from_def main_ready_def nth_list_update)
  show ?case
    unfolding co_procs_each.simps by (rule live_cbind [OF 1 live_cbind [OF 2 live_cseq [OF 3 Cons.IH]]])
qed (auto simp: live_def run_simps ready_from_def)

lemma live_each_keep:
  assumes world: "\<And>q. within only_world (f q)" and ok: "\<And>q s. startable q \<Longrightarrow> fst (f q s) \<noteq> Hang"
    and keep: "\<And>q s q' t. f q s = (Ret q', t) \<Longrightarrow> startable q \<Longrightarrow> startable q'"
  shows "live (\<lambda>s. all_ready s \<and> set ids \<subseteq> {..<length (co_procs (this s))}) (co_procs_each f ids) (\<lambda>_. all_ready)"
proof (induction ids)
  case (Cons i ids)
  let ?P = "\<lambda>s. all_ready s \<and> set (i # ids) \<subseteq> {..<length (co_procs (this s))}"
  have 1: "live ?P (get_this (\<lambda>b. co_procs b ! i)) (\<lambda>q s. ?P s \<and> startable q)"
    by (rule live_conseq [OF live_get_this]) (auto simp: all_ready_def)
  have 2: "live (\<lambda>s. ?P s \<and> startable q) (f q) (\<lambda>q' s. ?P s \<and> startable q')" for q
    by (rule live_conseq [OF live_world [OF world, where Q = startable and P = "\<lambda>s. ?P s \<and> startable q"]])
      (auto simp: ok ready_world dest: keep)
  have 3: "live (\<lambda>s. ?P s \<and> startable q') (upd_this (\<lambda>b. b\<lparr>co_procs := (co_procs b)[i := q']\<rparr>))
      (\<lambda>_ s. all_ready s \<and> set ids \<subseteq> {..<length (co_procs (this s))})" for q'
    using set_update_subset_insert [of _ i q']
    by (fastforce simp: live_def run_simps all_ready_def main_ready_def)
  show ?case
    unfolding co_procs_each.simps by (rule live_cbind [OF 1 live_cbind [OF 2 live_cseq [OF 3 Cons.IH]]])
qed (auto simp: live_def run_simps)

lemma live_for_co_procs:
  assumes "\<And>n. live (\<lambda>s. P s \<and> n = length (co_procs (this s))) (co_procs_each f [0..<n]) Q"
  shows "live P (for_co_procs f) Q"
  unfolding for_co_procs_def by (rule live_cbind [OF live_get_this assms])

lemma live_SetProcLogDir: "live all_ready (SetProcLogDir E) (\<lambda>_. all_ready)"
proof -
  have dir: "live all_ready (for_co_procs (VmProcSimple_SetLogDir E dir)) (\<lambda>_. all_ready)" for dir
    by (rule live_for_co_procs, rule live_conseq [OF live_each_keep [OF only_world_SetLogDir not_Hang_SetLogDir SetLogDir_startable]])
      auto
  have main: "live (\<lambda>s. all_ready s \<and> p = main_proc (this s))
      (case p of None \<Rightarrow> ccrash | Some q \<Rightarrow>
       cbind (VmProcSimple_SetLogDir E d q) (\<lambda>q'.
       cseq (upd_this (\<lambda>b. b\<lparr>main_proc := Some q'\<rparr>)) (for_co_procs (VmProcSimple_SetLogDir E d)))) (\<lambda>_. all_ready)" for p d
  proof (cases p)
    case (Some q)
    have 1: "live (\<lambda>s. all_ready s \<and> p = main_proc (this s)) (VmProcSimple_SetLogDir E d q) (\<lambda>q' s. all_ready s \<and> startable q')"
      by (rule live_conseq [OF live_world [OF only_world_SetLogDir, where Q = startable and P = "\<lambda>s. all_ready s \<and> startable q"]])
        (auto simp: not_Hang_SetLogDir ready_world Some all_ready_def main_ready_def dest: SetLogDir_startable)
    have 2: "live (\<lambda>s. all_ready s \<and> startable q') (upd_this (\<lambda>b. b\<lparr>main_proc := Some q'\<rparr>)) (\<lambda>_. all_ready)" for q'
      by (auto simp: live_def run_simps all_ready_def main_ready_def)
    show ?thesis unfolding Some option.case by (rule live_cbind [OF 1 [unfolded Some] live_cseq [OF 2 dir]])
  qed (simp add: live_ccrash)
  have os: "live all_ready (oscall (os_strftime E Date_HMS)) (\<lambda>_. all_ready)"
    by (rule live_oscall) (rule ready_world)
  have nm: "live all_ready (get_this vm_name) (\<lambda>_. all_ready)"
    by (rule live_conseq [OF live_get_this]) auto
  show ?thesis
    unfolding SetProcLogDir_def Let_def by (rule live_cbind [OF os live_cbind [OF nm live_cbind [OF live_get_this main]]])
qed

lemma live_StartVm: "live all_ready (StartVm E) (\<lambda>_ _. True)"
proof -
  have procs: "live all_ready (for_co_procs (run_if_stopped E)) (\<lambda>_. main_ready)"
    by (rule live_for_co_procs, rule live_conseq [OF live_each [OF only_world_run_if_stopped run_if_stopped_not_Hang]])
      (auto simp: ready_from_def all_ready_def)
  have upd: "live P (upd_this f) (\<lambda>_ _. True)" for P :: "('w, 't) build_state \<Rightarrow> bool" and f
    by (simp add: live_def run_simps)
  have main: "live (\<lambda>s. main_ready s \<and> p = main_proc (this s))
      (case p of None \<Rightarrow> ccrash | Some q \<Rightarrow>
       cbind (VmProcess_Run E q) (\<lambda>q'.
       cseq (upd_this (\<lambda>b. b\<lparr>main_proc := Some q'\<rparr>)) (upd_this (\<lambda>b. b\<lparr>vm_state := kVmBooting\<rparr>)))) (\<lambda>_ _. True)" for p
  proof (cases p)
    case (Some q)
    have "live (\<lambda>s. main_ready s \<and> p = main_proc (this s)) (VmProcess_Run E q) (\<lambda>_ _. True)"
      unfolding live_def using live_VmProcess_Run [of q E] by (auto simp: main_ready_def Some live_def)
    then show ?thesis unfolding Some option.case by (rule live_cbind [OF _ live_cseq [OF upd upd]])
  qed (simp add: live_ccrash)
  show ?thesis
    unfolding StartVm_def
    by (rule live_cbind [OF live_get_this], rule live_if, rule live_cret, simp,
        rule live_conseq [OF live_cseq [OF live_SetProcLogDir live_cseq [OF procs live_cbind [OF live_get_this main]]]]) auto
qed

section \<open>Properties\<close>

lemma cid_of_released:
  "cid_of p s \<Longrightarrow> snd (ReleaseCid (vsock_cid (this s)) (cid_pool s)) = p"
  by (auto simp: cid_of_def ReleaseCid_def free_cids_unat cid_range_unat fun_upd_idem)

lemma delete_Ret:
  assumes "VmBuilderQemu_delete E s = (Ret (), t)"
  shows "\<exists>s1. StopVm E s = (Ret (), s1) \<and> cid_pool t = cid_pool s1"
proof -
  from assms obtain s1 where st: "StopVm E s = (Ret (), s1)"
    and m: "(case main_proc (this s1) of None \<Rightarrow> cret () | Some q \<Rightarrow> VmProcess_delete E q) s1 = (Ret (), t)"
    by (auto simp: VmBuilderQemu_delete_def ret_iffs ctry_def ccrash_def split: outcome.splits prod.splits)
  have "cid_pool t = cid_pool s1"
    using m by (cases "main_proc (this s1)")
      (auto simp: ret_iffs dest!: withinD [OF only_world_VmProcess_delete] simp: only_world_def)
  with st show ?thesis by blast
qed

text \<open>However a build ends, the object holds no context id or one that was free, and destroying it gives that back.\<close>

lemma BuildVmArgs_cid_of:
  assumes "this s = VmBuilderQemu_new n c" and "BuildVmArgs E s = (r, s1)"
  shows "cid_of (cid_pool s) s1"
proof -
  have "unbuilt_nocid (cid_pool s) n c s"
    using assms(1) by (simp add: unbuilt_nocid_def unbuilt_def cid_of_def VmBuilderQemu_new_def)
  from tripleD [OF BuildVmArgs_post this assms(2)] show ?thesis
    by (cases r) (auto simp: build_post_def built_def unbuilt_def split: if_splits)
qed

lemma delete_releases:
  assumes "cid_of p s" and "VmBuilderQemu_delete E s = (Ret (), t)"
  shows "cid_pool t = p"
proof -
  obtain s2 where "StopVm E s = (Ret (), s2)" "cid_pool t = cid_pool s2" using delete_Ret [OF assms(2)] by blast
  with assms(1) show ?thesis by (simp add: StopVm_Ret(1) cid_of_released)
qed

text \<open>
  C10. No context id leaks.  Whatever becomes of a build (success, refusal, an exception at any step), destroying the
  object afterwards leaves the pool exactly as it was before the build.
\<close>

theorem build_delete_pool:
  assumes "this s = VmBuilderQemu_new n c" and "BuildVmArgs E s = (r, s1)"
    and "VmBuilderQemu_delete E s1 = (Ret (), t)"
  shows "cid_pool t = cid_pool s"
  by (rule delete_releases [OF BuildVmArgs_cid_of [OF assms(1,2)] assms(3)])

lemmas stop_eval =
  StopVm_def for_co_procs_def clear_co_procs_def release_cid_def VmProcess_Stop_def VmProcess_delete_def
  VmProcSimple_Stop_def run_end_call_def PassthroughOnePciDev_def LoadKernelModule_def iommu_devices_path_def
  kPciDevicePath_def kVfioModulePath_def kVfioPciModulePath_def oscall_throw_def Let_def

lemma demo_delete: "\<exists>t. VmBuilderQemu_delete ref_env demo_built = (Ret (), t)"
proof -
  have w: "world demo_state = demo_host" by (simp add: demo_state_def)
  show ?thesis
    by (simp add: VmBuilderQemu_delete_def stop_eval run_simps demo_main demo_build w demo_host_def VmProcSimple_new_def ref_defs)
qed

theorem build_delete_pool_witness:
  "\<exists>t. VmBuilderQemu_delete ref_env demo_built = (Ret (), t) \<and> cid_pool t = initial_bs"
proof -
  obtain t where t: "VmBuilderQemu_delete ref_env demo_built = (Ret (), t)" using demo_delete ..
  with build_delete_pool [OF demo_build(5,1) t] show ?thesis by (auto simp: demo_build)
qed

text \<open>
  C34. What \<open>StopVm\<close> leaves: no companion process, no pending call, and the context id of the object free in the pool
  with every other bit as it was.  The object keeps the number, so a second \<open>StopVm\<close> (the destructor calls
  it) frees the id again, also when another guest has taken it in between.
\<close>

theorem StopVm_frees_cid:
  assumes "StopVm E s = (Ret (), t)" and "vsock_cid (this s) \<in> cid_range"
  shows "co_procs (this t) = [] \<and> end_call (this t) = [] \<and>
     cid_pool t = (cid_pool s)(unat (vsock_cid (this s)) := True) \<and> vsock_cid (this t) = vsock_cid (this s)"
  using StopVm_Ret [OF assms(1)] assms(2) by (auto simp: ReleaseCid_def mem_cid_range cid_range_unat)

theorem StopVm_frees_cid_witness:
  "\<exists>s t. vsock_cid (this s) = 1000 \<and> cid_pool s = initial_bs(1000 := False) \<and> StopVm ref_env s = (Ret (), t) \<and>
     cid_pool t = initial_bs"
proof -
  let ?s = "demo_state\<lparr>this := (VmBuilderQemu_new ''civ-1'' demo_cfg)\<lparr>vsock_cid := 1000\<rparr>, cid_pool := initial_bs(1000 := False)\<rparr>"
  have run: "\<exists>t. StopVm ref_env ?s = (Ret (), t)"
    by (simp add: stop_eval run_simps VmBuilderQemu_new_def)
  then obtain t where t: "StopVm ref_env ?s = (Ret (), t)" ..
  have "cid_pool t = initial_bs"
    using StopVm_frees_cid [OF t] by (simp add: mem_cid_range initial_bs_def fun_upd_idem)
  with t show ?thesis by (intro exI [of _ ?s] exI [of _ t]) simp
qed

lemma built_all_ready:
  assumes "trim_law E" and "this s = VmBuilderQemu_new n c" and "BuildVmArgs E s = (Ret True, t)"
  shows "all_ready t"
proof -
  have "unbuilt_nocid (cid_pool s) n c s"
    using assms(2) by (simp add: unbuilt_nocid_def unbuilt_def cid_of_def VmBuilderQemu_new_def)
  from tripleD [OF BuildVmArgs_post this assms(3)]
  have main: "main_proc (this t) = Some (VmProcSimple_new (emul_cmd (this t)))"
    by (simp add: build_post_def built_def)
  from tripleD [OF BuildVmArgs_cmd [of "cfg (this s)"] _ assms(3)] have "CHR ''-'' \<in> set (emul_cmd (this t))"
    by (auto simp: cmd_complete_def last_args_def)
  then have "main_ready t" using main by (auto simp: main_ready_def blank_def intro!: startable_new)
  moreover have "\<forall>q\<in>set (co_procs (this t)). startable q"
    using withinD [OF adds_startable.whole [OF assms(1) [unfolded trim_law_def]] assms(3)] assms(2)
    by (auto simp: adds_startable_def VmBuilderQemu_new_def)
  ultimately show ?thesis by (simp add: all_ready_def)
qed

text \<open>
  C35. Starting a guest that was built never blocks: on any host, provided \<open>boost::trim\<close> leaves no blank text, \<open>StartVm\<close>
  launches the companions and the emulator or ends in an exception, but none of the latches it waits on stays
  closed.
\<close>

theorem StartVm_does_not_block:
  assumes "trim_law E" and "this s = VmBuilderQemu_new n c" and "BuildVmArgs E s = (Ret True, t)"
  shows "fst (StartVm E t) \<noteq> Hang"
  by (rule liveD [OF live_StartVm built_all_ready [OF assms]])

theorem StartVm_does_not_block_witness: "fst (StartVm ref_env demo_built) \<noteq> Hang"
  by (rule StartVm_does_not_block [OF ref_trim_law demo_build(5,1)])

lemma WaitVmReady_loop_result:
  assumes "main_proc (this s) = Some q" and "child q = Some pid" and "vm_state (this s) \<noteq> kVmRunning"
    and run: "\<And>w. fst (proc_running E pid w)"
  shows "\<exists>t. WaitVmReady_loop E ready n s = (Ret (\<exists>i. n < i \<and> i \<le> 200 \<and> ready i), t)"
  using assms(1-3)
proof (induction "200 - n" arbitrary: n s rule: less_induct)
  case less
  show ?case
  proof (cases "n < 200")
    case True
    obtain w1 where w1: "proc_running E pid (world s) = (True, w1)"
      using run [of "world s"] by (cases "proc_running E pid (world s)") simp
    obtain w2 where w2: "os_sleep E w1 = ((), w2)" by (cases "os_sleep E w1") simp
    let ?s = "s\<lparr>world := w2\<rparr>"
    show ?thesis
    proof (cases "ready (Suc n)")
      case True
      have "(\<exists>i. n < i \<and> i \<le> 200 \<and> ready i) = True" using \<open>n < 200\<close> True by (intro eqTrueI exI [of _ "Suc n"]) simp
      moreover have "\<exists>t. WaitVmReady_loop E ready n s = (Ret True, t)"
        using \<open>n < 200\<close> less.prems True
        by (subst WaitVmReady_loop.simps) (simp add: run_simps VmProcSimple_Running_def w1 w2 SetVmReady_def)
      ultimately show ?thesis by simp
    next
      case False
      have step: "WaitVmReady_loop E ready n s = WaitVmReady_loop E ready (Suc n) ?s"
        using \<open>n < 200\<close> less.prems False
        by (subst WaitVmReady_loop.simps) (simp add: run_simps VmProcSimple_Running_def w1 w2)
      have "(\<exists>i. Suc n < i \<and> i \<le> 200 \<and> ready i) = (\<exists>i. n < i \<and> i \<le> 200 \<and> ready i)"
        using False by (metis Suc_lessI Suc_lessD)
      with less.hyps [of "Suc n" ?s] less.prems \<open>n < 200\<close> step show ?thesis by simp
    qed
  next
    case False
    then show ?thesis by (subst WaitVmReady_loop.simps) (auto simp: run_simps)
  qed
qed

text \<open>
  C19. The wait for a guest ends.  While the emulator keeps running, \<open>WaitVmReady\<close> returns after at most 200 waits of a
  second, under every interleaving with the listener; it returns true exactly when the guest reported ready
  during one of them.
\<close>

theorem WaitVmReady_iff:
  assumes "main_proc (this s) = Some q" and "child q = Some pid" and "vm_state (this s) \<noteq> kVmRunning"
    and "\<And>w. fst (proc_running E pid w)"
  shows "fst (WaitVmReady E ready s) = Ret (\<exists>i\<in>{1..200}. ready i)"
proof -
  have "(\<exists>i. 0 < i \<and> i \<le> 200 \<and> ready i) = (\<exists>i\<in>{1..200}. ready i)"
    by (simp add: Bex_def Suc_le_eq conj_assoc)
  moreover obtain t where "WaitVmReady_loop E ready 0 s = (Ret (\<exists>i. 0 < i \<and> i \<le> 200 \<and> ready i), t)"
    using WaitVmReady_loop_result [OF assms(1-3), of E ready 0] assms(4) by blast
  ultimately show ?thesis by (simp add: WaitVmReady_def)
qed

theorem WaitVmReady_iff_witness:
  "\<exists>(s :: (ref_world, ref_tree) build_state) E. vm_state (this s) = kVmBooting \<and> fst (WaitVmReady E (\<lambda>i. i = 3) s) = Ret True"
proof -
  let ?q = "(VmProcSimple_new ''/usr/bin/qemu'')\<lparr>child := Some 1, mon := True\<rparr>"
  let ?s = "demo_state\<lparr>this := (VmBuilderQemu_new ''civ-1'' demo_cfg)\<lparr>main_proc := Some ?q, vm_state := kVmBooting\<rparr>\<rparr>"
  let ?E = "ref_env\<lparr>proc_running := (\<lambda>pid w. (True, w))\<rparr>"
  have "fst (WaitVmReady ?E (\<lambda>i. i = 3) ?s) = Ret (\<exists>i\<in>{1..200::nat}. i = 3)"
    by (rule WaitVmReady_iff [of _ ?q 1]) simp_all
  then have "fst (WaitVmReady ?E (\<lambda>i. i = 3) ?s) = Ret True" by simp
  moreover have "vm_state (this ?s) = kVmBooting" by simp
  ultimately show ?thesis by blast
qed

end
