(* ===== verification/Startup_Listener.thy ===== *)
theory Startup_Listener
  imports Cpp_Std
begin

text \<open>
  \<open>StartupListenerImpl\<close> (src/services/startup_listener_impl.h and .cc): guests that are booting, by context id, each with
  the function to call when the guest reports ready.  A guest reports through the gRPC call \<open>VmReady\<close>; the
  caller's address names the context id.  Every operation holds \<open>vm_lock_\<close>, so they are atomic.  The type \<open>'c\<close>
  stands for the functions; \<open>None\<close> is the empty \<open>std::function\<close>.
\<close>

section \<open>The class\<close>

datatype grpc_status = Status_OK | FAILED_PRECONDITION string

type_synonym 'c pending_vms = "(u32 \<times> 'c option) list"

text \<open>The result is the status, the function that is called, and the map that is left.\<close>

definition VmReady :: "string \<Rightarrow> 'c pending_vms \<Rightarrow> grpc_status \<times> 'c option \<times> 'c pending_vms" where
  "VmReady peer pending =
     (case sscanf_vsock peer of
        None \<Rightarrow> (FAILED_PRECONDITION ''Invalid peer for StartupListener'', None, pending)
      | Some cid \<Rightarrow>
          (case map_of pending cid of
             None \<Rightarrow> (FAILED_PRECONDITION ''VM is unknown'', None, pending)
           | Some callback \<Rightarrow> (Status_OK, callback, std_map_erase cid pending)))"

definition AddPendingVM :: "u32 \<Rightarrow> 'c option \<Rightarrow> 'c pending_vms \<Rightarrow> 'c pending_vms" where
  "AddPendingVM cid callback pending = std_map_assign cid callback pending"

definition RemovePendingVM :: "u32 \<Rightarrow> 'c pending_vms \<Rightarrow> 'c pending_vms" where
  "RemovePendingVM cid pending = std_map_erase cid pending"

section \<open>The contract\<close>

text \<open>
  A registry of one-shot entries: adding sets the entry of a key, firing a key that has one hands the entry out
  and removes it, firing another changes nothing.
\<close>

locale one_shot_registry =
  fixes add :: "'k \<Rightarrow> 'v \<Rightarrow> 'm \<Rightarrow> 'm"
    and drop :: "'k \<Rightarrow> 'm \<Rightarrow> 'm"
    and fire :: "'k \<Rightarrow> 'm \<Rightarrow> 'v option \<times> 'm"
    and entries :: "'m \<Rightarrow> 'k \<rightharpoonup> 'v"
    and none :: 'm
  assumes entries_none: "entries none = Map.empty"
    and entries_add: "entries (add k v m) = (entries m)(k \<mapsto> v)"
    and entries_drop: "entries (drop k m) = (entries m)(k := None)"
    and fire_value: "fst (fire k m) = entries m k"
    and entries_fire: "entries (snd (fire k m)) = (entries m)(k := None)"
begin

text \<open>A history of operations and how often a key was added and fired with success in it.\<close>

fun step :: "'m \<times> nat \<times> nat \<Rightarrow> 'k \<Rightarrow> ('k \<times> 'v) + ('k + 'k) \<Rightarrow> 'm \<times> nat \<times> nat" where
  "step (m, added, fired) key (Inl (k, v)) = (add k v m, if k = key then Suc added else added, fired)"
| "step (m, added, fired) key (Inr (Inl k)) = (drop k m, added, fired)"
| "step (m, added, fired) key (Inr (Inr k)) =
     (snd (fire k m), added, if k = key \<and> fst (fire k m) \<noteq> None then Suc fired else fired)"

definition run :: "'k \<Rightarrow> (('k \<times> 'v) + ('k + 'k)) list \<Rightarrow> 'm \<times> nat \<times> nat" where
  "run key ops = foldl (\<lambda>s op. step s key op) (none, 0, 0) ops"

lemma run_bound:
  assumes "run key ops = (m, added, fired)"
  shows "(if entries m key = None then 0 else 1) + fired \<le> added"
  using assms
proof (induction ops arbitrary: m added fired rule: rev_induct)
  case Nil
  then show ?case using entries_none by (auto simp: run_def)
next
  case (snoc op ops)
  obtain m' a f where prev: "run key ops = (m', a, f)" by (metis prod_cases3)
  note IH = snoc.IH [OF prev]
  have now: "step (m', a, f) key op = (m, added, fired)" using snoc.prems prev by (simp add: run_def)
  consider k v where "op = Inl (k, v)" | k where "op = Inr (Inl k)" | k where "op = Inr (Inr k)"
    by (metis sumE surj_pair)
  then show ?case
    using now IH
    by cases (auto simp: entries_add entries_drop entries_fire fire_value split: if_splits)
qed

end

text \<open>\<open>VmReady\<close> from the guest with a given context id.\<close>

definition peer_of :: "u32 \<Rightarrow> string" where
  "peer_of cid = ''vsock:'' @ to_string (uint cid)"

definition ready_call :: "u32 \<Rightarrow> 'c pending_vms \<Rightarrow> 'c option option \<times> 'c pending_vms" where
  "ready_call cid pending = (case VmReady (peer_of cid) pending of
      (st, callback, pending') \<Rightarrow> (if st = Status_OK then Some callback else None, pending'))"

lemma sscanf_vsock_digits:
  assumes "rest = [] \<or> \<not> is_digit_of 10 (hd rest)"
  shows "sscanf_vsock (peer_of cid @ rest) = Some cid"
proof -
  have ts: "to_string (uint cid) = dec_digits (unat cid)" by (simp add: to_string_def)
  have "strto 10 (dec_digits (unat cid) @ rest) = Some (False, unat cid, length (dec_digits (unat cid)))"
    using strto_digits [of "dec_digits (unat cid)" rest] assms dec_digits_all_digits [of _ "unat cid"]
    by (simp add: digits_value_dec_digits)
  moreover have "unat cid < 2 ^ 64" using unsigned_less [of cid, where ?'a = nat] by simp
  ultimately show ?thesis by (simp add: sscanf_vsock_def peer_of_def ts)
qed

interpretation pending: one_shot_registry AddPendingVM RemovePendingVM ready_call map_of "[]"
proof
  have sc: "sscanf_vsock (peer_of k) = Some k" for k using sscanf_vsock_digits [of "[]" k] by simp
  show "map_of [] = (Map.empty :: u32 \<rightharpoonup> 'c option)" by simp
  show "map_of (AddPendingVM k v m) = (map_of m)(k \<mapsto> v)" for k v and m :: "'c pending_vms"
    by (simp add: AddPendingVM_def map_of_std_map_assign)
  show "map_of (RemovePendingVM k m) = (map_of m)(k := None)" for k and m :: "'c pending_vms"
    by (simp add: RemovePendingVM_def map_of_std_map_erase)
  show "fst (ready_call k m) = map_of m k" for k and m :: "'c pending_vms"
    by (simp add: ready_call_def VmReady_def sc split: option.splits)
  show "map_of (snd (ready_call k m)) = (map_of m)(k := None)" for k and m :: "'c pending_vms"
    by (auto simp: ready_call_def VmReady_def sc map_of_std_map_erase fun_eq_iff split: option.splits)
qed

section \<open>Properties\<close>

text \<open>
  The history of a listener: guests added, removed, and ready messages with their callers; how often context id
  \<open>key\<close> was added and reported ready with success.
\<close>

datatype 'c listener_op = Add_vm u32 "'c option" | Remove_vm u32 | Ready_msg string

fun listener_step :: "u32 \<Rightarrow> 'c pending_vms \<times> nat \<times> nat \<Rightarrow> 'c listener_op \<Rightarrow> 'c pending_vms \<times> nat \<times> nat" where
  "listener_step key (m, added, accepted) (Add_vm cid f) =
     (AddPendingVM cid f m, if cid = key then Suc added else added, accepted)"
| "listener_step key (m, added, accepted) (Remove_vm cid) = (RemovePendingVM cid m, added, accepted)"
| "listener_step key (m, added, accepted) (Ready_msg peer) =
     (case VmReady peer m of (st, f, m') \<Rightarrow>
        (m', added, if st = Status_OK \<and> sscanf_vsock peer = Some key then Suc accepted else accepted))"

definition listener_run :: "u32 \<Rightarrow> 'c listener_op list \<Rightarrow> 'c pending_vms \<times> nat \<times> nat" where
  "listener_run key ops = foldl (listener_step key) ([], 0, 0) ops"

text \<open>A message whose caller has a context id acts like \<open>ready_call\<close>; any other changes nothing.\<close>

fun registry_ops :: "'c listener_op \<Rightarrow> ((u32 \<times> 'c option) + (u32 + u32)) list" where
  "registry_ops (Add_vm cid f) = [Inl (cid, f)]"
| "registry_ops (Remove_vm cid) = [Inr (Inl cid)]"
| "registry_ops (Ready_msg peer) = (case sscanf_vsock peer of None \<Rightarrow> [] | Some cid \<Rightarrow> [Inr (Inr cid)])"

lemma listener_step_registry:
  "listener_step key s op = foldl (\<lambda>s op. pending.step s key op) s (registry_ops op)"
proof (cases s)
  case (fields m a f)
  have sc: "sscanf_vsock (peer_of k) = Some k" for k using sscanf_vsock_digits [of "[]" k] by simp
  show ?thesis
  proof (cases op)
    case (Ready_msg peer)
    with fields show ?thesis
      by (cases "sscanf_vsock peer")
        (auto simp: VmReady_def ready_call_def sc split: option.splits)
  qed (use fields in simp_all)
qed

lemma listener_run_registry: "listener_run key ops = pending.run key (concat (map registry_ops ops))"
  by (induction ops rule: rev_induct)
    (simp_all add: listener_run_def pending.run_def listener_step_registry)

text \<open>
  C18. A ready message is accepted at most once for each time the guest was added, in every history of the listener,
  whatever the callers send: a guest that repeats the message is refused.
\<close>

theorem VmReady_at_most_once:
  "snd (snd (listener_run key ops)) \<le> fst (snd (listener_run key ops))"
  using pending.run_bound [of key "concat (map registry_ops ops)"]
  by (cases "listener_run key ops") (simp add: listener_run_registry [symmetric])

text \<open>
  The message of a guest reaches the function that was registered for it: after \<open>AddPendingVM\<close> of a context id, a
  call from the address \<open>vsock:<cid>\<close>, with or without a port, calls exactly that function and removes the
  entry and no other.
\<close>

lemma VmReady_calls_registered:
  assumes "rest = [] \<or> hd rest = CHR '':''"
  shows "\<exists>left. VmReady (''vsock:'' @ to_string (uint cid) @ rest) (AddPendingVM cid (Some f) pending) = (Status_OK, Some f, left) \<and>
     map_of left = (map_of pending)(cid := None)"
proof -
  have "rest = [] \<or> \<not> is_digit_of 10 (hd rest)" using assms by (auto simp: is_digit_of_10_code)
  from sscanf_vsock_digits [OF this, of cid]
  have "sscanf_vsock (''vsock:'' @ to_string (uint cid) @ rest) = Some cid" by (simp add: peer_of_def)
  then show ?thesis
    by (simp add: VmReady_def AddPendingVM_def map_of_std_map_assign map_of_std_map_erase)
qed

end
