(* ===== verification/Server.thy ===== *)
theory Server
  imports Vm_Lifecycle Startup_Listener
begin

text \<open>
  \<open>Server\<close> (src/services/server.h and .cc) and the messages it serves (src/services/message.h).  The server keeps the
  guests in a vector of owning pointers; the thread of a guest and the listener's callbacks keep raw
  pointers to the same objects.  The model gives every object an address: \<open>vmis\<close> lists addresses with their
  objects, a raw pointer is an address, and following one whose object is gone is a crash.
\<close>

section \<open>Messages\<close>

datatype CivMsgType =
    kCiVMsgStopServer | kCivMsgListVm | kCivMsgImportVm | kCivMsgStartVm | kCivMsgStopVm | kCivMsgGetVmInfo | kCivMsgTest
  | kCivMsgRespondSuccess | kCivMsgRespondFail | Msg_other u32

record CivMsg =
  msg_type :: CivMsgType
  payload :: string

definition MaxPayloadSize :: nat where "MaxPayloadSize = 1024"

definition kCivPowerCtlListenerPort :: nat where "kCivPowerCtlListenerPort = 10000"

text \<open>The number of an enumerator, as \<open>CivVmInfo\<close> carries it.\<close>

definition state_num :: "VmState \<Rightarrow> nat" where
  "state_num s = (case s of kVmEmpty \<Rightarrow> 0 | kVmCreated \<Rightarrow> 1 | kVmBooting \<Rightarrow> 2 | kVmRunning \<Rightarrow> 3 | kVmPaused \<Rightarrow> 4 | kVmUnknown \<Rightarrow> 5)"

section \<open>The object\<close>

record ('w, 't) server_state = "'w civ_state" +
  vmis :: "(nat \<times> 't builder) list"
  next_addr :: nat
  listener :: "nat pending_vms"
  listening :: bool
  vm_threads :: "nat list"
  stop_server :: bool

type_synonym ('w, 't, 'a) server_op = "(('w, 't) server_state, 'a) cpp"

text \<open>A member function of a guest, run on an object that shares the globals of the process.\<close>

definition obj_run :: "('w, 't, 'a) member \<Rightarrow> 't builder \<Rightarrow> ('w, 't) server_state \<Rightarrow>
    'a outcome \<times> 't builder \<times> ('w, 't) server_state" where
  "obj_run m b s =
     (case m \<lparr>world = world s, civ_config_path = civ_config_path s, cid_pool = cid_pool s, socketPath = socketPath s, this = b\<rparr> of
        (r, t) \<Rightarrow> (r, this t, s\<lparr>world := world t, civ_config_path := civ_config_path t, cid_pool := cid_pool t,
           socketPath := socketPath t\<rparr>))"

definition obj_delete :: "('w, 't) env \<Rightarrow> 't builder \<Rightarrow> ('w, 't, unit) server_op" where
  "obj_delete E b = (\<lambda>s. case obj_run (VmBuilderQemu_delete E) b s of (r, _, s') \<Rightarrow> (r, s'))"

text \<open>\<open>vb->m()\<close> through a pointer.\<close>

definition vb_call :: "nat \<Rightarrow> ('w, 't, 'a) member \<Rightarrow> ('w, 't, 'a) server_op" where
  "vb_call a m = (\<lambda>s. case map_of (vmis s) a of
       None \<Rightarrow> (Crash, s)
     | Some b \<Rightarrow> (case obj_run m b s of (r, b', s') \<Rightarrow> (r, s'\<lparr>vmis := std_map_set a b' (vmis s')\<rparr>)))"

section \<open>Finding and deleting guests\<close>

text \<open>The position of the first guest of a name; \<open>None\<close> is \<open>-1UL\<close>.\<close>

primrec FindVmInstance :: "string \<Rightarrow> 't builder list \<Rightarrow> nat option" where
  "FindVmInstance name [] = None"
| "FindVmInstance name (b # bs) =
     (if VmBuilder_GetName b = name then Some 0 else map_option Suc (FindVmInstance name bs))"

definition find_vm :: "string \<Rightarrow> ('w, 't, nat option) server_op" where
  "find_vm name = cget (\<lambda>s. FindVmInstance name (map snd (vmis s)))"

definition DeleteVmInstance :: "('w, 't) env \<Rightarrow> string \<Rightarrow> ('w, 't, unit) server_op" where
  "DeleteVmInstance E name =
     cbind (find_vm name) (\<lambda>index.
     case index of
       None \<Rightarrow> cret ()
     | Some i \<Rightarrow>
         cbind (cget (\<lambda>s. snd (vmis s ! i))) (\<lambda>b.
         cseq (cmodify (\<lambda>s. s\<lparr>vmis := erase_at i (vmis s)\<rparr>))
         (obj_delete E b)))"

section \<open>Building a guest from a message\<close>

text \<open>
  \<open>make_unique\<close>, \<open>BuildVmArgs\<close>, and the insertion into \<open>vmis_\<close>: the address of the new guest, \<open>None\<close> when the build
  refuses.  The object is destroyed when it refuses and when it throws.
\<close>

definition build_vm :: "('w, 't) env \<Rightarrow> string \<Rightarrow> 't CivConfig \<Rightarrow> ('w, 't, nat option) server_op" where
  "build_vm E name c = (\<lambda>s. case obj_run (BuildVmArgs E) (VmBuilderQemu_new name c) s of
       (Ret ok, b, s') \<Rightarrow>
         (if ok then (Ret (Some (next_addr s')), s'\<lparr>vmis := vmis s' @ [(next_addr s', b)], next_addr := Suc (next_addr s')\<rparr>)
          else cseq (obj_delete E b) (cret None) s')
     | (Throw e, b, s') \<Rightarrow> cseq (obj_delete E b) (cthrow e) s'
     | (Crash, b, s') \<Rightarrow> (Crash, s')
     | (Hang, b, s') \<Rightarrow> (Hang, s'))"

text \<open>Opening the client's segment and reading a string from it.\<close>

definition open_shm :: "('w, 't) env \<Rightarrow> string \<Rightarrow> (('w, 'z) os_state_scheme, unit) cpp" where
  "open_shm E seg = cbind (oscall (shm_open E seg)) (\<lambda>ok. if ok then cret () else cthrow Interprocess_exception)"

definition find_string :: "('w, 't) env \<Rightarrow> string \<Rightarrow> string \<Rightarrow> (('w, 'z) os_state_scheme, string) cpp" where
  "find_string E seg name =
     cbind (oscall (shm_find E seg name)) (\<lambda>r.
     case r of None \<Rightarrow> ccrash | Some strs \<Rightarrow> (case strs of [] \<Rightarrow> ccrash | x # _ \<Rightarrow> cret x))"

text \<open>The name part of the guest's name option: up to the first comma.\<close>

definition name_param :: "('w, 't) env \<Rightarrow> 't CivConfig \<Rightarrow> (('w, 'z) os_state_scheme, string) cpp" where
  "name_param E c =
     (case split_on E (CHR '','') False (GetValue E c kGroupGlob kGlobName) of [] \<Rightarrow> ccrash | n # _ \<Rightarrow> cret n)"

definition build_by_type :: "('w, 't) env \<Rightarrow> string \<Rightarrow> 't CivConfig \<Rightarrow> ('w, 't, nat option) server_op" where
  "build_by_type E name c =
     (if GetValue E c kGroupEmul kEmulType = kEmulTypeQemu then build_vm E name c else build_vm E name c)"

definition ImportVm :: "('w, 't) env \<Rightarrow> string \<Rightarrow> ('w, 't, int) server_op" where
  "ImportVm E seg =
     cseq (open_shm E seg)
    (cbind (find_string E seg ''ImportVmCfgPath'') (\<lambda>p.
     if p = [] then cret (- 1) else
     cbind (ReadConfigFile E p \<lparr>cfg_data = pt_clear E\<rparr>) (\<lambda>(ok, c).
     if \<not> ok then cret (- 1) else
     cbind (name_param E c) (\<lambda>name.
     if name = [] then cret (- 1) else
     cbind (find_vm name) (\<lambda>index.
     cbind (case index of
              None \<Rightarrow> cret True
            | Some i \<Rightarrow>
                cbind (cget (\<lambda>s. VmBuilder_GetState (snd (vmis s ! i)))) (\<lambda>st.
                if st \<noteq> kVmCreated \<and> st \<noteq> kVmEmpty then cret False
                else cseq (DeleteVmInstance E name) (cret True))) (\<lambda>go.
     if \<not> go then cret (- 1) else
     cbind (build_by_type E name c) (\<lambda>a.
     cret (if a = None then - 1 else 0))))))))"

section \<open>Running a guest\<close>

text \<open>
  After \<open>notify_cont\<close> has been counted down the thread of the guest and the thread that waits go on side by side.
  \<open>start_order\<close> says where the waiting thread reads the state of the guest: before the guest's thread calls
  \<open>SetVmReady\<close>, while that thread waits for the emulator, or after the emulator has exited and the thread has ended.
\<close>

datatype start_order = Reader_first | Thread_first | Exit_first

text \<open>
  \<open>VmThread\<close> up to where it waits for the emulator to exit, with \<open>latch\<close> the initial count of \<open>notify_cont\<close>, and the
  read of the guest's state by the waiting thread.  \<open>ready\<close> is the schedule of ready messages
  (\<open>WaitVmReady\<close>).  An exception that leaves the thread ends the process.
\<close>

definition thread_waits :: "nat \<Rightarrow> ('w, 't, unit) server_op" where
  "thread_waits a = cmodify (\<lambda>s. s\<lparr>vm_threads := a # vm_threads s\<rparr>)"

text \<open>The end of \<open>VmThread\<close>: the emulator has exited and the thread waits no longer.\<close>

definition VmThread_exit :: "('w, 't) env \<Rightarrow> nat \<Rightarrow> ('w, 't, unit) server_op" where
  "VmThread_exit E a =
     ctry
      (cseq (vb_call a (WaitVmExit E))
      (cseq (cmodify (\<lambda>s. s\<lparr>vm_threads := removeAll a (vm_threads s)\<rparr>))
      (cbind (vb_call a (get_this VmBuilder_GetName)) (DeleteVmInstance E))))
      (\<lambda>_. ccrash)"

text \<open>The thread from its start, and what the waiting thread reads.\<close>

definition VmThread :: "('w, 't) env \<Rightarrow> (nat \<Rightarrow> bool) \<Rightarrow> start_order \<Rightarrow> nat \<Rightarrow> nat \<Rightarrow> ('w, 't, VmState) server_op" where
  "VmThread E ready order a latch =
     (let read = vb_call a (get_this VmBuilder_GetState) in
      ctry
       (cseq (vb_call a (StartVm E))
        (if latch = 1 then
           (case order of
              Reader_first \<Rightarrow> cbind read (\<lambda>st. cseq (vb_call a SetVmReady) (cseq (thread_waits a) (cret st)))
            | Thread_first \<Rightarrow> cseq (vb_call a SetVmReady) (cseq (thread_waits a) read)
            | Exit_first \<Rightarrow> cseq (vb_call a SetVmReady) (cseq (thread_waits a) (cseq (VmThread_exit E a) read)))
         else
           cbind (vb_call a (get_this VmBuilder_GetCid)) (\<lambda>cid.
           cseq (cmodify (\<lambda>s. s\<lparr>listener := AddPendingVM cid (Some a) (listener s)\<rparr>))
          (cbind (vb_call a (WaitVmReady E ready)) (\<lambda>ok.
           if ok then cseq (thread_waits a) (cseq (cwhen (order = Exit_first) (VmThread_exit E a)) read)
           else cbind (vb_call a (get_this VmBuilder_GetName)) (\<lambda>name.
                cseq (DeleteVmInstance E name) read))))))
       (\<lambda>_. ccrash))"

definition Server_StartVm :: "('w, 't) env \<Rightarrow> (nat \<Rightarrow> bool) \<Rightarrow> start_order \<Rightarrow> string \<Rightarrow> ('w, 't, int) server_op" where
  "Server_StartVm E ready order seg =
     cseq (open_shm E seg)
    (cbind (find_string E seg ''StartVmCfgPath'') (\<lambda>p.
     if p = [] then cret (- 1) else
     cbind (ReadConfigFile E p \<lparr>cfg_data = pt_clear E\<rparr>) (\<lambda>(ok, c).
     if \<not> ok then cret (- 1) else
     cbind (name_param E c) (\<lambda>name.
     if name = [] then cret (- 1) else
     cbind (find_vm name) (\<lambda>index.
     if index \<noteq> None then cret (- 1) else
     cbind (build_by_type E name c) (\<lambda>vb.
     case vb of None \<Rightarrow> cret (- 1) | Some a \<Rightarrow>
     cbind (oscall (shm_find E seg ''StartVmEnv'')) (\<lambda>vm_env.
     cseq (vb_call a (SetProcessEnv (case vm_env of None \<Rightarrow> [] | Some strs \<Rightarrow> strs)))
    (cbind (VmThread E ready order a (if GetValue E c kGroupGlob kGlobWaitReady = ''true'' then 2 else 1)) (\<lambda>st.
     cret (if st = kVmRunning then 0 else - 1))))))))))"

section \<open>Stopping, listing, asking\<close>

text \<open>\<open>snprintf(listener_address, 49, "vsock:%u:%u", cid, port)\<close>\<close>

definition vsock_address :: "u32 \<Rightarrow> nat \<Rightarrow> string" where
  "vsock_address cid port = take 48 (''vsock:'' @ to_string (uint cid) @ '':'' @ to_string (int port))"

text \<open>\<open>CivVmPowerCtl::Shutdown\<close> (src/guest/vm_powerctl.h)\<close>

definition CivVmPowerCtl_Shutdown :: "('w, 't) env \<Rightarrow> string \<Rightarrow> (('w, 'z) os_state_scheme, bool) cpp" where
  "CivVmPowerCtl_Shutdown E addr =
     cbind (oscall (grpc_shutdown E addr)) (\<lambda>status.
     case status of
       Inr _ \<Rightarrow> cret True
     | Inl text \<Rightarrow> cseq (oscall (std_cout E (text @ [newline]))) (cret False))"

definition Server_StopVm :: "('w, 't) env \<Rightarrow> string \<Rightarrow> ('w, 't, int) server_op" where
  "Server_StopVm E seg =
     cseq (open_shm E seg)
    (cbind (find_string E seg ''StopVmName'') (\<lambda>name.
     cbind (find_vm name) (\<lambda>index.
     case index of
       None \<Rightarrow> cret (- 1)
     | Some i \<Rightarrow>
         cbind (cget (\<lambda>s. vmis s ! i)) (\<lambda>(a, b).
         cbind (CivVmPowerCtl_Shutdown E (vsock_address (VmBuilder_GetCid b) kCivPowerCtlListenerPort)) (\<lambda>ok.
         cseq (cwhen (\<not> ok) (vb_call a (StopVm E)))
         (cret 0))))))"

definition list_entry :: "'t builder \<Rightarrow> string" where
  "list_entry b = VmBuilder_GetName b @ '':'' @ VmStateToStr (VmBuilder_GetState b)"

definition ListVm :: "('w, 't) env \<Rightarrow> string \<Rightarrow> ('w, 't, int) server_op" where
  "ListVm E seg =
     cseq (open_shm E seg)
    (cseq (oscall (shm_destroy E seg ''ListVms''))
    (cbind (cget (\<lambda>s. map (list_entry \<circ> snd) (vmis s))) (\<lambda>vm_lists.
     cbind (oscall (shm_construct E seg ''ListVms'' vm_lists)) (\<lambda>ok.
     if \<not> ok then cthrow Interprocess_exception else cret 0))))"

definition GetVmInfo :: "('w, 't) env \<Rightarrow> string \<Rightarrow> ('w, 't, int) server_op" where
  "GetVmInfo E seg =
     cseq (open_shm E seg)
    (cbind (find_string E seg ''VmName'') (\<lambda>name.
     cbind (find_vm name) (\<lambda>index.
     case index of
       None \<Rightarrow> cret (- 1)
     | Some i \<Rightarrow>
         cseq (oscall (shm_destroy E seg ''VmInfo''))
        (cbind (cget (\<lambda>s. snd (vmis s ! i))) (\<lambda>b.
         cbind (oscall (shm_construct_info E seg (VmBuilder_GetCid b, state_num (VmBuilder_GetState b)))) (\<lambda>ok.
         if \<not> ok then cthrow Interprocess_exception else cret 0))))))"

section \<open>Listening for guests\<close>

definition kCivStartupListenerPort :: nat where "kCivStartupListenerPort = 9999"

text \<open>\<open>VMADDR_CID_ANY\<close> of the kernel's vsock interface.\<close>

definition VMADDR_CID_ANY :: u32 where "VMADDR_CID_ANY = - 1"

text \<open>
  The thread that serves the calls of the guests, up to \<open>Wait\<close>: \<open>listening\<close> says whether there is a gRPC server, the pointer
  \<open>startup_listener_.server\<close>.  The latch is counted down whether there is one or not, and \<open>SetupStartupListenerService\<close>
  always returns true.
\<close>

definition RunListenerService :: "('w, 't) env \<Rightarrow> string \<Rightarrow> ('w, 't, unit) server_op" where
  "RunListenerService E listener_address =
     cbind (oscall (grpc_listen E listener_address)) (\<lambda>ok. cmodify (\<lambda>s. s\<lparr>listening := ok\<rparr>))"

definition SetupStartupListenerService :: "('w, 't) env \<Rightarrow> ('w, 't, bool) server_op" where
  "SetupStartupListenerService E =
     cseq (RunListenerService E (vsock_address VMADDR_CID_ANY kCivStartupListenerPort))
     (cret True)"

section \<open>The message loop\<close>

text \<open>The handler of one message: the type the message has afterwards.\<close>

definition respond :: "('w, 't, int) server_op \<Rightarrow> ('w, 't, CivMsgType) server_op" where
  "respond m = cbind m (\<lambda>rc. cret (if rc = 0 then kCivMsgRespondSuccess else kCivMsgRespondFail))"

definition handle_msg :: "('w, 't) env \<Rightarrow> (nat \<Rightarrow> bool) \<Rightarrow> start_order \<Rightarrow> CivMsg \<Rightarrow> ('w, 't, CivMsgType) server_op" where
  "handle_msg E ready order m = (case msg_type m of
       kCiVMsgStopServer \<Rightarrow> cseq (cmodify (\<lambda>s. s\<lparr>stop_server := True\<rparr>)) (cret kCivMsgRespondSuccess)
     | kCivMsgListVm \<Rightarrow> respond (ListVm E (payload m))
     | kCivMsgImportVm \<Rightarrow> respond (ImportVm E (payload m))
     | kCivMsgStartVm \<Rightarrow> respond (Server_StartVm E ready order (payload m))
     | kCivMsgStopVm \<Rightarrow> respond (Server_StopVm E (payload m))
     | kCivMsgGetVmInfo \<Rightarrow> respond (GetVmInfo E (payload m))
     | t \<Rightarrow> cret t)"

text \<open>The ready call of a guest, with the callback run on the object it points to.\<close>

definition Server_VmReady :: "string \<Rightarrow> ('w, 't, grpc_status) server_op" where
  "Server_VmReady peer =
     cbind (cget (\<lambda>s. VmReady peer (listener s))) (\<lambda>(st, callback, left).
     cseq (case callback of None \<Rightarrow> cret () | Some a \<Rightarrow> vb_call a SetVmReady)
    (cseq (cmodify (\<lambda>s. s\<lparr>listener := left\<rparr>))
     (cret st)))"

definition server_init :: "'w civ_state \<Rightarrow> ('w, 't) server_state" where
  "server_init g = \<lparr>world = world g, civ_config_path = civ_config_path g, cid_pool = cid_pool g, socketPath = socketPath g,
     vmis = [], next_addr = 0, listener = [], listening = False, vm_threads = [], stop_server = False\<rparr>"

end
