(* ===== verification/Server_Facts.thy ===== *)
theory Server_Facts
  imports Server
begin

text \<open>
  What the single steps of the server do: the frames of the functions of a guest, calls through a pointer, building and
  deleting a guest, and the invariant that all of them keep.
\<close>

section \<open>What the life of a guest may change\<close>

text \<open>
  The same idea as \<open>builder_frame\<close>, for the functions of theory \<open>Vm_Lifecycle\<close> that run a guest: a preorder that
  ignores the fields they touch contains them all.
\<close>

locale proc_frame = state_preorder R
  for R :: "('w, 't) build_state \<Rightarrow> ('w, 't) build_state \<Rightarrow> bool" +
  assumes world: "R s (s\<lparr>world := w\<rparr>)"
    and main: "R s (s\<lparr>this := (this s)\<lparr>main_proc := q\<rparr>\<rparr>)"
    and procs: "R s (s\<lparr>this := (this s)\<lparr>co_procs := ps\<rparr>\<rparr>)"
    and calls: "R s (s\<lparr>this := (this s)\<lparr>end_call := fs\<rparr>\<rparr>)"
begin

lemma host: "within only_world m \<Longrightarrow> within R m"
  by (erule within_mono) (auto simp: only_world_def world)

lemma get: "within R (get_this f)"
  unfolding get_this_def by (rule within_cget)

lemma set_main: "within R (upd_this (\<lambda>b. b\<lparr>main_proc := Some (f b)\<rparr>))"
  by (simp add: within_def upd_this_run main)

lemma set_procs: "within R (upd_this (\<lambda>b. b\<lparr>co_procs := f b\<rparr>))"
  by (simp add: within_def upd_this_run procs)

lemma set_calls: "within R (upd_this (\<lambda>b. b\<lparr>end_call := f b\<rparr>))"
  by (simp add: within_def upd_this_run calls)

lemmas flow =
  within_cret within_cthrow within_ccrash within_chang within_cget within_cbind within_cseq within_cwhen within_ctry
  within_cfor within_if opt

lemmas prims = get set_main set_procs set_calls

lemma os: "within R (oscall f)" "within R (VmProcess_Run E q)" "within R (VmProcess_Stop E q)" "within R (VmProcess_delete E q)"
  "within R (VmProcSimple_SetLogDir E d q)" "within R (VmProcSimple_Running E q)" "within R (VmProcSimple_Join E q)"
  by (rule host, intro only_world_intros only_world_proc)+

lemma each: "(\<And>q. within R (f q)) \<Longrightarrow> within R (co_procs_each f ids)"
  by (induction ids) (simp_all add: within_cret, intro flow prims, assumption+)

lemma over_procs: "(\<And>q. within R (f q)) \<Longrightarrow> within R (for_co_procs f)"
  unfolding for_co_procs_def by (intro flow prims each)

lemma life_SetProcessEnv: "within R (SetProcessEnv e)"
  unfolding SetProcessEnv_def by (intro flow prims)

lemma life_WaitVmExit: "within R (WaitVmExit E)"
  unfolding WaitVmExit_def by (intro flow prims os)

lemma life_end_calls: "within R (end_call_loop E fs)"
proof (induction fs)
  case (Cons f fs)
  have "within R (run_end_call E f)"
    unfolding run_end_call_def
    by (cases f) (simp_all, (intro flow prims host only_world_PassthroughOnePciDev only_world_oscall only_world_system_call)+)
  then show ?case unfolding end_call_loop.simps by (intro flow set_calls Cons)
qed (simp add: within_cret)

end

text \<open>Starting and waiting also move the guest on to the states after \<open>kVmCreated\<close>.\<close>

locale run_frame = proc_frame R
  for R :: "('w, 't) build_state \<Rightarrow> ('w, 't) build_state \<Rightarrow> bool" +
  assumes latch: "R s (s\<lparr>this := (this s)\<lparr>vm_ready_latch := n\<rparr>\<rparr>)"
    and started: "st \<in> {kVmBooting, kVmRunning} \<Longrightarrow> R s (s\<lparr>this := (this s)\<lparr>vm_state := st\<rparr>\<rparr>)"
begin

lemma set_state: "st \<in> {kVmBooting, kVmRunning} \<Longrightarrow> within R (upd_this (\<lambda>b. b\<lparr>vm_state := st\<rparr>))"
  by (simp add: within_def upd_this_run started)

lemma set_latch: "within R (upd_this (\<lambda>b. b\<lparr>vm_ready_latch := f b\<rparr>))"
  by (simp add: within_def upd_this_run latch)

lemma life_StartVm: "within R (StartVm E)"
  unfolding StartVm_def SetProcLogDir_def run_if_stopped_def Let_def by (intro flow prims os over_procs set_state) simp

lemma life_SetVmReady: "within R SetVmReady"
  unfolding SetVmReady_def by (intro flow prims set_state set_latch) simp

lemma life_WaitVmReady_loop: "within R (WaitVmReady_loop E ready n)"
proof (induction E ready n rule: WaitVmReady_loop.induct)
  case (1 E ready n)
  show ?case by (subst WaitVmReady_loop.simps) (intro flow prims os life_SetVmReady 1)
qed

lemma life_WaitVmReady: "within R (WaitVmReady E ready)"
  unfolding WaitVmReady_def by (rule life_WaitVmReady_loop)

end

text \<open>Stopping gives the context id back, and leaves the state of the guest alone.\<close>

locale stop_frame = proc_frame R
  for R :: "('w, 't) build_state \<Rightarrow> ('w, 't) build_state \<Rightarrow> bool" +
  assumes pool: "R s (s\<lparr>cid_pool := p\<rparr>)"
begin

lemma life_release: "within R release_cid"
  unfolding release_cid_def by (simp add: within_def run_simps pool)

lemma life_StopVm: "within R (StopVm E)"
  unfolding StopVm_def clear_co_procs_def
  by (intro flow prims os over_procs life_release life_end_calls)

end

text \<open>A guest keeps its name, and one that was started never goes back to a state before.\<close>

definition started :: "'t builder \<Rightarrow> bool" where
  "started b \<longleftrightarrow> vm_state b \<noteq> kVmEmpty \<and> vm_state b \<noteq> kVmCreated"

definition obj_kept :: "('w, 't) build_state \<Rightarrow> ('w, 't) build_state \<Rightarrow> bool" where
  "obj_kept s t \<longleftrightarrow> vm_name (this t) = vm_name (this s) \<and> (started (this s) \<longrightarrow> started (this t))"

interpretation obj_kept: run_frame obj_kept
  by unfold_locales (auto simp: obj_kept_def started_def)

definition vm_kept :: "('w, 't) build_state \<Rightarrow> ('w, 't) build_state \<Rightarrow> bool" where
  "vm_kept s t \<longleftrightarrow> vm_name (this t) = vm_name (this s) \<and> vm_state (this t) = vm_state (this s)"

interpretation vm_kept: stop_frame vm_kept
  by unfold_locales (auto simp: vm_kept_def)

lemma vm_kept_obj: "vm_kept s t \<Longrightarrow> obj_kept s t"
  by (simp add: vm_kept_def obj_kept_def started_def)

lemmas obj_kept_StopVm = within_mono [OF vm_kept.life_StopVm vm_kept_obj]

definition name_kept :: "('w, 't) build_state \<Rightarrow> ('w, 't) build_state \<Rightarrow> bool" where
  "name_kept s t \<longleftrightarrow> vm_name (this t) = vm_name (this s)"

interpretation name_kept: builder_all name_kept "\<lambda>_. True"
  by unfold_locales (auto simp: name_kept_def)

section \<open>Objects and globals\<close>

text \<open>Running a member function changes the object and the globals, no field of the server.\<close>

definition globals_only :: "('w, 't) server_state \<Rightarrow> ('w, 't) server_state \<Rightarrow> bool" where
  "globals_only s t \<longleftrightarrow> vmis t = vmis s \<and> next_addr t = next_addr s \<and> listener t = listener s \<and>
     listening t = listening s \<and> vm_threads t = vm_threads s \<and> stop_server t = stop_server s"

interpretation globals_only: state_preorder globals_only
  by unfold_locales (auto simp: globals_only_def)

lemma globals_only_host:
  fixes m :: "('w, 't, 'a) server_op"
  shows "within only_world m \<Longrightarrow> within globals_only m"
  by (erule within_mono) (auto simp: only_world_def globals_only_def)

lemma obj_run_globals: "obj_run m b s = (r, b', t) \<Longrightarrow> globals_only s t"
  by (auto simp: obj_run_def globals_only_def split: prod.splits)

lemma obj_run_within:
  assumes "obj_run m b s = (r, b', t)" and "within R m"
  shows "\<exists>u v. this u = b \<and> this v = b' \<and> R u v"
proof -
  let ?u = "\<lparr>world = world s, civ_config_path = civ_config_path s, cid_pool = cid_pool s, socketPath = socketPath s, this = b\<rparr>"
  obtain v where "m ?u = (r, v)" "this v = b'" using assms(1) by (auto simp: obj_run_def split: prod.splits)
  with withinD [OF assms(2)] show ?thesis by (metis build_state.select_convs(1))
qed

lemma obj_delete_globals: "within globals_only (obj_delete E b)"
  by (auto simp: within_def obj_delete_def split: prod.splits dest!: obj_run_globals)

lemma FindVmInstance_None: "FindVmInstance n bs = None \<longleftrightarrow> n \<notin> vm_name ` set bs"
  by (induction bs) (auto simp: VmBuilder_GetName_def)

lemma FindVmInstance_Some:
  "FindVmInstance n bs = Some i \<Longrightarrow> i < length bs \<and> vm_name (bs ! i) = n \<and> (\<forall>j<i. vm_name (bs ! j) \<noteq> n)"
proof (induction bs arbitrary: i)
  case (Cons b bs)
  show ?case
  proof (cases "vm_name b = n")
    case True
    with Cons.prems show ?thesis by (simp add: VmBuilder_GetName_def)
  next
    case False
    with Cons.prems obtain k where "i = Suc k" "FindVmInstance n bs = Some k" by (auto simp: VmBuilder_GetName_def)
    with Cons.IH [of k] False show ?thesis by (auto simp: nth_Cons less_Suc_eq_0_disj split: nat.splits)
  qed
qed simp

section \<open>Calls through a pointer\<close>

text \<open>\<open>guest a P s\<close>: the guest at address \<open>a\<close> is listed and \<open>P\<close> holds of it.\<close>

definition guest :: "nat \<Rightarrow> ('t builder \<Rightarrow> bool) \<Rightarrow> ('w, 't) server_state \<Rightarrow> bool" where
  "guest a P s \<longleftrightarrow> (\<exists>b. map_of (vmis s) a = Some b \<and> P b)"

text \<open>A call changes the object it is made on and the globals.\<close>

lemma vb_callE:
  assumes "vb_call a m s = (Ret x, t)"
  obtains b b' u v where "map_of (vmis s) a = Some b" "m u = (Ret x, v)" "this u = b" "this v = b'" "cid_pool u = cid_pool s"
    "cid_pool t = cid_pool v" "vmis t = std_map_set a b' (vmis s)" "globals_only s (t\<lparr>vmis := vmis s\<rparr>)"
proof (cases "map_of (vmis s) a")
  case (Some b)
  let ?u = "\<lparr>world = world s, civ_config_path = civ_config_path s, cid_pool = cid_pool s, socketPath = socketPath s, this = b\<rparr>"
  obtain r v where v: "m ?u = (r, v)" by (cases "m ?u")
  with assms Some have "r = Ret x" and t: "t = s\<lparr>world := world v, civ_config_path := civ_config_path v, cid_pool := cid_pool v,
      socketPath := socketPath v, vmis := std_map_set a (this v) (vmis s)\<rparr>"
    by (auto simp: vb_call_def obj_run_def)
  with Some v show thesis by (intro that [of b ?u v "this v"]) (simp_all add: globals_only_def)
qed (use assms in \<open>simp add: vb_call_def\<close>)

lemma vb_call_Ret:
  assumes "vb_call a m s = (Ret x, t)" and "\<And>u v. m u = (Ret x, v) \<Longrightarrow> Q (this v)"
  shows "guest a Q t"
  using assms(1) by (rule vb_callE) (auto simp: guest_def map_of_std_map_set assms(2))

lemma vb_call_guest:
  assumes "vb_call a m s = (Ret x, t)" and "guest a P s" and "\<And>u v. m u = (Ret x, v) \<Longrightarrow> P (this u) \<Longrightarrow> Q (this v)"
  shows "guest a Q t"
  using assms(1) by (rule vb_callE) (use assms(2) in \<open>auto simp: guest_def map_of_std_map_set assms(3)\<close>)

lemma std_map_set_same:
  assumes "map_of m a = Some b" and "distinct (map fst m)"
  shows "std_map_set a b m = m"
proof -
  have "v = b" if "(a, v) \<in> set m" for v using map_of_is_SomeI [OF assms(2) that] assms(1) by simp
  then show ?thesis unfolding std_map_set_def by (intro map_idI) auto
qed

text \<open>A call that reaches the world only leaves the server as it is.\<close>

lemma vb_call_host:
  assumes "vb_call a m s = (Ret x, t)" and "within only_world m" and "distinct (map fst (vmis s))"
  shows "\<exists>w. t = s\<lparr>world := w\<rparr>"
proof (cases "map_of (vmis s) a")
  case (Some b)
  let ?u = "\<lparr>world = world s, civ_config_path = civ_config_path s, cid_pool = cid_pool s, socketPath = socketPath s, this = b\<rparr>"
  obtain r v where v: "m ?u = (r, v)" by (cases "m ?u")
  obtain w where "v = ?u\<lparr>world := w\<rparr>" by (rule only_worldE [OF assms(2) v])
  with assms(1) Some v std_map_set_same [OF Some assms(3)] show ?thesis by (auto simp: vb_call_def obj_run_def)
qed (use assms(1) in \<open>simp add: vb_call_def\<close>)

lemma only_world_get: "within only_world (get_this f)"
  unfolding get_this_def by (rule only_world.within_cget)

lemma vb_call_get:
  assumes "vb_call a (get_this f) s = (Ret x, t)" and "distinct (map fst (vmis s))"
  shows "t = s \<and> guest a (\<lambda>b. x = f b) s"
proof -
  have "t = s"
  proof (cases "map_of (vmis s) a")
    case (Some b)
    with assms std_map_set_same [OF Some assms(2)] show ?thesis by (auto simp: vb_call_def obj_run_def run_simps)
  qed (use assms(1) in \<open>simp add: vb_call_def\<close>)
  moreover have "guest a (\<lambda>b. x = f b) t" by (rule vb_call_Ret [OF assms(1)]) (simp add: ret_iffs)
  ultimately show ?thesis by simp
qed

lemma only_world_WaitVmExit: "within only_world (WaitVmExit E)"
  unfolding WaitVmExit_def by (intro only_world_intros only_world_get only_world_proc)

section \<open>The invariant\<close>

text \<open>
  Addresses are different and older than \<open>next_addr\<close>, names are different, every guest thread that waits for its
  emulator works on a guest that is still listed and was started, and so does every callback of the listener whose guest
  is still listed.
\<close>

definition called_back :: "('w, 't) server_state \<Rightarrow> nat set" where
  "called_back s = {a. \<exists>c. (c, Some a) \<in> set (listener s)}"

definition server_inv :: "('w, 't) server_state \<Rightarrow> bool" where
  "server_inv s \<longleftrightarrow> distinct (map fst (vmis s)) \<and> fst ` set (vmis s) \<subseteq> {..<next_addr s} \<and>
     distinct (map (vm_name \<circ> snd) (vmis s)) \<and>
     (\<forall>a \<in> set (vm_threads s). \<exists>b. (a, b) \<in> set (vmis s) \<and> started b) \<and>
     (\<forall>a \<in> called_back s. a < next_addr s \<and> (\<forall>b. (a, b) \<in> set (vmis s) \<longrightarrow> started b))"

lemma server_invD:
  assumes "server_inv s"
  shows "distinct (map fst (vmis s))" and "distinct (map (vm_name \<circ> snd) (vmis s))"
    and "a \<in> set (vm_threads s) \<Longrightarrow> guest a started s"
  using assms by (auto simp: server_inv_def guest_def intro: map_of_is_SomeI)

lemma server_inv_globals: "server_inv s \<Longrightarrow> globals_only s t \<Longrightarrow> server_inv t"
  by (simp add: server_inv_def globals_only_def called_back_def)

lemma server_inv_world [simp]: "server_inv (s\<lparr>world := w\<rparr>) = server_inv s"
  by (simp add: server_inv_def called_back_def)

lemma std_map_set_names:
  assumes "map_of m a = Some b" and "f b' = f b" and "distinct (map fst m)"
  shows "map (f \<circ> snd) (std_map_set a b' m) = map (f \<circ> snd) m"
proof -
  have "v = b" if "(a, v) \<in> set m" for v
    using map_of_is_SomeI [OF assms(3) that] assms(1) by simp
  then show ?thesis
    unfolding std_map_set_def map_map using assms(2) by (intro map_cong) auto
qed

lemma in_std_map_set:
  "(x, v) \<in> set (std_map_set a b' m) \<longleftrightarrow> (if x = a then v = b' \<and> a \<in> fst ` set m else (x, v) \<in> set m)"
  by (induction m) (auto simp: std_map_set_def split: if_splits)

lemma vb_call_inv:
  assumes run: "vb_call a m s = (Ret x, t)" and m: "within obj_kept m" and inv: "server_inv s"
  shows "server_inv t" and "vm_threads t = vm_threads s"
proof -
  obtain b b' u v where b: "map_of (vmis s) a = Some b" and uv: "m u = (Ret x, v)" "this u = b" "this v = b'"
    and vs: "vmis t = std_map_set a b' (vmis s)" and g: "globals_only s (t\<lparr>vmis := vmis s\<rparr>)"
    using run by (rule vb_callE)
  have kept: "vm_name b' = vm_name b" "started b \<Longrightarrow> started b'"
    using withinD [OF m uv(1)] uv by (auto simp: obj_kept_def)
  note d = server_invD(1) [OF inv]
  have names: "map (vm_name \<circ> snd) (vmis t) = map (vm_name \<circ> snd) (vmis s)"
    unfolding vs by (rule std_map_set_names [OF b kept(1) d])
  have keys: "map fst (vmis t) = map fst (vmis s)" unfolding vs by (rule keys_std_map_set)
  then have fsts: "fst ` set (vmis t) = fst ` set (vmis s)" by (metis list.set_map)
  have t: "next_addr t = next_addr s" "listener t = listener s" "vm_threads t = vm_threads s"
    using g by (auto simp: globals_only_def)
  have ab: "(a, b) \<in> set (vmis s)" using b by (rule map_of_SomeD)
  then have "a \<in> fst ` set (vmis s)" by force
  then have mem: "(y, c) \<in> set (vmis t) \<longleftrightarrow> (if y = a then c = b' else (y, c) \<in> set (vmis s))" for y c
    unfolding vs in_std_map_set by simp
  have "\<exists>c'. (y, c') \<in> set (vmis t) \<and> started c'" if "(y, c) \<in> set (vmis s)" "started c" for y c
  proof (cases "y = a")
    case True
    with that(1) ab d have "c = b" by (metis eq_key_imp_eq_value)
    with that(2) kept(2) True show ?thesis by (auto simp: mem)
  qed (use that in \<open>auto simp: mem\<close>)
  moreover have "\<forall>y \<in> called_back t. y < next_addr t \<and> (\<forall>c. (y, c) \<in> set (vmis t) \<longrightarrow> started c)"
    using inv ab kept(2) unfolding server_inv_def called_back_def t mem by auto
  ultimately show "server_inv t" "vm_threads t = vm_threads s"
    using inv unfolding server_inv_def names keys fsts t by blast+
qed

section \<open>Deleting\<close>

lemma DeleteVmInstance_Ret:
  assumes "DeleteVmInstance E name s = (Ret (), t)"
  shows "case FindVmInstance name (map snd (vmis s)) of None \<Rightarrow> t = s
     | Some i \<Rightarrow> obj_delete E (snd (vmis s ! i)) (s\<lparr>vmis := erase_at i (vmis s)\<rparr>) = (Ret (), t) \<and> i < length (vmis s) \<and>
         vm_name (snd (vmis s ! i)) = name \<and> globals_only (s\<lparr>vmis := erase_at i (vmis s)\<rparr>) t"
proof (cases "FindVmInstance name (map snd (vmis s))")
  case None
  with assms show ?thesis by (simp add: DeleteVmInstance_def find_vm_def run_simps)
next
  case (Some i)
  have "obj_delete E (snd (vmis s ! i)) (s\<lparr>vmis := erase_at i (vmis s)\<rparr>) = (Ret (), t)"
    using assms Some by (simp add: DeleteVmInstance_def find_vm_def run_simps split: prod.splits outcome.splits)
  with withinD [OF obj_delete_globals this] FindVmInstance_Some [OF Some] Some show ?thesis by auto
qed

lemma DeleteVmInstance_inv:
  assumes run: "DeleteVmInstance E name s = (Ret (), t)" and inv: "server_inv s"
    and "\<And>i. FindVmInstance name (map snd (vmis s)) = Some i \<Longrightarrow> fst (vmis s ! i) \<notin> set (vm_threads s)"
  shows "server_inv t"
proof (cases "FindVmInstance name (map snd (vmis s))")
  case None
  with DeleteVmInstance_Ret [OF run] inv show ?thesis by simp
next
  case (Some i)
  have i: "i < length (vmis s)" and g: "globals_only (s\<lparr>vmis := erase_at i (vmis s)\<rparr>) t"
    using DeleteVmInstance_Ret [OF run] Some by simp_all
  have t: "vmis t = erase_at i (vmis s)" "vm_threads t = vm_threads s" "next_addr t = next_addr s" "listener t = listener s"
    using g by (simp_all add: globals_only_def)
  have sub: "set (vmis t) \<subseteq> set (vmis s)" unfolding t by (rule set_erase_at_subset)
  have dv: "distinct (vmis s)" using inv by (auto simp: server_inv_def distinct_map)
  have "\<exists>b. (a, b) \<in> set (vmis t) \<and> started b" if a: "a \<in> set (vm_threads s)" for a
  proof -
    obtain b where b: "(a, b) \<in> set (vmis s)" "started b" using inv a by (auto simp: server_inv_def)
    have "(a, b) \<noteq> vmis s ! i" using assms(3) [OF Some] a by (metis fst_conv)
    with b show ?thesis by (auto simp: t(1) set_erase_at [OF dv i])
  qed
  moreover have "\<forall>a \<in> called_back t. a < next_addr t \<and> (\<forall>b. (a, b) \<in> set (vmis t) \<longrightarrow> started b)"
    using inv sub unfolding server_inv_def called_back_def t(3,4) by blast
  moreover have "fst ` set (vmis t) \<subseteq> {..<next_addr s}"
    by (rule order.trans [OF image_mono [OF sub]]) (use inv in \<open>simp add: server_inv_def\<close>)
  ultimately show ?thesis
    using inv unfolding server_inv_def t(2,3) by (simp add: t(1) map_erase_at distinct_erase_at)
qed

lemma find_named:
  assumes "server_inv s" and "guest a (\<lambda>b. vm_name b = name) s" and "FindVmInstance name (map snd (vmis s)) = Some i"
  shows "fst (vmis s ! i) = a"
proof -
  obtain b where b: "(a, b) \<in> set (vmis s)" "vm_name b = name"
    using assms(2) by (auto simp: guest_def dest: map_of_SomeD)
  then obtain j where j: "j < length (vmis s)" "vmis s ! j = (a, b)" by (metis in_set_conv_nth)
  have i: "i < length (vmis s)" "vm_name (snd (vmis s ! i)) = name" using FindVmInstance_Some [OF assms(3)] by auto
  have "i = j" using server_invD(2) [OF assms(1)] i j b(2) by (simp add: distinct_conv_nth) (metis snd_conv)
  with j show ?thesis by simp
qed

section \<open>Building\<close>

definition no_guest :: "string \<Rightarrow> ('w, 't) server_state \<Rightarrow> bool" where
  "no_guest name s \<longleftrightarrow> name \<notin> (vm_name \<circ> snd) ` set (vmis s)"

definition created :: "'t builder \<Rightarrow> bool" where
  "created b \<longleftrightarrow> vm_state b = kVmCreated \<and> main_proc b \<noteq> None"

text \<open>A build that succeeds adds a guest with a context id that was free; one that refuses changes nothing but the world.\<close>

lemma build_vm_Ret:
  assumes "build_vm E name c s = (Ret r, t)"
  shows "case r of None \<Rightarrow> globals_only s t \<and> cid_pool t = cid_pool s
     | Some a \<Rightarrow> a = next_addr s \<and> (\<exists>b. vm_name b = name \<and> created b \<and> vsock_cid b \<in> free_cids (cid_pool s) \<and>
         cid_pool t = (cid_pool s)(unat (vsock_cid b) := False) \<and> vmis t = vmis s @ [(a, b)] \<and>
         globals_only s (t\<lparr>vmis := vmis s, next_addr := a\<rparr>) \<and> next_addr t = Suc a)"
proof -
  let ?u = "\<lparr>world = world s, civ_config_path = civ_config_path s, cid_pool = cid_pool s, socketPath = socketPath s,
      this = VmBuilderQemu_new name c\<rparr>"
  obtain ok u where u: "BuildVmArgs E ?u = (ok, u)" by (cases "BuildVmArgs E ?u")
  let ?s1 = "s\<lparr>world := world u, civ_config_path := civ_config_path u, cid_pool := cid_pool u, socketPath := socketPath u\<rparr>"
  have o: "obj_run (BuildVmArgs E) (VmBuilderQemu_new name c) s = (ok, this u, ?s1)" by (simp add: obj_run_def u)
  have "unbuilt_nocid (cid_pool s) name c ?u" by (simp add: unbuilt_nocid_def unbuilt_def cid_of_def VmBuilderQemu_new_def)
  from tripleD [OF BuildVmArgs_post this u] have post: "ok = Ret True \<Longrightarrow> built (cid_pool s) name c u" by (auto simp: build_post_def)
  show ?thesis
  proof (cases "ok = Ret True")
    case True
    with assms o have "r = Some (next_addr s)" "t = ?s1\<lparr>vmis := vmis s @ [(next_addr s, this u)], next_addr := Suc (next_addr s)\<rparr>"
      by (auto simp: build_vm_def)
    with post [OF True] show ?thesis
      by (auto simp: built_def cid_of_def created_def globals_only_def intro!: exI [of _ "this u"])
  next
    case False
    with assms o have r: "r = None" and d: "obj_delete E (this u) ?s1 = (Ret (), t)"
      by (auto simp: build_vm_def ret_iffs split: outcome.splits if_splits)
    have eq: "\<lparr>world = world u, civ_config_path = civ_config_path u, cid_pool = cid_pool u, socketPath = socketPath u, this = this u\<rparr> = u"
      by simp
    from d obtain v where "VmBuilderQemu_delete E u = (Ret (), v)" "cid_pool t = cid_pool v"
      by (auto simp: obj_delete_def obj_run_def eq split: prod.splits)
    with delete_releases [OF BuildVmArgs_cid_of [OF _ u]] have "cid_pool t = cid_pool s" by simp
    moreover have "globals_only s t"
      by (rule globals_only.trans [OF obj_run_globals [OF o] withinD [OF obj_delete_globals d]])
    ultimately show ?thesis by (simp add: r)
  qed
qed

lemma build_vm_inv:
  assumes inv: "server_inv s" and new: "no_guest name s" and run: "build_vm E name c s = (Ret r, t)"
  shows "server_inv t" and "r = Some a \<Longrightarrow> a \<notin> set (vm_threads t) \<and> guest a created t"
proof -
  have "server_inv t \<and> (r = Some a \<longrightarrow> a \<notin> set (vm_threads t) \<and> guest a created t)"
  proof (cases r)
    case None
    with build_vm_Ret [OF run] inv show ?thesis by (simp add: server_inv_globals)
  next
    case (Some a')
    then obtain b where b: "a' = next_addr s" "vm_name b = name" "created b" "vmis t = vmis s @ [(a', b)]" "next_addr t = Suc a'"
      "globals_only s (t\<lparr>vmis := vmis s, next_addr := a'\<rparr>)"
      using build_vm_Ret [OF run] by auto
    have "a' \<notin> fst ` set (vmis s)" "a' \<notin> set (vm_threads s)" "a' \<notin> called_back s"
      using inv b(1) by (force simp: server_inv_def)+
    moreover have "listener t = listener s" "vm_threads t = vm_threads s" using b(6) by (simp_all add: globals_only_def)
    ultimately show ?thesis
      using inv new b(1-5) Some
      by (auto simp: server_inv_def no_guest_def called_back_def guest_def less_Suc_eq map_add_def split: option.splits
          dest: map_of_SomeD)
  qed
  then show "server_inv t" "r = Some a \<Longrightarrow> a \<notin> set (vm_threads t) \<and> guest a created t" by simp_all
qed

section \<open>Calls that reach the world only\<close>

lemma only_world_shm: "within only_world (open_shm E seg)" "within only_world (find_string E seg n)" "within only_world (name_param E c)"
proof -
  have lst: "within only_world (case xs of [] \<Rightarrow> ccrash | x # _ \<Rightarrow> cret x)" for xs :: "string list"
    by (cases xs) (auto intro: only_world_intros)
  show "within only_world (open_shm E seg)"
    unfolding open_shm_def by (intro only_world_intros)
  show "within only_world (find_string E seg n)"
    unfolding find_string_def by (intro only_world_intros lst)
  show "within only_world (name_param E c)"
    unfolding name_param_def by (rule lst)
qed

lemma only_world_Shutdown: "within only_world (CivVmPowerCtl_Shutdown E addr)"
proof -
  have "within only_world (case st of Inr _ \<Rightarrow> cret True | Inl text \<Rightarrow> cseq (oscall (std_cout E (text @ [newline]))) (cret False))"
    for st :: "string + unit"
    by (cases st) (simp_all, (intro only_world_intros)+)
  then show ?thesis unfolding CivVmPowerCtl_Shutdown_def by (intro only_world_intros)
qed

lemma find_none:
  "hoare P (find_vm name) (\<lambda>i s. P s \<and> (i = None \<longrightarrow> no_guest name s) \<and> i = FindVmInstance name (map snd (vmis s)))"
  by (rule tripleI) (auto simp: find_vm_def ret_iffs FindVmInstance_None no_guest_def)

lemma find_keeps: "hoare P (find_vm name) (\<lambda>_. P)"
  unfolding find_vm_def by (rule cget_keeps)

section \<open>Waiting for a guest\<close>

text \<open>A wait changes nothing but the world, or ends with the ready call.\<close>

definition wait_effect :: "('w, 't) build_state \<Rightarrow> bool \<Rightarrow> ('w, 't) build_state \<Rightarrow> bool" where
  "wait_effect s ok t \<longleftrightarrow> (\<exists>w. t = s\<lparr>world := w\<rparr> \<and> (ok \<longrightarrow> vm_state (this s) = kVmRunning)) \<or>
     ok \<and> (\<exists>w. t = s\<lparr>world := w, this := (this s)\<lparr>vm_ready_latch := vm_ready_latch (this s) - 1, vm_state := kVmRunning\<rparr>\<rparr>)"

lemma wait_effect_world: "wait_effect (s\<lparr>world := w\<rparr>) ok t \<Longrightarrow> wait_effect s ok t"
  by (auto simp: wait_effect_def)

lemma wait_body:
  assumes "cseq (oscall (os_sleep E)) (cseq (cwhen b SetVmReady) (cbind (get_this vm_state) (\<lambda>st.
      if st = kVmRunning then cret True else m))) s = (Ret ok, t)"
    and "\<And>w. m (s\<lparr>world := w\<rparr>) = (Ret ok, t) \<Longrightarrow> wait_effect (s\<lparr>world := w\<rparr>) ok t"
  shows "wait_effect s ok t"
proof -
  obtain w where w: "cseq (cwhen b SetVmReady) (cbind (get_this vm_state) (\<lambda>st. if st = kVmRunning then cret True else m))
      (s\<lparr>world := w\<rparr>) = (Ret ok, t)"
    using assms(1) by (auto simp: cseq_Ret_iff oscall_Ret_iff)
  show ?thesis
  proof (cases b)
    case True
    with w show ?thesis by (auto simp: run_simps SetVmReady_def wait_effect_def)
  next
    case False
    show ?thesis
    proof (cases "vm_state (this s) = kVmRunning")
      case True
      with False w show ?thesis by (auto simp: run_simps wait_effect_def)
    next
      case stopped: False
      with False w have "m (s\<lparr>world := w\<rparr>) = (Ret ok, t)" by (simp add: run_simps)
      from wait_effect_world [OF assms(2) [OF this]] show ?thesis .
    qed
  qed
qed

lemma WaitVmReady_effect: "WaitVmReady_loop E ready n s = (Ret ok, t) \<Longrightarrow> wait_effect s ok t"
proof (induction E ready n arbitrary: s rule: WaitVmReady_loop.induct)
  case (1 E ready n)
  note run = "1.prems" [unfolded WaitVmReady_loop.simps [of E ready n]]
  show ?case
  proof (cases "n < 200")
    case True
    show ?thesis
    proof (cases "main_proc (this s)")
      case None
      with run True show ?thesis by (simp add: run_simps)
    next
      case (Some q)
      let ?body = "cseq (oscall (os_sleep E)) (cseq (cwhen (ready (Suc n)) SetVmReady) (cbind (get_this vm_state) (\<lambda>st.
        if st = kVmRunning then cret True else WaitVmReady_loop E ready (Suc n))))"
      have "cbind (VmProcSimple_Running E q) (\<lambda>running. if \<not> running then cret False else ?body) s = (Ret ok, t)"
        using run True Some by (simp add: cbind_run [of "get_this main_proc"] get_this_run)
      then obtain running s1 where q: "VmProcSimple_Running E q s = (Ret running, s1)"
        and rest: "(if \<not> running then cret False else ?body) s1 = (Ret ok, t)"
        unfolding cbind_Ret_iff by blast
      obtain w1 where s1: "s1 = s\<lparr>world := w1\<rparr>" by (rule only_worldE [OF only_world_Running q])
      show ?thesis
      proof (cases running)
        case True
        with rest have "?body s1 = (Ret ok, t)" by simp
        then have "wait_effect s1 ok t" by (rule wait_body) (auto intro: "1.IH" [OF \<open>n < 200\<close>, where xa = True and xb = kVmEmpty])
        then show ?thesis unfolding s1 by (rule wait_effect_world)
      next
        case False
        with rest s1 show ?thesis by (auto simp: run_simps wait_effect_def)
      qed
    qed
  next
    case False
    with run have "ok = False" "t = s" by (simp_all add: run_simps)
    then show ?thesis by (auto simp: wait_effect_def intro!: exI [of _ "world s"])
  qed
qed

text \<open>So a wait is a ready call, or nothing, as far as the server is concerned.\<close>

lemma vb_call_WaitVmReady:
  assumes "vb_call a (WaitVmReady E ready) s = (Ret ok, t)" and "distinct (map fst (vmis s))"
  shows "(\<exists>w. t = s\<lparr>world := w\<rparr> \<and> (ok \<longrightarrow> guest a (\<lambda>b. vm_state b = kVmRunning) s)) \<or>
     ok \<and> (\<exists>w u. vb_call a SetVmReady s = (Ret (), u) \<and> t = u\<lparr>world := w\<rparr>)"
proof (cases "map_of (vmis s) a")
  case (Some b)
  let ?u = "\<lparr>world = world s, civ_config_path = civ_config_path s, cid_pool = cid_pool s, socketPath = socketPath s, this = b\<rparr>"
  obtain r v where v: "WaitVmReady E ready ?u = (r, v)" by (cases "WaitVmReady E ready ?u")
  with assms(1) Some have "r = Ret ok" and t: "t = s\<lparr>world := world v, civ_config_path := civ_config_path v, cid_pool := cid_pool v,
      socketPath := socketPath v, vmis := std_map_set a (this v) (vmis s)\<rparr>"
    by (auto simp: vb_call_def obj_run_def)
  with v have "wait_effect ?u ok v" by (simp add: WaitVmReady_def WaitVmReady_effect)
  then show ?thesis
    unfolding wait_effect_def
  proof (elim disjE conjE exE)
    fix w assume "v = ?u\<lparr>world := w\<rparr>" and "ok \<longrightarrow> vm_state (this ?u) = kVmRunning"
    with t Some std_map_set_same [OF Some assms(2)] show ?thesis by (auto simp: guest_def)
  next
    fix w assume ok and "v = ?u\<lparr>world := w, this := (this ?u)\<lparr>vm_ready_latch := vm_ready_latch (this ?u) - 1, vm_state := kVmRunning\<rparr>\<rparr>"
    with t Some show ?thesis by (auto simp: vb_call_def obj_run_def SetVmReady_def run_simps intro!: exI [of _ w])
  qed
qed (use assms(1) in \<open>simp add: vb_call_def\<close>)

end
