(* ===== verification/Server_Contract.thy ===== *)
theory Server_Contract
  imports Server_Facts
begin

text \<open>
  The contract between the server and a claim about its states: a predicate that the single steps keep is kept by every
  handler, by the exit of a guest and by the ready call of a guest, under every schedule of the threads.
\<close>

section \<open>The contract\<close>

locale server_pred =
  fixes E :: "('w, 't) env" and I :: "('w, 't) server_state \<Rightarrow> bool"
  assumes inv: "I s \<Longrightarrow> server_inv s"
    and host: "I s \<Longrightarrow> I (s\<lparr>world := w\<rparr>)"
    and listens: "I s \<Longrightarrow> I (s\<lparr>listening := b\<rparr>)"
    and flagged: "I s \<Longrightarrow> I (s\<lparr>stop_server := True\<rparr>)"
    and pending: "I s \<Longrightarrow> guest a started s \<Longrightarrow> I (s\<lparr>listener := AddPendingVM cid (Some a) (listener s)\<rparr>)"
    and called: "I s \<Longrightarrow> VmReady peer (listener s) = (st, cb, l) \<Longrightarrow> I (s\<lparr>listener := l\<rparr>)"
    and waits: "I s \<Longrightarrow> guest a started s \<Longrightarrow> I (s\<lparr>vm_threads := a # vm_threads s\<rparr>)"
    and quits: "I s \<Longrightarrow> I (s\<lparr>vm_threads := removeAll a (vm_threads s)\<rparr>)"
    and builds: "I s \<Longrightarrow> no_guest name s \<Longrightarrow> build_vm E name c s = (Ret r, t) \<Longrightarrow> I t"
    and envs: "I s \<Longrightarrow> vb_call a (SetProcessEnv e) s = (Ret (), t) \<Longrightarrow> I t"
    and starts: "I s \<Longrightarrow> guest a created s \<Longrightarrow> vb_call a (StartVm E) s = (Ret (), t) \<Longrightarrow> I t"
    and readies: "I s \<Longrightarrow> guest a started s \<Longrightarrow> vb_call a SetVmReady s = (Ret (), t) \<Longrightarrow> I t"
    and stops: "hoare I (Server_StopVm E seg) (\<lambda>_. I)"
    and deletes: "I s \<Longrightarrow> DeleteVmInstance E name s = (Ret (), t) \<Longrightarrow>
      (\<And>i. FindVmInstance name (map snd (vmis s)) = Some i \<Longrightarrow> fst (vmis s ! i) \<notin> set (vm_threads s)) \<Longrightarrow> I t"
begin

text \<open>A guest that has been built, one that has been started, both without a thread that waits.\<close>

definition is_new :: "nat \<Rightarrow> ('w, 't) server_state \<Rightarrow> bool" where
  "is_new a s \<longleftrightarrow> I s \<and> a \<notin> set (vm_threads s) \<and> guest a created s"

definition is_up :: "nat \<Rightarrow> ('w, 't) server_state \<Rightarrow> bool" where
  "is_up a s \<longleftrightarrow> I s \<and> a \<notin> set (vm_threads s) \<and> guest a started s"

lemma from_host: "within only_world m \<Longrightarrow> hoare I m (\<lambda>_. I)"
  by (rule tripleI, drule withinD, assumption) (auto simp: only_world_def host)

lemma from_host_new: "within only_world m \<Longrightarrow> hoare (is_new a) m (\<lambda>_. is_new a)"
  by (rule tripleI, drule withinD, assumption) (auto simp: only_world_def host is_new_def guest_def)

lemmas shm = from_host [OF only_world_shm(1)] from_host [OF only_world_shm(2)] from_host [OF only_world_shm(3)]
  from_host [OF only_world_oscall] from_host [OF only_world_ReadConfigFile] from_host [OF only_world_Shutdown]

lemma gets:
  assumes "\<And>s. P s \<Longrightarrow> I s"
  shows "hoare P (vb_call a (get_this f)) (\<lambda>x s. P s \<and> guest a (\<lambda>b. x = f b) s)"
proof (rule tripleI)
  fix s x t assume s: "P s" and run: "vb_call a (get_this f) s = (Ret x, t)"
  from vb_call_get [OF run server_invD(1) [OF inv [OF assms [OF s]]]] s show "P t \<and> guest a (\<lambda>b. x = f b) t" by simp
qed

lemma gets_keep:
  assumes "\<And>s. P s \<Longrightarrow> I s"
  shows "hoare P (vb_call a (get_this f)) (\<lambda>_. P)"
  by (rule triple_conseq [OF gets [of P, OF assms]]) auto

lemma new_env: "hoare (is_new a) (vb_call a (SetProcessEnv e)) (\<lambda>_. is_new a)"
proof (rule tripleI)
  fix s t and x :: unit
  assume s: "is_new a s" and run: "vb_call a (SetProcessEnv e) s = (Ret x, t)"
  have "guest a created t"
    by (rule vb_call_guest [OF run, of created]) (use s in \<open>auto simp: is_new_def SetProcessEnv_def ret_iffs created_def split: option.splits\<close>)
  with s run envs vb_call_inv(2) [OF run obj_kept.life_SetProcessEnv] inv show "is_new a t" by (auto simp: is_new_def)
qed

lemma new_start: "hoare (is_new a) (vb_call a (StartVm E)) (\<lambda>_. is_up a)"
proof (rule tripleI)
  fix s t and x :: unit
  assume s: "is_new a s" and run: "vb_call a (StartVm E) s = (Ret x, t)"
  have "guest a started t"
    by (rule vb_call_guest [OF run, of created])
      (use s in \<open>auto simp: is_new_def StartVm_def ret_iffs started_def created_def split: option.splits if_splits\<close>)
  with s run starts vb_call_inv(2) [OF run obj_kept.life_StartVm] inv show "is_up a t" by (auto simp: is_new_def is_up_def)
qed

lemma up_ready: "hoare (is_up a) (vb_call a SetVmReady) (\<lambda>_. is_up a)"
proof (rule tripleI)
  fix s t and x :: unit
  assume s: "is_up a s" and run: "vb_call a SetVmReady s = (Ret x, t)"
  have "guest a started t" by (rule vb_call_Ret [OF run]) (auto simp: SetVmReady_def ret_iffs started_def)
  with s run readies vb_call_inv(2) [OF run obj_kept.life_SetVmReady] inv show "is_up a t" by (auto simp: is_up_def)
qed

lemma up_waits: "hoare (is_up a) (thread_waits a) (\<lambda>_. I)"
  unfolding thread_waits_def by (rule triple_modify) (auto simp: is_up_def waits)

lemma deletes_named:
  "hoare (\<lambda>s. I s \<and> a \<notin> set (vm_threads s) \<and> guest a (\<lambda>b. name = VmBuilder_GetName b) s) (DeleteVmInstance E name) (\<lambda>_. I)"
proof (rule tripleI)
  fix s t and x :: unit
  assume s: "I s \<and> a \<notin> set (vm_threads s) \<and> guest a (\<lambda>b. name = VmBuilder_GetName b) s"
    and run: "DeleteVmInstance E name s = (Ret x, t)"
  then have g: "guest a (\<lambda>b. vm_name b = name) s" by (simp add: VmBuilder_GetName_def guest_def) metis
  have "fst (vmis s ! i) \<notin> set (vm_threads s)" if "FindVmInstance name (map snd (vmis s)) = Some i" for i
    using find_named [OF inv g that] s by simp
  with s run show "I t" by (intro deletes [of s name t]) auto
qed

lemma exits: "hoare I (VmThread_exit E a) (\<lambda>_. I)"
proof -
  have q: "hoare I (cmodify (\<lambda>s. s\<lparr>vm_threads := removeAll a (vm_threads s)\<rparr>)) (\<lambda>_ s. I s \<and> a \<notin> set (vm_threads s))"
    by (rule triple_modify) (simp add: quits)
  have w: "hoare I (vb_call a (WaitVmExit E)) (\<lambda>_. I)"
  proof (rule tripleI)
    fix s t and x :: unit
    assume "I s" "vb_call a (WaitVmExit E) s = (Ret x, t)"
    with vb_call_host [OF _ only_world_WaitVmExit server_invD(1) [OF inv]] show "I t" using host by blast
  qed
  have d: "hoare (\<lambda>s. (I s \<and> a \<notin> set (vm_threads s)) \<and> guest a (\<lambda>b. name = VmBuilder_GetName b) s) (DeleteVmInstance E name) (\<lambda>_. I)" for name
    by (rule triple_conseq [OF deletes_named [of a]]) auto
  show ?thesis
    unfolding VmThread_exit_def
    by (rule triple_ctry_crash, rule triple_cseq [OF w triple_cseq [OF q triple_cbind [OF gets d]]]) simp
qed

lemma up_wait_ready: "hoare (is_up a) (vb_call a (WaitVmReady E ready)) (\<lambda>_. is_up a)"
proof (rule tripleI)
  fix s t ok
  assume s: "is_up a s" and run: "vb_call a (WaitVmReady E ready) s = (Ret ok, t)"
  have world: "is_up a (u\<lparr>world := w\<rparr>)" if "is_up a u" for u w
    using that host by (auto simp: is_up_def guest_def)
  from s have "distinct (map fst (vmis s))" by (simp add: is_up_def inv server_invD(1))
  from vb_call_WaitVmReady [OF run this] show "is_up a t"
    using s world tripleE [OF up_ready s] by blast
qed

lemma VmThread: "hoare (is_new a) (VmThread E ready order a n) (\<lambda>_. I)"
proof -
  let ?read = "vb_call a (get_this VmBuilder_GetState)"
  have read: "hoare I ?read (\<lambda>_. I)" "hoare (is_up a) ?read (\<lambda>_. is_up a)"
    by (rule gets_keep, simp add: is_up_def)+
  have one: "hoare (is_up a) (case order of
        Reader_first \<Rightarrow> cbind ?read (\<lambda>st. cseq (vb_call a SetVmReady) (cseq (thread_waits a) (cret st)))
      | Thread_first \<Rightarrow> cseq (vb_call a SetVmReady) (cseq (thread_waits a) ?read)
      | Exit_first \<Rightarrow> cseq (vb_call a SetVmReady) (cseq (thread_waits a) (cseq (VmThread_exit E a) ?read))) (\<lambda>_. I)"
    by (cases order)
      (simp_all add: triple_cbind [OF read(2) triple_cseq [OF up_ready triple_cseq [OF up_waits triple_cret]]]
        triple_cseq [OF up_ready triple_cseq [OF up_waits read(1)]]
        triple_cseq [OF up_ready triple_cseq [OF up_waits triple_cseq [OF exits read(1)]]])
  have add: "hoare (is_up a) (cmodify (\<lambda>s. s\<lparr>listener := AddPendingVM cid (Some a) (listener s)\<rparr>)) (\<lambda>_. is_up a)" for cid
    by (rule triple_modify) (auto simp: is_up_def guest_def intro: pending)
  have fail: "hoare (is_up a) (cbind (vb_call a (get_this VmBuilder_GetName)) (\<lambda>name. cseq (DeleteVmInstance E name) ?read)) (\<lambda>_. I)"
    by (rule triple_cbind [OF gets triple_cseq [OF triple_conseq [OF deletes_named [of a]] read(1)]]) (auto simp: is_up_def)
  have ok: "hoare (is_up a) (cseq (thread_waits a) (cseq (cwhen b (VmThread_exit E a)) ?read)) (\<lambda>_. I)" for b
    by (rule triple_cseq [OF up_waits triple_cseq [OF triple_cwhen [OF exits] read(1)]])
  have two: "hoare (is_up a)
      (cbind (vb_call a (get_this VmBuilder_GetCid)) (\<lambda>cid.
       cseq (cmodify (\<lambda>s. s\<lparr>listener := AddPendingVM cid (Some a) (listener s)\<rparr>))
      (cbind (vb_call a (WaitVmReady E ready)) (\<lambda>ok.
       if ok then cseq (thread_waits a) (cseq (cwhen (order = Exit_first) (VmThread_exit E a)) ?read)
       else cbind (vb_call a (get_this VmBuilder_GetName)) (\<lambda>name. cseq (DeleteVmInstance E name) ?read))))) (\<lambda>_. I)"
    by (rule triple_cbind [OF gets_keep triple_cseq [OF add triple_cbind [OF up_wait_ready triple_if [OF ok fail]]]]) (simp add: is_up_def)
  show ?thesis
    unfolding VmThread_def Let_def by (rule triple_ctry_crash, rule triple_cseq [OF new_start], rule triple_if [OF one two])
qed

lemma build: "hoare (\<lambda>s. I s \<and> no_guest name s) (build_vm E name c) (\<lambda>r s. I s \<and> (\<forall>a. r = Some a \<longrightarrow> is_new a s))"
proof (rule tripleI)
  fix s r t assume s: "I s \<and> no_guest name s" and run: "build_vm E name c s = (Ret r, t)"
  then have "I t" using builds by blast
  with build_vm_inv(2) [OF inv _ run] s show "I t \<and> (\<forall>a. r = Some a \<longrightarrow> is_new a t)" by (auto simp: is_new_def)
qed

text \<open>Overwriting a guest that has not been started: it has no thread.\<close>

lemma overwrite:
  "hoare (\<lambda>s. I s \<and> (i = None \<longrightarrow> no_guest name s) \<and> i = FindVmInstance name (map snd (vmis s)))
     (case i of
        None \<Rightarrow> cret True
      | Some i \<Rightarrow>
          cbind (cget (\<lambda>s. VmBuilder_GetState (snd (vmis s ! i)))) (\<lambda>st.
          if st \<noteq> kVmCreated \<and> st \<noteq> kVmEmpty then cret False
          else cseq (DeleteVmInstance E name) (cret True)))
     (\<lambda>go s. I s \<and> (go \<longrightarrow> no_guest name s))"
proof (cases i)
  case (Some k)
  have del: "hoare (\<lambda>s. I s \<and> Some k = FindVmInstance name (map snd (vmis s)) \<and> \<not> started (snd (vmis s ! k)))
      (DeleteVmInstance E name) (\<lambda>_ s. I s \<and> no_guest name s)"
  proof (rule tripleI)
    fix s t and x :: unit
    assume s: "I s \<and> Some k = FindVmInstance name (map snd (vmis s)) \<and> \<not> started (snd (vmis s ! k))"
      and run: "DeleteVmInstance E name s = (Ret x, t)"
    then have f: "FindVmInstance name (map snd (vmis s)) = Some k" and si: "server_inv s" by (simp_all add: inv)
    have k: "k < length (vmis s)" "vm_name (snd (vmis s ! k)) = name" using FindVmInstance_Some [OF f] by auto
    have at: "map_of (vmis s) (fst (vmis s ! k)) = Some (snd (vmis s ! k))"
      using k(1) server_invD(1) [OF si] by (simp add: map_of_is_SomeI)
    have "fst (vmis s ! k) \<notin> set (vm_threads s)"
      using s at server_invD(3) [OF si, of "fst (vmis s ! k)"] by (auto simp: guest_def)
    with s f run have "I t" by (intro deletes [of s name t]) auto
    moreover have "vmis t = erase_at k (vmis s)" using DeleteVmInstance_Ret [of E name s t] run f by (simp add: globals_only_def)
    then have "no_guest name t"
      using erase_at_notin [OF server_invD(2) [OF si], of k] k by (simp add: no_guest_def map_erase_at [symmetric])
    ultimately show "I t \<and> no_guest name t" ..
  qed
  let ?P = "\<lambda>s. I s \<and> Some k = FindVmInstance name (map snd (vmis s))"
  have go: "hoare (\<lambda>s. ?P s \<and> st = VmBuilder_GetState (snd (vmis s ! k)))
      (if st \<noteq> kVmCreated \<and> st \<noteq> kVmEmpty then cret False else cseq (DeleteVmInstance E name) (cret True))
      (\<lambda>go s. I s \<and> (go \<longrightarrow> no_guest name s))" for st
    by (rule triple_if, rule triple_cret, simp, rule triple_cseq [OF triple_conseq [OF del] triple_cret])
      (auto simp: started_def VmBuilder_GetState_def)
  show ?thesis
    unfolding Some option.case by (rule triple_conseq [OF triple_cbind [OF triple_cget [where P = ?P] go]]) auto
qed (auto intro: triple_cret)

lemma ImportVm: "hoare I (ImportVm E seg) (\<lambda>_. I)"
proof -
  have made: "hoare (\<lambda>s. I s \<and> (go \<longrightarrow> no_guest name s))
      (if \<not> go then cret (- 1) else cbind (build_by_type E name c) (\<lambda>a. cret (if a = None then - 1 else 0))) (\<lambda>_. I)" for go name c
    by (cases go) (auto simp: build_by_type_def intro: triple_cret triple_cbind [OF build triple_cret])
  show ?thesis
    unfolding ImportVm_def
    by (rule triple_cseq [OF shm(1)], rule triple_cbind [OF shm(2)], rule hoare_guard, assumption, rule triple_cbind [OF shm(5)],
        rule triple_case_prod, rule hoare_guard, assumption, rule triple_cbind [OF shm(3)], rule hoare_guard, assumption,
        rule triple_cbind [OF find_none triple_cbind [OF overwrite made]])
qed

lemma StartVm: "hoare I (Server_StartVm E ready order seg) (\<lambda>_. I)"
proof -
  have run: "hoare (\<lambda>s. I s \<and> (\<forall>a. vb = Some a \<longrightarrow> is_new a s))
     (case vb of None \<Rightarrow> cret (- 1) | Some a \<Rightarrow>
      cbind (oscall (shm_find E seg ''StartVmEnv'')) (\<lambda>vm_env.
      cseq (vb_call a (SetProcessEnv (case vm_env of None \<Rightarrow> [] | Some strs \<Rightarrow> strs)))
     (cbind (VmThread E ready order a n) (\<lambda>st. cret (if st = kVmRunning then 0 else - 1))))) (\<lambda>_. I)" for vb n
  proof (cases vb)
    case (Some a)
    show ?thesis
      unfolding Some option.case
      by (rule triple_conseq [OF triple_cbind [OF from_host_new [OF only_world_oscall]
            triple_cseq [OF new_env triple_cbind [OF VmThread triple_cret]]]]) auto
  qed (auto intro: triple_cret)
  have made: "hoare (\<lambda>s. I s \<and> (i = None \<longrightarrow> no_guest name s) \<and> i = FindVmInstance name (map snd (vmis s)))
      (if i \<noteq> None then cret (- 1) else cbind (build_by_type E name c) f) (\<lambda>_. I)"
    if "\<And>vb. hoare (\<lambda>s. I s \<and> (\<forall>a. vb = Some a \<longrightarrow> is_new a s)) (f vb) (\<lambda>_. I)"
    for i name c and f :: "nat option \<Rightarrow> ('w, 't, int) server_op"
  proof (cases i)
    case None
    have "hoare (\<lambda>s. I s \<and> no_guest name s) (cbind (build_vm E name c) f) (\<lambda>_. I)" by (rule triple_cbind [OF build that])
    then show ?thesis unfolding None by (simp add: build_by_type_def) (erule triple_conseq, auto)
  qed (auto intro: triple_cret)
  show ?thesis
    unfolding Server_StartVm_def
    by (rule triple_cseq [OF shm(1)], rule triple_cbind [OF shm(2)], rule hoare_guard, assumption, rule triple_cbind [OF shm(5)],
        rule triple_case_prod, rule hoare_guard, assumption, rule triple_cbind [OF shm(3)], rule hoare_guard, assumption,
        rule triple_cbind [OF find_none made [OF run]])
qed

lemma ListVm: "hoare I (ListVm E seg) (\<lambda>_. I)"
  unfolding ListVm_def
  by (rule triple_cseq [OF shm(1) triple_cseq [OF shm(4) triple_cbind [OF cget_keeps triple_cbind [OF shm(4)]]]],
      rule triple_if [OF throw_keeps triple_cret])

lemma GetVmInfo: "hoare I (GetVmInfo E seg) (\<lambda>_. I)"
  unfolding GetVmInfo_def
  by (rule triple_cseq [OF shm(1) triple_cbind [OF shm(2) triple_cbind [OF find_keeps]]],
      rule opt_keeps [OF triple_cret], assumption,
      rule triple_cseq [OF shm(4) triple_cbind [OF cget_keeps triple_cbind [OF shm(4)]]],
      rule triple_if [OF throw_keeps triple_cret])

theorem handle_msg: "hoare I (handle_msg E ready order m) (\<lambda>_. I)"
proof -
  have resp: "hoare I (respond op) (\<lambda>_. I)" if "hoare I op (\<lambda>_. I)" for op
    unfolding respond_def by (rule triple_cbind [OF that triple_cret])
  have flag: "hoare I (cseq (cmodify (\<lambda>s. s\<lparr>stop_server := True\<rparr>)) (cret x)) (\<lambda>_. I)" for x
    by (rule triple_cseq [OF triple_modify triple_cret]) (auto intro: flagged)
  show ?thesis
    unfolding handle_msg_def
    by (cases "msg_type m") (simp_all add: flag resp ListVm ImportVm StartVm stops GetVmInfo triple_cret)
qed

theorem Setup: "hoare I (SetupStartupListenerService E) (\<lambda>_. I)"
  unfolding SetupStartupListenerService_def RunListenerService_def
  by (rule triple_cseq [OF triple_cbind [OF shm(4) triple_modify] triple_cret]) (auto intro: listens)

text \<open>The callback that is called belongs to a guest that was started, or to one that is gone.\<close>

theorem Server_VmReady: "hoare I (Server_VmReady peer) (\<lambda>_. I)"
proof (rule tripleI)
  fix s st t assume s: "I s" and run: "Server_VmReady peer s = (Ret st, t)"
  obtain st' cb l where r: "VmReady peer (listener s) = (st', cb, l)" by (metis prod_cases3)
  show "I t"
  proof (cases cb)
    case None
    with run r called [OF s r] show ?thesis by (auto simp: Server_VmReady_def ret_iffs)
  next
    case (Some a)
    with run r obtain u where u: "vb_call a SetVmReady s = (Ret (), u)" and t: "t = u\<lparr>listener := l\<rparr>"
      by (auto simp: Server_VmReady_def ret_iffs)
    have "a \<in> called_back s"
      using r Some by (auto simp: VmReady_def called_back_def split: option.splits dest: map_of_SomeD)
    moreover obtain b where b: "map_of (vmis s) a = Some b" using u by (rule vb_callE)
    ultimately have "guest a started s"
      using inv [OF s] map_of_SomeD [OF b] by (auto simp: server_inv_def guest_def)
    with s u have "I u" by (intro readies [of s a u])
    moreover have "listener u = listener s" using u by (rule vb_callE) (simp add: globals_only_def)
    ultimately show ?thesis unfolding t using called [of u] r by simp
  qed
qed

end

section \<open>The invariant\<close>

lemma set_std_map_assign: "(x, y) \<in> set (std_map_assign k v m) \<Longrightarrow> (x, y) = (k, v) \<or> (x, y) \<in> set m"
  by (induction k v m rule: std_map_assign.induct) (auto split: if_splits)

lemma called_back_add: "called_back (s\<lparr>listener := AddPendingVM c (Some a) (listener s)\<rparr>) \<subseteq> insert a (called_back s)"
  by (auto simp: called_back_def AddPendingVM_def dest!: set_std_map_assign)

lemma called_back_ready: "VmReady peer (listener s) = (st, cb, l) \<Longrightarrow> called_back (s\<lparr>listener := l\<rparr>) \<subseteq> called_back s"
  by (auto simp: called_back_def VmReady_def std_map_erase_def split: option.splits)

lemma server_inv_listener:
  assumes "server_inv s" and "called_back (s\<lparr>listener := l\<rparr>) \<subseteq> called_back s \<union> {a. guest a started s}"
  shows "server_inv (s\<lparr>listener := l\<rparr>)"
proof -
  have "a < next_addr s \<and> (\<forall>b. (a, b) \<in> set (vmis s) \<longrightarrow> started b)" if "a \<in> called_back s \<union> {a. guest a started s}" for a
    using that
  proof (elim UnE)
    assume "a \<in> {a. guest a started s}"
    then obtain b where b: "(a, b) \<in> set (vmis s)" "started b" by (auto simp: guest_def dest: map_of_SomeD)
    with assms(1) have "c = b" if "(a, c) \<in> set (vmis s)" for c using that by (metis eq_key_imp_eq_value server_invD(1))
    moreover have "a < next_addr s" using assms(1) b(1) by (force simp: server_inv_def)
    ultimately show ?thesis using b(2) by blast
  qed (use assms(1) in \<open>simp add: server_inv_def\<close>)
  with assms show ?thesis unfolding server_inv_def by auto
qed

interpretation base: server_pred E server_inv
  for E :: "('w, 't) env"
proof
  fix s :: "('w, 't) server_state"
  assume s: "server_inv s"
  show "server_inv (s\<lparr>world := w\<rparr>)" "server_inv (s\<lparr>listening := b\<rparr>)" "server_inv (s\<lparr>stop_server := True\<rparr>)"
    "server_inv (s\<lparr>vm_threads := removeAll a (vm_threads s)\<rparr>)" for w b a
    using s by (simp_all add: server_inv_def called_back_def)
  show "server_inv (s\<lparr>listener := AddPendingVM cid (Some a) (listener s)\<rparr>)" if "guest a started s" for cid a
    by (rule server_inv_listener [OF s]) (use called_back_add that in blast)
  show "server_inv (s\<lparr>listener := l\<rparr>)" if "VmReady peer (listener s) = (st, cb, l)" for peer st cb l
    by (rule server_inv_listener [OF s]) (use called_back_ready [OF that] in blast)
  show "server_inv (s\<lparr>vm_threads := a # vm_threads s\<rparr>)" if "guest a started s" for a
    using s that by (auto simp: server_inv_def called_back_def guest_def dest: map_of_SomeD)
  show "server_inv t" if "no_guest name s" "build_vm E name c s = (Ret r, t)" for name c r t
    using build_vm_inv(1) [OF s that] .
  show "server_inv t" if "vb_call a (SetProcessEnv e) s = (Ret (), t)" for a e t
    using vb_call_inv(1) [OF that obj_kept.life_SetProcessEnv s] .
  show "server_inv t" if "guest a created s" "vb_call a (StartVm E) s = (Ret (), t)" for a t
    using vb_call_inv(1) [OF that(2) obj_kept.life_StartVm s] .
  show "server_inv t" if "guest a started s" "vb_call a SetVmReady s = (Ret (), t)" for a t
    using vb_call_inv(1) [OF that(2) obj_kept.life_SetVmReady s] .
  show "server_inv t" if "DeleteVmInstance E name s = (Ret (), t)"
    "\<And>i. FindVmInstance name (map snd (vmis s)) = Some i \<Longrightarrow> fst (vmis s ! i) \<notin> set (vm_threads s)" for name t
    using DeleteVmInstance_inv [OF that(1) s that(2)] .
next
  fix seg
  have stop: "hoare server_inv (vb_call a (StopVm E)) (\<lambda>_. server_inv)" for a
    by (rule tripleI, rule vb_call_inv(1) [OF _ obj_kept_StopVm])
  have host: "hoare server_inv m (\<lambda>_. server_inv)" if "within only_world m" for m :: "('w, 't, 'a) server_op"
    by (rule triple_within [OF that]) (auto simp: only_world_def)
  show "hoare server_inv (Server_StopVm E seg) (\<lambda>_. server_inv)"
    unfolding Server_StopVm_def
    by (rule triple_cseq [OF host [OF only_world_shm(1)] triple_cbind [OF host [OF only_world_shm(2)] triple_cbind [OF find_keeps]]],
        rule opt_keeps [OF triple_cret], assumption, rule triple_cbind [OF cget_keeps], rule triple_case_prod,
        rule triple_cbind [OF host [OF only_world_Shutdown] triple_cseq [OF triple_cwhen [OF stop] triple_cret]])
qed

end
