(* ===== verification/Server_Reach.thy ===== *)
theory Server_Reach
  imports Server_Contract
begin

text \<open>
  The server over time: the states it reaches over any sequence of messages, guests that exit and guests that report
  ready, and what holds in all of them; a run of the server on the reference host for the witnesses.
\<close>

section \<open>Reachable states\<close>

text \<open>
  One step of a server that runs: it answers a message (the type it came with and the type of the answer), the
  emulator of a guest exits, a guest reports ready if there is a listener; under every schedule of the threads.
\<close>

datatype server_event = Answered CivMsgType CivMsgType | Exited | Reported

inductive server_step :: "('w, 't) env \<Rightarrow> ('w, 't) server_state \<Rightarrow> server_event \<Rightarrow> ('w, 't) server_state \<Rightarrow> bool" for E where
  answers: "handle_msg E ready order m s = (Ret r, t) \<Longrightarrow> server_step E s (Answered (msg_type m) r) t"
| exits: "a \<in> set (vm_threads s) \<Longrightarrow> VmThread_exit E a s = (Ret (), t) \<Longrightarrow> server_step E s Exited t"
| reports: "listening s \<Longrightarrow> Server_VmReady peer s = (Ret st, t) \<Longrightarrow> server_step E s Reported t"

text \<open>The states of a server: it starts without guests, sets up the listener, and takes steps in any order.\<close>

inductive server_reach :: "('w, 't) env \<Rightarrow> 'w civ_state \<Rightarrow> ('w, 't) server_state \<Rightarrow> bool" for E g where
  start: "SetupStartupListenerService E (server_init g) = (Ret ok, s) \<Longrightarrow> server_reach E g s"
| step: "server_reach E g s \<Longrightarrow> server_step E s e t \<Longrightarrow> server_reach E g t"

lemmas reach_message = server_reach.step [OF _ server_step.answers]

text \<open>A predicate that fulfils the contract and holds of a new server holds in every state.\<close>

context server_pred
begin

lemma step:
  assumes "I s" and "server_step E s e t"
  shows "I t"
  using assms(2)
proof cases
  case (answers ready order m r)
  from tripleE [OF handle_msg assms(1) answers(2)] show ?thesis .
next
  case (exits a)
  from tripleE [OF server_pred.exits [OF server_pred_axioms] assms(1) exits(3)] show ?thesis .
next
  case (reports peer st)
  from tripleE [OF Server_VmReady assms(1) reports(3)] show ?thesis .
qed

lemma reachable:
  assumes "server_reach E g s" and "I (server_init g)"
  shows "I s"
  using assms(1)
proof (induction rule: server_reach.induct)
  case (start ok s)
  from tripleE [OF Setup assms(2) start] show ?case .
next
  case (step s e t)
  from server_pred.step [OF server_pred_axioms step.IH step.hyps(2)] show ?case .
qed

end

lemma server_reach_inv: "server_reach E g s \<Longrightarrow> server_inv s"
  by (erule base.reachable) (simp add: server_init_def server_inv_def called_back_def)

section \<open>A server on the reference host\<close>

text \<open>A message that imports the guest of \<open>demo_cfg\<close>, and one that starts it.\<close>

definition demo_start :: "ref_world civ_state" where
  "demo_start = \<lparr>world = demo_host, civ_config_path = Some ''/civ'', cid_pool = initial_bs, socketPath = []\<rparr>"

definition demo_init :: "(ref_world, ref_tree) server_state" where
  "demo_init = (server_init demo_start)\<lparr>listening := True\<rparr>"

lemma demo_setup: "SetupStartupListenerService ref_env (server_init demo_start) = (Ret True, demo_init)"
  by (simp add: SetupStartupListenerService_def RunListenerService_def demo_init_def run_simps ref_env_def)

lemma demo_read:
  assumes "world s = demo_host"
  shows "ReadConfigFile ref_env ''/c.ini'' c s = (Ret (True, demo_cfg), s)"
  using assms
  by (simp add: ReadConfigFile_def SanitizeOpts_def kConfigMap_def run_simps demo_host_def demo_cfg_def ref_defs oscall_throw_def
    if_run)

definition demo_listed :: "(ref_world, ref_tree) server_state" where
  "demo_listed = demo_init\<lparr>cid_pool := cid_pool demo_built, civ_config_path := civ_config_path demo_built,
     socketPath := socketPath demo_built, vmis := [(0, this demo_built)], next_addr := 1\<rparr>"

lemma demo_build_vm: "build_vm ref_env ''civ-1'' demo_cfg demo_init = (Ret (Some 0), demo_listed)"
proof -
  have "obj_run (BuildVmArgs ref_env) (VmBuilderQemu_new ''civ-1'' demo_cfg) demo_init =
      (Ret True, this demo_built, demo_init\<lparr>cid_pool := cid_pool demo_built, civ_config_path := civ_config_path demo_built,
     socketPath := socketPath demo_built\<rparr>)"
    using demo_build(1,8)
    by (simp add: obj_run_def demo_init_def server_init_def demo_start_def demo_state_def [symmetric]) (simp add: demo_state_def)
  then show ?thesis by (simp add: build_vm_def demo_listed_def demo_init_def server_init_def)
qed

lemma demo_name: "name_param ref_env demo_cfg s = (Ret ''civ-1'', s)"
  by (simp add: name_param_def demo_cfg_def GetValue_def ref_defs run_simps isspace_def)

lemma demo_import: "handle_msg ref_env ready order \<lparr>msg_type = kCivMsgImportVm, payload = ''shm1''\<rparr> demo_init =
    (Ret kCivMsgRespondSuccess, demo_listed)"
proof -
  have w: "world demo_init = demo_host" by (simp add: demo_init_def server_init_def demo_start_def)
  have o: "open_shm ref_env ''shm1'' demo_init = (Ret (), demo_init)"
    by (simp add: open_shm_def run_simps ref_defs)
  have f: "find_string ref_env ''shm1'' ''ImportVmCfgPath'' demo_init = (Ret ''/c.ini'', demo_init)"
    by (simp add: find_string_def run_simps w) (simp add: demo_host_def ref_defs run_simps demo_init_def server_init_def demo_start_def)
  have v: "find_vm ''civ-1'' demo_init = (Ret None, demo_init)"
    by (simp add: find_vm_def run_simps demo_init_def server_init_def)
  show ?thesis
    by (simp add: handle_msg_def respond_def ImportVm_def run_simps o f v demo_read [OF w] demo_name build_by_type_def demo_build_vm)
qed

lemma demo_exe: "\<exists>exe. exe_of (emul_cmd (this demo_built)) = Some exe"
proof -
  have "all_ready demo_built" by (rule built_all_ready [OF ref_trim_law demo_build(5,1)])
  then have "startable (VmProcSimple_new (emul_cmd (this demo_built)))" by (simp add: all_ready_def main_ready_def demo_main)
  from startable_exe [OF this] show ?thesis by (simp add: VmProcSimple_new_def)
qed

lemma demo_vm_name: "vm_name (this demo_built) = ''civ-1''"
  using withinD [OF name_kept.whole [OF trimmed_True] demo_build(1)]
  by (simp add: name_kept_def demo_build VmBuilderQemu_new_def)

lemma batsys_exe: "exe_of ''batsys'' = Some ''batsys''"
  by (simp add: exe_of_def find_first_not_of_def find_first_of_from_def str_find_def Let_def)

lemmas start_eval =
  obj_run_def StartVm_def SetProcLogDir_def for_co_procs_def run_if_stopped_def run_simps ref_env_def
     VmProcSimple_SetLogDir_def VmProcSimple_SetEnv_def VmProcess_Run_def VmProcSimple_Run_def VmProcSimple_Running_def ThreadMon_launch_def
    VmProcSimple_new_def ref_exists_def demo_host_def ref_world0_def ref_write_def Let_def batsys_exe

lemma obj_run_start:
  fixes s :: "(ref_world, ref_tree) server_state"
  assumes "main_proc b = Some (VmProcSimple_SetEnv envs (VmProcSimple_new c))" "co_procs b = [VmProcSimple_new ''batsys'']" "exe_of c = Some exe"
   "vm_name b = ''civ-1''" "world s = demo_host"
  shows "\<exists>b' t. obj_run (StartVm ref_env) b s = (Ret (), b', t)"
  using assms by (simp add: start_eval)

lemma vb_call_at:
  "vmis s = [(0, b)] \<Longrightarrow> obj_run m b s = (r, b', t) \<Longrightarrow> vb_call 0 m s = (r, t\<lparr>vmis := [(0, b')]\<rparr>)"
  using obj_run_globals [of m b s r b' t] by (simp add: vb_call_def globals_only_def std_map_set_def)

lemma demo_started:
  assumes "map_of (r_shm demo_host) (seg, ''StartVmCfgPath'') = Some [''/c.ini'']"
  shows "\<exists>t. handle_msg ref_env ready Thread_first \<lparr>msg_type = kCivMsgStartVm, payload = seg\<rparr> demo_init =
    (Ret kCivMsgRespondSuccess, t) \<and> vm_threads t = [0]"
proof -
  have w: "world demo_init = demo_host" by (simp add: demo_init_def server_init_def demo_start_def)
  have shm: "shm_open ref_env seg v = (True, v)" "shm_find ref_env seg k v = (map_of (r_shm v) (seg, k), v)" for k v
    by (simp_all add: ref_env_def)
  have o: "open_shm ref_env seg demo_init = (Ret (), demo_init)"
    by (simp add: open_shm_def run_simps shm)
  have f: "find_string ref_env seg ''StartVmCfgPath'' demo_init = (Ret ''/c.ini'', demo_init)"
    by (simp add: find_string_def run_simps w shm assms)
  have v: "find_vm ''civ-1'' demo_init = (Ret None, demo_init)"
    by (simp add: find_vm_def run_simps demo_init_def server_init_def)
  let ?env = "map_of (r_shm demo_host) (seg, ''StartVmEnv'')"
  let ?envs = "case ?env of None \<Rightarrow> [] | Some strs \<Rightarrow> strs"
  have e: "oscall (shm_find ref_env seg ''StartVmEnv'') demo_listed = (Ret ?env, demo_listed)"
    by (simp add: run_simps shm demo_listed_def demo_init_def server_init_def demo_start_def)
  let ?b = "(this demo_built)\<lparr>main_proc := Some (VmProcSimple_SetEnv ?envs (VmProcSimple_new (emul_cmd (this demo_built))))\<rparr>"
  have p: "vb_call 0 (SetProcessEnv ?envs) demo_listed = (Ret (), demo_listed\<lparr>vmis := [(0, ?b)]\<rparr>)"
    by (simp add: vb_call_def std_map_set_def demo_listed_def obj_run_def SetProcessEnv_def run_simps demo_main demo_init_def server_init_def)
  obtain exe where exe: "exe_of (emul_cmd (this demo_built)) = Some exe" using demo_exe ..
  obtain b' t where st: "obj_run (StartVm ref_env) ?b (demo_listed\<lparr>vmis := [(0, ?b)]\<rparr>) = (Ret (), b', t)"
    using obj_run_start [where b = ?b and s = "demo_listed\<lparr>vmis := [(0, ?b)]\<rparr>" and envs = ?envs, OF _ _ exe]
    by (auto simp: demo_build demo_vm_name demo_listed_def demo_init_def server_init_def demo_start_def)
  let ?t = "t\<lparr>vmis := [(0, b')]\<rparr>"
  have th: "vm_threads t = []" using obj_run_globals [OF st] by (simp add: globals_only_def demo_listed_def demo_init_def server_init_def)
  obtain u where r: "VmThread ref_env ready Thread_first 0 1 (demo_listed\<lparr>vmis := [(0, ?b)]\<rparr>) = (Ret kVmRunning, u)" "vm_threads u = [0]"
    by (simp add: VmThread_def run_simps vb_call_at [OF _ st] Let_def thread_waits_def)
      (simp add: vb_call_def obj_run_def SetVmReady_def run_simps std_map_set_def VmBuilder_GetState_def th)
  have g: "GetValue ref_env demo_cfg kGroupGlob kGlobWaitReady \<noteq> ''true''"
    by (simp add: demo_cfg_def GetValue_def ref_defs isspace_def)
  show ?thesis
    using r g
    by (simp add: handle_msg_def respond_def Server_StartVm_def run_simps o f v demo_read [OF w] demo_name build_by_type_def demo_build_vm e p
      del: oscall_run)
qed

section \<open>Properties\<close>

text \<open>
  C8. No two guests have the same name: in every state the server reaches, over any sequence of messages, exits and
  ready calls, the names of the listed guests are pairwise different, so a name always selects one guest.
\<close>

theorem server_names_distinct:
  assumes "server_reach E g s"
  shows "distinct (map (\<lambda>(a, b). VmBuilder_GetName b) (vmis s))"
proof -
  have "map (\<lambda>(a, b). VmBuilder_GetName b) (vmis s) = map (vm_name \<circ> snd) (vmis s)"
    by (auto simp: VmBuilder_GetName_def)
  moreover have "distinct (map (vm_name \<circ> snd) (vmis s))"
    using server_reach_inv [OF assms] by (simp add: server_inv_def)
  ultimately show ?thesis by (simp only:)
qed

theorem server_names_distinct_witness:
  "distinct (map (\<lambda>(a, b). VmBuilder_GetName b) (vmis demo_listed)) \<and> vmis demo_listed \<noteq> []"
proof -
  have "server_reach ref_env demo_start demo_listed"
    by (rule reach_message [OF server_reach.start [OF demo_setup] demo_import])
  from server_names_distinct [OF this] show ?thesis by (simp add: demo_listed_def)
qed

end
