(* ===== verification/Civ_System.thy ===== *)
theory Civ_System
  imports Server_Reach
begin

text \<open>
  The server process and its clients (src/services/server.cc, \<open>Server::Start\<close> and \<open>Server::Stop\<close>; src/services/message.h).
  They meet in the shared memory segment \<open>CivServerShm\<close>: a synchronisation block with the flag \<open>msg_in\<close> and,
  while a client waits, one message.  A system is the outside world, the memory of the server process, and
  the segment.
\<close>

section \<open>The segment\<close>

definition kCivServerMemName :: string where "kCivServerMemName = ''CivServerShm''"

record channel =
  msg_in :: bool
  msg_data :: "CivMsg option"

text \<open>
  \<open>chan\<close> is the memory of the segment.  It stays readable for a client that has it mapped after the server has removed
  the name; \<open>chan_named\<close> says whether the name exists, \<open>sync_made\<close> whether the block has been constructed, and
  \<open>srv_alive\<close> whether the server is in its loop and \<open>srv_starting\<close> whether a process is between creating the segment and
  constructing the block.  The fields \<open>world\<close> and \<open>civ_config_path\<close> belong to the client process;
  the server shares the world.
\<close>

record ('w, 't) system = "'w os_state" +
  srv :: "('w, 't) server_state"
  chan :: channel
  chan_named :: bool
  sync_made :: bool
  srv_starting :: bool
  srv_alive :: bool

type_synonym ('w, 't, 'a) system_op = "(('w, 't) system, 'a) cpp"

text \<open>The fields of the two levels of the record do not interfere.\<close>

lemma system_fields [simp]:
  fixes y :: "('w, 't) system"
  shows "world (srv_update f1 y) = world y"
    and "srv (world_update f2 y) = srv y"
    and "world (chan_update f3 y) = world y"
    and "chan (world_update f4 y) = chan y"
    and "world (chan_named_update f5 y) = world y"
    and "chan_named (world_update f6 y) = chan_named y"
    and "world (sync_made_update f7 y) = world y"
    and "sync_made (world_update f8 y) = sync_made y"
    and "world (srv_alive_update f9 y) = world y"
    and "srv_alive (world_update f10 y) = srv_alive y"
    and "civ_config_path (srv_update f11 y) = civ_config_path y"
    and "srv (civ_config_path_update f12 y) = srv y"
    and "civ_config_path (chan_update f13 y) = civ_config_path y"
    and "chan (civ_config_path_update f14 y) = chan y"
    and "civ_config_path (chan_named_update f15 y) = civ_config_path y"
    and "chan_named (civ_config_path_update f16 y) = chan_named y"
    and "civ_config_path (sync_made_update f17 y) = civ_config_path y"
    and "sync_made (civ_config_path_update f18 y) = sync_made y"
    and "civ_config_path (srv_alive_update f19 y) = civ_config_path y"
    and "srv_alive (civ_config_path_update f20 y) = srv_alive y"
    and "world (srv_starting_update f21 y) = world y"
    and "srv_starting (world_update f22 y) = srv_starting y"
    and "civ_config_path (srv_starting_update f23 y) = civ_config_path y"
    and "srv_starting (civ_config_path_update f24 y) = srv_starting y"
  by (cases y, simp)+

text \<open>The server runs.\<close>

definition srv_run :: "('w, 't, 'a) server_op \<Rightarrow> ('w, 't, 'a) system_op" where
  "srv_run m = (\<lambda>y. case m ((srv y)\<lparr>world := world y\<rparr>) of (r, t) \<Rightarrow> (r, y\<lparr>srv := t, world := world t\<rparr>))"

section \<open>The loop of Server::Start\<close>

text \<open>The memory of a process that becomes the server: it has called \<open>GetConfigPath\<close> before.\<close>

definition fresh_server :: "path option \<Rightarrow> 'w \<Rightarrow> ('w, 't) server_state" where
  "fresh_server p w = server_init \<lparr>world = w, civ_config_path = p, cid_pool = initial_bs, socketPath = []\<rparr>"

text \<open>
  Up to the loop: the listener is set up, an old segment of the name is removed, the new one is created (\<open>ok\<close>: that did not
  throw) and the block is constructed in it, with \<open>msg_in\<close> false.
\<close>

definition Server_Start_open :: "('w, 't) env \<Rightarrow> bool \<Rightarrow> ('w, 't) system \<Rightarrow> ('w, 't) system" where
  "Server_Start_open E ok y =
     (let s = snd (SetupStartupListenerService E (fresh_server (civ_config_path y) (world y))); z = y\<lparr>world := world s\<rparr> in
      if ok then z\<lparr>srv := s, chan := \<lparr>msg_in = False, msg_data = None\<rparr>, chan_named := True, sync_made := False, srv_starting := True\<rparr>
      else z\<lparr>chan_named := False\<rparr>)"

definition leave_loop :: "('w, 't) system \<Rightarrow> ('w, 't) system" where
  "leave_loop y = y\<lparr>srv_alive := False, chan_named := False\<rparr>"

text \<open>\<open>while (!stop_server_)\<close>: when the loop ends the block is destroyed and the name removed.\<close>

definition loop_head :: "('w, 't) system \<Rightarrow> ('w, 't) system" where
  "loop_head y = (if stop_server (srv y) then leave_loop y else y)"

definition Server_Start_sync :: "('w, 't) system \<Rightarrow> ('w, 't) system" where
  "Server_Start_sync y = loop_head (y\<lparr>sync_made := True, srv_starting := False, srv_alive := True\<rparr>)"

text \<open>
  One pass through the loop, with \<open>mutex_cond\<close> held throughout.  An exception of a handler ends the loop and
  the guard object removes the name; a handler that crashes or blocks never releases the mutex, so a client that waits
  for it blocks for ever.
\<close>

definition server_iter :: "('w, 't) env \<Rightarrow> (nat \<Rightarrow> bool) \<Rightarrow> start_order \<Rightarrow> ('w, 't, unit) system_op" where
  "server_iter E ready order = (\<lambda>y.
     if \<not> srv_alive y then (Ret (), y) else
     case msg_data (chan y) of
       None \<Rightarrow> (Ret (), loop_head y)
     | Some m \<Rightarrow> (case srv_run (handle_msg E ready order m) y of
           (Ret r, z) \<Rightarrow> (Ret (), loop_head (z\<lparr>chan := \<lparr>msg_in = False, msg_data = Some (m\<lparr>msg_type := r\<rparr>)\<rparr>\<rparr>))
         | (Throw _, z) \<Rightarrow> (Ret (), leave_loop z)
         | (_, z) \<Rightarrow> (Hang, z\<lparr>srv_alive := False\<rparr>)))"

text \<open>
  \<open>Server::Stop\<close>, from the signal handler: the loop ends at its next pass and the gRPC server is shut down.  Before the block
  is constructed \<open>sync_\<close> is a null pointer: the process ends by the fault and leaves its segment behind.
\<close>

definition Server_Stop :: "('w, 't) system \<Rightarrow> ('w, 't) system" where
  "Server_Stop y =
     (if srv_starting y then y\<lparr>srv_starting := False\<rparr>
      else y\<lparr>srv := (srv y)\<lparr>stop_server := True, listening := False\<rparr>\<rparr>)"

definition HandleSIG :: "('w, 't) system \<Rightarrow> ('w, 't) system" where
  "HandleSIG y = Server_Stop y"

end
