(* ===== verification/Client.thy ===== *)
theory Client
  imports Civ_System
begin

text \<open>
  \<open>Client\<close> (src/services/client.h and .cc): a segment of its own for the arguments and the results of a request, and \<open>Notify\<close>,
  which passes one message to the server and waits for the response.
\<close>

section \<open>The object\<close>

text \<open>A client is the name of its segment.  The constructor opens the segment of the server, which throws when the name
  does not exist, and creates its own.\<close>

type_synonym client = string

definition Client_new :: "('w, 't) env \<Rightarrow> ('w, 't, client) system_op" where
  "Client_new E =
     cbind (cget chan_named) (\<lambda>named.
     if \<not> named then cthrow Interprocess_exception else
     cbind (oscall (os_getpid E)) (\<lambda>pid.
     let client_shm_name = ''CivClientShm'' @ to_string (int pid) in
     cbind (oscall (shm_create E client_shm_name)) (\<lambda>ok.
     if \<not> ok then cthrow Interprocess_exception else cret client_shm_name)))"

definition Client_delete :: "('w, 't) env \<Rightarrow> client \<Rightarrow> ('w, 't, unit) system_op" where
  "Client_delete E c = oscall (shm_remove E c)"

text \<open>\<open>{ Client c; ... }\<close>: the destructor runs when the block is left, also by an exception.\<close>

definition with_client :: "('w, 't) env \<Rightarrow> (client \<Rightarrow> ('w, 't, 'a) system_op) \<Rightarrow> ('w, 't, 'a) system_op" where
  "with_client E body =
     cbind (Client_new E) (\<lambda>c. \<lambda>y. case body c y of
         (Ret x, z) \<Rightarrow> cseq (Client_delete E c) (cret x) z
       | (Throw e, z) \<Rightarrow> cseq (Client_delete E c) (cthrow e) z
       | r \<Rightarrow> r)"

section \<open>Arguments and results\<close>

text \<open>\<open>construct\<close>, which throws when it fails.\<close>

definition construct_strings :: "('w, 't) env \<Rightarrow> client \<Rightarrow> string \<Rightarrow> string list \<Rightarrow> ('w, 't, unit) system_op" where
  "construct_strings E c key strs =
     cbind (oscall (shm_construct E c key strs)) (\<lambda>ok. if ok then cret () else cthrow Interprocess_exception)"

definition GetGuestLists :: "('w, 't) env \<Rightarrow> client \<Rightarrow> ('w, 't, string list) system_op" where
  "GetGuestLists E c =
     cbind (oscall (shm_find E c ''ListVms'')) (\<lambda>vm_lists.
     cret (case vm_lists of None \<Rightarrow> [] | Some vms \<Rightarrow> vms))"

definition PrepareStartGuestClientShm :: "('w, 't) env \<Rightarrow> client \<Rightarrow> path \<Rightarrow> ('w, 't, unit) system_op" where
  "PrepareStartGuestClientShm E c path =
     cbind (oscall (os_environment E)) (\<lambda>envs.
     cseq (oscall (shm_destroy E c ''StartVmCfgPath''))
    (cseq (oscall (shm_destroy E c ''StartVmEnv''))
    (cseq (construct_strings E c ''StartVmCfgPath'' [path])
    (construct_strings E c ''StartVmEnv'' envs))))"

definition PrepareStopGuestClientShm :: "('w, 't) env \<Rightarrow> client \<Rightarrow> string \<Rightarrow> ('w, 't, unit) system_op" where
  "PrepareStopGuestClientShm E c name =
     cseq (oscall (shm_destroy E c ''StopVmName''))
     (construct_strings E c ''StopVmName'' [name])"

definition PrepareGetGuestInfoClientShm :: "('w, 't) env \<Rightarrow> client \<Rightarrow> string \<Rightarrow> ('w, 't, unit) system_op" where
  "PrepareGetGuestInfoClientShm E c name =
     cseq (oscall (shm_destroy E c ''VmName''))
     (construct_strings E c ''VmName'' [name])"

section \<open>Notify\<close>

text \<open>
  While the client waits for \<open>cond_c\<close> it has released \<open>mutex_cond\<close>.  A schedule says what happens in each wait (counted
  from 0): whether the server makes a pass through its loop, and whether the wait ends by its timeout of a second
  or by a notification, which includes a spurious one.
\<close>

datatype cv_status = Cv_timeout | Cv_no_timeout

record schedule =
  ready_at :: "nat \<Rightarrow> bool"
  order_of :: start_order
  early :: bool
  server_runs :: "nat \<Rightarrow> bool"
  wait_ends :: "nat \<Rightarrow> cv_status"

definition kMaxRetryCount :: nat where "kMaxRetryCount = 100"

text \<open>\<open>while (msg_in && retry_cnt < kMaxRetryCount)\<close>, with \<open>left\<close> the retries that are left, \<open>kMaxRetryCount - retry_cnt\<close>.\<close>

primrec Notify_wait :: "('w, 't) env \<Rightarrow> schedule \<Rightarrow> nat \<Rightarrow> nat \<Rightarrow> ('w, 't, nat) system_op" where
  "Notify_wait E sched 0 retry_cnt = cret retry_cnt"
| "Notify_wait E sched (Suc left) retry_cnt =
     cbind (cget (\<lambda>y. msg_in (chan y))) (\<lambda>pending.
     if pending then
       cseq (cwhen (server_runs sched retry_cnt) (server_iter E (ready_at sched) (order_of sched)))
       (if wait_ends sched retry_cnt = Cv_timeout then Notify_wait E sched left (Suc retry_cnt) else cret retry_cnt)
     else cret retry_cnt)"

definition msg_state :: "('w, 't) system \<Rightarrow> CivMsgType option" where
  "msg_state y = map_option msg_type (msg_data (chan y))"

text \<open>
  The message is constructed before \<open>mutex_cond\<close> is taken, so a server that is passing through its loop may find it
  early.  \<open>construct\<close> throws when a message is there already.
\<close>

definition Notify :: "('w, 't) env \<Rightarrow> schedule \<Rightarrow> client \<Rightarrow> CivMsgType \<Rightarrow> ('w, 't, bool) system_op" where
  "Notify E sched c t =
     cbind (cget sync_made) (\<lambda>found.
     if \<not> found then cret False else
     cbind (cget (\<lambda>y. msg_data (chan y))) (\<lambda>old.
     if old \<noteq> None then cthrow Interprocess_exception else
     cseq (cmodify (\<lambda>y. y\<lparr>chan := (chan y)\<lparr>msg_data := Some \<lparr>msg_type = t, payload = take (MaxPayloadSize - 1) c\<rparr>\<rparr>\<rparr>))
    (cseq (cwhen (early sched) (server_iter E (ready_at sched) (order_of sched)))
    (cseq (cmodify (\<lambda>y. y\<lparr>chan := (chan y)\<lparr>msg_in := True\<rparr>\<rparr>))
    (cbind (Notify_wait E sched kMaxRetryCount 0) (\<lambda>retry_cnt.
     cbind (cget msg_state) (\<lambda>ty.
     cseq (cmodify (\<lambda>y. y\<lparr>chan := (chan y)\<lparr>msg_data := None\<rparr>\<rparr>))
     (cret (retry_cnt < kMaxRetryCount \<and> ty = Some kCivMsgRespondSuccess)))))))))"

definition GetCivVmInfo :: "('w, 't) env \<Rightarrow> schedule \<Rightarrow> client \<Rightarrow> string \<Rightarrow> ('w, 't, u32 \<times> nat) system_op" where
  "GetCivVmInfo E sched c name =
     cseq (PrepareGetGuestInfoClientShm E c name)
    (cbind (Notify E sched c kCivMsgGetVmInfo) (\<lambda>_.
     cbind (oscall (shm_find_info E c)) (\<lambda>vm_info.
     case vm_info of
       Some i \<Rightarrow> cret i
     | None \<Rightarrow>
         cbind (oscall (shm_construct_info E c (0, state_num kVmUnknown))) (\<lambda>ok.
         if ok then cret (0, state_num kVmUnknown) else cthrow Interprocess_exception))))"

end
