(* ===== verification/Vm_Flash.thy ===== *)
theory Vm_Flash
  imports Vm_Process Config_Parser
begin

text \<open>
  \<open>VmFlasher\<close> (src/guest/vm_flash.h and .cc): writing an image to the disk of a guest, by running an emulator with the image
  on a virtual USB disk.  The object lives for one call of \<open>FlashGuest\<close>; its fields \<open>total_image_size_\<close> and \<open>virtual_disk_\<close>
  are passed on as results.  \<open>size_t\<close> has 64 bits.
\<close>

section \<open>The images\<close>

definition kVirtualUsbDiskPath :: path where "kVirtualUsbDiskPath = ''/tmp/flash.vfat''"

text \<open>The suffixes of src/utils/utils.h.\<close>

definition MB :: "64 word \<Rightarrow> 64 word" where "MB v = 1024 * 1024 * v"
definition GB :: "64 word \<Rightarrow> 64 word" where "GB v = 1024 * 1024 * 1024 * v"

definition kDdBs :: "64 word" where "kDdBs = MB 63"
definition k4GB :: "64 word" where "k4GB = GB 4"

definition split_args :: "path \<Rightarrow> string list" where
  "split_args p = [''--bytes='' @ to_string (uint (k4GB - 1)), ''--numeric-suffixes'', p, p @ ''.part'']"

text \<open>The loop over the files of the folder: the sizes add up, and a file a vfat disk cannot hold is split.\<close>

primrec check_images :: "('w, 't) env \<Rightarrow> path \<Rightarrow> path list \<Rightarrow> 64 word \<Rightarrow> (('w, 'z) os_state_scheme, bool \<times> 64 word) cpp" where
  "check_images E e [] total_size = cret (True, total_size)"
| "check_images E e (p # ps) total_size =
     cbind (oscall (fs_is_regular E p)) (\<lambda>reg.
     if \<not> reg then check_images E e ps total_size else
     cbind (oscall (fs_file_size E p)) (\<lambda>sz.
     cbind (oscall (fs_file_size E p)) (\<lambda>sz2.
     if k4GB \<le> sz2 then
       cbind (oscall_throw Process_error (proc_system_args E e (split_args p))) (\<lambda>rc.
       if rc \<noteq> 0 then cret (False, total_size + sz) else
       cbind (oscall (fs_remove E p)) (\<lambda>_.
       check_images E e ps (total_size + sz)))
     else check_images E e ps (total_size + sz))))"

definition CheckImages :: "('w, 't) env \<Rightarrow> path \<Rightarrow> (('w, 'z) os_state_scheme, bool \<times> 64 word) cpp" where
  "CheckImages E o_dir =
     cbind (oscall (search_path E ''split'')) (\<lambda>e.
     if e = [] then cret (False, 0) else
     cbind (oscall_throw Filesystem_error (fs_entries E o_dir)) (\<lambda>ps.
     check_images E e ps 0))"

text \<open>The blocks of the virtual disk: room for the images and another gigabyte.\<close>

definition dd_count :: "64 word \<Rightarrow> 64 word" where
  "dd_count total_size = (total_size + GB 1 + kDdBs - 1) div kDdBs"

primrec copy_images :: "('w, 't) env \<Rightarrow> path list \<Rightarrow> (('w, 'z) os_state_scheme, bool) cpp" where
  "copy_images E [] = cret True"
| "copy_images E (p # ps) =
     cbind (oscall (fs_is_regular E p)) (\<lambda>reg.
     if \<not> reg then copy_images E ps else
     cbind (system_call E (''mcopy -o -n -i '' @ kVirtualUsbDiskPath @ '' '' @ p @ '' ::'')) (\<lambda>rc.
     if rc \<noteq> 0 then cret False else copy_images E ps))"

text \<open>The part for an archive with a \<open>boot.img\<close>; the result is the virtual disk, \<open>None\<close> when it fails.\<close>

definition usb_disk_of_images :: "('w, 't) env \<Rightarrow> path \<Rightarrow> (('w, 'z) os_state_scheme, path option) cpp" where
  "usb_disk_of_images E o_dir =
     cbind (CheckImages E o_dir) (\<lambda>(ok, total_size).
     if \<not> ok then cret None else
     cbind (system_call E (''dd if=/dev/zero of='' @ kVirtualUsbDiskPath @ '' bs='' @ to_string (uint kDdBs) @
             '' count='' @ to_string (uint (dd_count total_size)))) (\<lambda>rc.
     if rc \<noteq> 0 then cret None else
     cbind (system_call E (''mkfs.vfat '' @ kVirtualUsbDiskPath)) (\<lambda>rc.
     if rc \<noteq> 0 then cret None else
     cbind (oscall (fs_entries_ec E o_dir)) (\<lambda>ps.
     cbind (copy_images E ps) (\<lambda>ok.
     if \<not> ok then cret None else
     cbind (system_call E (''rm -r '' @ o_dir)) (\<lambda>_.
     cret (Some kVirtualUsbDiskPath)))))))"

definition QemuCreateVirtUsbDisk :: "('w, 't) env \<Rightarrow> 't CivConfig \<Rightarrow> (('w, 'z) os_state_scheme, path option) cpp" where
  "QemuCreateVirtUsbDisk E c =
     (let file = GetValue E c kGroupGlob kGlobFlashfiles in
     cbind (oscall (fs_exists E file)) (\<lambda>ex.
     if \<not> ex then cret None else
     cbind (oscall (fs_is_regular E file)) (\<lambda>reg.
     if \<not> reg then cret None else
     if path_extension E file \<noteq> ''.zip'' then cret (Some file) else
     let o_dir = ''/tmp/'' @ path_stem E file in
     cbind (oscall (fs_exists E o_dir)) (\<lambda>ex.
     cbind (if ex then system_call E (''rm -rf '' @ o_dir) else cret 0) (\<lambda>rc.
     if rc \<noteq> 0 then cret None else
     cbind (system_call E (''unzip -o '' @ file @ '' -d '' @ o_dir)) (\<lambda>rc.
     if rc \<noteq> 0 then cret None else
     cbind (oscall (fs_exists E (o_dir @ ''/boot.img''))) (\<lambda>boot.
     if boot then usb_disk_of_images E o_dir else
     cbind (oscall (fs_entries_ec E o_dir)) (\<lambda>ps.
     cret (if length ps = 1 then Some (o_dir @ ''/'' @ path_stem E file) else None)))))))))"

definition QemuCreateVirtualDisk :: "('w, 't) env \<Rightarrow> 't CivConfig \<Rightarrow> (('w, 'z) os_state_scheme, bool) cpp" where
  "QemuCreateVirtualDisk E c =
     cbind (system_call E (''qemu-img create -f qcow2 '' @ GetValue E c kGroupDisk kDiskPath @ '' '' @
             GetValue E c kGroupDisk kDiskSize)) (\<lambda>rc.
     cret (rc = 0))"

section \<open>Flashing\<close>

text \<open>The companion for RPMB: \<open>None\<close> when its old data cannot be removed, otherwise the process, if any, and its arguments.\<close>

definition flash_rpmb :: "('w, 't) env \<Rightarrow> 't CivConfig \<Rightarrow> string \<Rightarrow>
    (('w, 'z) os_state_scheme, (vm_proc option \<times> string) option) cpp" where
  "flash_rpmb E c rpmb_sock =
     (let rpmb_bin = GetValue E c kGroupRpmb kRpmbBinPath;
          rpmb_data_dir = GetValue E c kGroupRpmb kRpmbDataDir;
          rpmb_data_file = rpmb_data_dir @ ''/'' @ kRpmbData
      in
     if rpmb_bin = [] \<or> rpmb_data_dir = [] then cret (Some (None, [])) else
     cbind (oscall (fs_exists E rpmb_data_file)) (\<lambda>ex.
     cbind (if ex then oscall (fs_remove E rpmb_data_file) else cret True) (\<lambda>removed.
     if \<not> removed then cret None else
     cret (Some (Some (VmCoProcRpmb_new rpmb_bin rpmb_data_dir rpmb_sock),
       '' -device virtio-serial,addr=1 -device virtserialport,chardev=rpmb0,name=rpmb0,nr=1'' @
       '' -chardev socket,id=rpmb0,path='' @ rpmb_sock)))))"

definition flash_vtpm :: "('w, 't) env \<Rightarrow> 't CivConfig \<Rightarrow> vm_proc option \<times> string" where
  "flash_vtpm E c =
     (let vtpm_bin = GetValue E c kGroupVtpm kVtpmBinPath; vtpm_data_dir = GetValue E c kGroupVtpm kVtpmDataDir in
     if vtpm_bin = [] \<or> vtpm_data_dir = [] then (None, [])
     else (Some (VmCoProcVtpm_new vtpm_bin vtpm_data_dir),
       '' -chardev socket,id=chrtpm,path='' @ vtpm_data_dir @ ''/'' @ kVtpmSock @
       '' -tpmdev emulator,id=tpm0,chardev=chrtpm -device tpm-crb,tpmdev=tpm0''))"

definition flash_firmware :: "('w, 't) env \<Rightarrow> 't CivConfig \<Rightarrow> string option" where
  "flash_firmware E c =
     (let firm_type = GetValue E c kGroupFirm kFirmType in
     if firm_type = [] then None
     else if firm_type = kFirmUnified then Some ('' -drive if=pflash,format=raw,file='' @ GetValue E c kGroupFirm kFirmPath)
     else if firm_type = kFirmSplited then
       Some ('' -drive if=pflash,format=raw,readonly,file='' @ GetValue E c kGroupFirm kFirmCode @
             '' -drive if=pflash,format=raw,file='' @ GetValue E c kGroupFirm kFirmVars)
     else None)"

definition flash_disks :: "('w, 't) env \<Rightarrow> 't CivConfig \<Rightarrow> path \<Rightarrow> string" where
  "flash_disks E c virtual_disk =
     '' -device virtio-scsi-pci,id=scsi0,addr=0x8'' @
     '' -drive if=none,format=qcow2,id=scsidisk1,file='' @ GetValue E c kGroupDisk kDiskPath @
     '' -device scsi-hd,drive=scsidisk1,bus=scsi0.0'' @
     '' -name civ_flashing -M q35 -m 2048M -smp 1 -enable-kvm -k en-us -device qemu-xhci,id=xhci,addr=0x5'' @
     '' -no-reboot -nographic -display none -serial mon:stdio -boot menu=on,splash-time=5000,strict=on '' @
     '' -drive id=udisk1,format=raw,if=none,file='' @ virtual_disk @
     '' -device usb-storage,drive=udisk1,bus=xhci.0 -nodefaults''"

text \<open>The unique pointers of the two companions: running one, and destroying both when the function is left.\<close>

definition opt_run :: "('w, 't) env \<Rightarrow> vm_proc option \<Rightarrow> (('w, 'z) os_state_scheme, vm_proc option) cpp" where
  "opt_run E p = (case p of None \<Rightarrow> cret None | Some q \<Rightarrow> cbind (VmProcess_Run E q) (\<lambda>q'. cret (Some q')))"

definition opt_delete :: "('w, 't) env \<Rightarrow> vm_proc option \<Rightarrow> (('w, 'z) os_state_scheme, unit) cpp" where
  "opt_delete E p = (case p of None \<Rightarrow> cret () | Some q \<Rightarrow> VmProcess_delete E q)"

definition delete_procs :: "('w, 't) env \<Rightarrow> vm_proc option \<Rightarrow> vm_proc option \<Rightarrow> (('w, 'z) os_state_scheme, unit) cpp" where
  "delete_procs E rpmb_proc vtpm_proc = cseq (opt_delete E vtpm_proc) (opt_delete E rpmb_proc)"

text \<open>The companions run, then the emulator; what the emulator returns is ignored.\<close>

definition flash_run :: "('w, 't) env \<Rightarrow> string \<Rightarrow> vm_proc option \<Rightarrow> vm_proc option \<Rightarrow> (('w, 'z) os_state_scheme, bool) cpp" where
  "flash_run E qemu_args rpmb_proc vtpm_proc =
     cbind (ctry (opt_run E rpmb_proc) (\<lambda>e. cseq (delete_procs E rpmb_proc vtpm_proc) (cthrow e))) (\<lambda>rpmb.
     cbind (ctry (opt_run E vtpm_proc) (\<lambda>e. cseq (delete_procs E rpmb vtpm_proc) (cthrow e))) (\<lambda>vtpm.
     cbind (ctry (system_call E qemu_args) (\<lambda>e. cseq (delete_procs E rpmb vtpm) (cthrow e))) (\<lambda>_.
     cseq (delete_procs E rpmb vtpm)
     (cret True))))"

definition FlashWithQemu :: "('w, 't) env \<Rightarrow> 't CivConfig \<Rightarrow> (('w, 'z) os_state_scheme, bool) cpp" where
  "FlashWithQemu E c =
     (let emul_path = GetValue E c kGroupEmul kEmulPath in
     if emul_path = [] then cret False else
     cbind (QemuCreateVirtUsbDisk E c) (\<lambda>virtual_disk.
     case virtual_disk of None \<Rightarrow> cret False | Some disk \<Rightarrow>
     cbind (QemuCreateVirtualDisk E c) (\<lambda>ok.
     if \<not> ok then cret False else
     cbind (oscall (os_strftime E Date_T)) (\<lambda>t_buf.
     cbind (flash_rpmb E c (kRpmbSockPrefix @ t_buf)) (\<lambda>rpmb.
     case rpmb of None \<Rightarrow> cret False | Some (rpmb_proc, rpmb_args) \<Rightarrow>
     case flash_vtpm E c of (vtpm_proc, vtpm_args) \<Rightarrow>
     case flash_firmware E c of
       None \<Rightarrow> cseq (delete_procs E rpmb_proc vtpm_proc) (cret False)
     | Some firm_args \<Rightarrow>
         flash_run E (emul_path @ rpmb_args @ vtpm_args @ firm_args @ flash_disks E c disk) rpmb_proc vtpm_proc)))))"

text \<open>
  The options are those of the path itself when it is a file, otherwise of the guest of that name in the
  folder of \<open>GetConfigPath\<close>; a null pointer from it is added to a string.
\<close>

definition guest_ini :: "('w, 't) env \<Rightarrow> path \<Rightarrow> (('w, 'z) os_state_scheme, path option) cpp" where
  "guest_ini E path =
     cbind (oscall (fs_exists E path)) (\<lambda>ex.
     cbind (if ex then oscall (fs_is_regular E path) else cret False) (\<lambda>reg.
     if ex \<and> reg then cret (Some path) else
     cbind (GetConfigPath E) (\<lambda>dir.
     case dir of None \<Rightarrow> ccrash | Some d \<Rightarrow>
     let p = d @ ''/'' @ path @ ''.ini'' in
     cbind (oscall (fs_exists E p)) (\<lambda>ex.
     cret (if ex then Some p else None)))))"

definition FlashGuest :: "('w, 't) env \<Rightarrow> path \<Rightarrow> (('w, 'z) os_state_scheme, bool) cpp" where
  "FlashGuest E path =
     cbind (guest_ini E path) (\<lambda>ini.
     case ini of None \<Rightarrow> cret False | Some p \<Rightarrow>
     cbind (ReadConfigFile E p \<lparr>cfg_data = pt_clear E\<rparr>) (\<lambda>(ok, c).
     if \<not> ok then cret False else
     let emul_type = GetValue E c kGroupEmul kEmulType in
     if emul_type = kEmulTypeQemu \<or> emul_type = [] then FlashWithQemu E c else cret False))"

section \<open>The size of the virtual disk\<close>

lemma check_images_sum:
  assumes "check_images E e ps a s = (Ret (True, n), t)"
    and "\<And>p w. p \<in> set ps \<Longrightarrow> fst (fs_is_regular E p w) = reg p \<and> fst (fs_file_size E p w) = size_of p"
  shows "n = a + (\<Sum>p\<leftarrow>filter reg ps. size_of p)"
  using assms
proof (induction ps arbitrary: a s)
  case (Cons p ps)
  have v: "\<exists>w'. fs_is_regular E p w = (reg p, w')" "\<exists>w'. fs_file_size E p w = (size_of p, w')" for w
    using Cons.prems(2) [of p w] by (cases "fs_is_regular E p w"; cases "fs_file_size E p w"; simp)+
  have IH: "check_images E e ps a' s' = (Ret (True, n), t) \<Longrightarrow> n = a' + (\<Sum>p\<leftarrow>filter reg ps. size_of p)" for a' s'
    using Cons.IH Cons.prems(2) by simp
  obtain w1 where w1: "fs_is_regular E p (world s) = (reg p, w1)" using v(1) by blast
  obtain w2 where w2: "fs_file_size E p w1 = (size_of p, w2)" using v(2) by blast
  obtain w3 where w3: "fs_file_size E p w2 = (size_of p, w3)" using v(2) by blast
  have "\<exists>s'. check_images E e ps (if reg p then a + size_of p else a) s' = (Ret (True, n), t)"
    using Cons.prems(1) w1 w2 w3 by (auto simp: ret_iffs split: if_splits)
  then obtain s' where "check_images E e ps (if reg p then a + size_of p else a) s' = (Ret (True, n), t)" ..
  from IH [OF this] show ?case by (cases "reg p") simp_all
qed (simp add: ret_iffs)

lemma unat_sum_list:
  fixes f :: "'a \<Rightarrow> 64 word"
  assumes "(\<Sum>x\<leftarrow>xs. unat (f x)) < 2 ^ 64"
  shows "unat (\<Sum>x\<leftarrow>xs. f x) = (\<Sum>x\<leftarrow>xs. unat (f x))"
  using assms
proof (induction xs)
  case (Cons x xs)
  then have "unat (\<Sum>x\<leftarrow>xs. f x) = (\<Sum>x\<leftarrow>xs. unat (f x))" by simp
  with Cons.prems show ?case by (simp add: unat_word_ariths)
qed simp

lemma dd_count_enough:
  assumes "unat n + 2 ^ 30 + 63 * 2 ^ 20 \<le> 2 ^ 64"
  shows "unat n + 2 ^ 30 \<le> unat (dd_count n) * unat kDdBs"
proof -
  have bs: "unat kDdBs = 66060288" by (simp add: kDdBs_def MB_def)
  have sum: "n + GB 1 + kDdBs - 1 = n + 1139802111" by (simp add: kDdBs_def MB_def GB_def)
  have u: "unat (n + 1139802111) = unat n + 1139802111" using assms by (simp add: unat_word_ariths)
  have "unat (dd_count n) = (unat n + 1139802111) div 66060288"
    unfolding dd_count_def sum unat_div_distrib u bs ..
  then show ?thesis unfolding bs by simp
qed

section \<open>Properties\<close>

text \<open>
  C38. The virtual USB disk has room for the images.  If the folder lists \<open>ps\<close> and the sizes of its files stay as they are
  while \<open>CheckImages\<close> adds them up, the number of blocks handed to \<open>dd\<close> makes a disk of at least the sum of the sizes
  of all regular files and another GiB, as long as that sum does not overflow 64 bits.
\<close>

theorem flash_disk_fits:
  assumes "CheckImages E o_dir s = (Ret (True, n), t)"
    and "\<And>w. fst (fs_entries E o_dir w) = Some ps"
    and "\<And>p w. p \<in> set ps \<Longrightarrow> fst (fs_is_regular E p w) = reg p \<and> fst (fs_file_size E p w) = size_of p"
    and "(\<Sum>p\<leftarrow>filter reg ps. unat (size_of p)) + 2 ^ 30 + 63 * 2 ^ 20 \<le> 2 ^ 64"
  shows "(\<Sum>p\<leftarrow>filter reg ps. unat (size_of p)) + 2 ^ 30 \<le> unat (dd_count n) * unat kDdBs"
proof -
  obtain e s' where "check_images E e ps 0 s' = (Ret (True, n), t)"
    using assms(1,2) by (auto simp: CheckImages_def oscall_throw_def ret_iffs split: if_splits option.splits) (metis fst_conv option.inject)
  from check_images_sum [OF this assms(3)] have "n = (\<Sum>p\<leftarrow>filter reg ps. size_of p)" by simp
  moreover have "unat (\<Sum>p\<leftarrow>filter reg ps. size_of p) = (\<Sum>p\<leftarrow>filter reg ps. unat (size_of p))"
    by (rule unat_sum_list) (use assms(4) in simp)
  ultimately show ?thesis using dd_count_enough [of n] assms(4) by simp
qed

theorem flash_disk_fits_witness:
  "\<exists>(s :: ref_world os_state) (E :: (ref_world, ref_tree) env) n t. CheckImages E ''/tmp/img'' s = (Ret (True, n), t) \<and> 10 ^ 9 + 2 ^ 30 \<le> unat (dd_count n) * unat kDdBs"
proof -
  let ?E = "ref_env\<lparr>fs_entries := (\<lambda>p w. (Some [''/tmp/img/boot.img'', ''/tmp/img/sub''], w)),
     fs_is_regular := (\<lambda>p w. (p = ''/tmp/img/boot.img'', w)), fs_file_size := (\<lambda>p w. (10 ^ 9, w))\<rparr>"
  let ?s = "\<lparr>world = ref_world0, civ_config_path = None\<rparr>"
  have run: "CheckImages ?E ''/tmp/img'' ?s = (Ret (True, 10 ^ 9), ?s)"
    by (simp add: CheckImages_def oscall_throw_def run_simps k4GB_def GB_def ref_env_def)
  have "(\<Sum>p\<leftarrow>filter (\<lambda>p. p = ''/tmp/img/boot.img'') [''/tmp/img/boot.img'', ''/tmp/img/sub'']. unat (10 ^ 9 :: 64 word)) + 2 ^ 30 \<le>
      unat (dd_count (10 ^ 9)) * unat kDdBs"
    by (rule flash_disk_fits [OF run]) simp_all
  then have "10 ^ 9 + 2 ^ 30 \<le> unat (dd_count (10 ^ 9)) * unat kDdBs" by simp
  with run show ?thesis by blast
qed

end
