(* ===== verification/Civ_Tui.thy ===== *)
theory Civ_Tui
  imports Civ_Utils Config_Parser
begin

text \<open>
  \<open>CivTui\<close> (src/guest/tui.h and .cc): the form that creates the ini file of a guest.  Drawing and input belong to the
  ftxui library, which sets the contents of the fields, the selected entries and the check boxes and calls the functions of
  the buttons.  The model is what the program itself does with them: the lines of \<open>lspci\<close> that become
  check boxes, the button that shows the chosen devices, the options set from the form, and the button that saves.
\<close>

section \<open>The form\<close>

record CheckBoxState =
  cb_name :: string
  checked :: bool

record civ_tui =
  filename :: string
  flashfiles :: string
  emulator :: string
  memory :: string
  vcpu :: string
  disk_size :: string
  disk_path :: string
  firmware_type :: "string list"
  firmware_type_selected :: nat
  firm_unified :: string
  firm_splited_code :: string
  firm_splited_data :: string
  vgpu_type :: "string list"
  vgpu_selected :: nat
  gvtg_ver :: "string list"
  gvtg_ver_selected :: nat
  gvtg_uuid :: string
  swtpm_bin :: string
  swtpm_data :: string
  rpmb_bin_in :: string
  rpmb_data_in :: string
  pci_dev :: "CheckBoxState list"
  pt_pci_disp :: "string list"
  pt_btn_lable :: string
  pt_pci_tab_id :: nat
  pt_pci_menu_selected :: nat
  adb_port :: string
  fastboot_port :: string
  batt_med :: string
  therm_med :: string
  aaf_in :: string
  tkeep :: string
  pmctl :: string
  extra :: string
  status_bar :: string

text \<open>The object before \<open>InitializeUi\<close>.\<close>

definition civ_tui_new :: civ_tui where
  "civ_tui_new = \<lparr>filename = [], flashfiles = [], emulator = [], memory = [], vcpu = [], disk_size = [], disk_path = [],
     firmware_type = [], firmware_type_selected = 0, firm_unified = [], firm_splited_code = [], firm_splited_data = [],
     vgpu_type = [], vgpu_selected = 1, gvtg_ver = [], gvtg_ver_selected = 1, gvtg_uuid = [], swtpm_bin = [], swtpm_data = [],
     rpmb_bin_in = [], rpmb_data_in = [], pci_dev = [], pt_pci_disp = [], pt_btn_lable = [], pt_pci_tab_id = 0, pt_pci_menu_selected = 0, adb_port = [],
     fastboot_port = [], batt_med = [], therm_med = [], aaf_in = [], tkeep = [], pmctl = [], extra = [], status_bar = []\<rparr>"

text \<open>
  The input fields: each is a member of class \<open>InputField\<close> with a name and a hint that say what to type, and a string that
  ftxui changes.
\<close>

datatype input_field =
    F_flashfiles | F_emulator | F_memory | F_vcpu | F_disk_size | F_disk_path
  | F_firm_unified | F_firm_splited_code | F_firm_splited_data | F_gvtg_uuid | F_swtpm_bin | F_swtpm_data
  | F_rpmb_bin | F_rpmb_data | F_adb_port | F_fastboot_port | F_batt_med | F_therm_med
  | F_aaf | F_tkeep | F_pmctl | F_extra

definition field_name :: "input_field \<Rightarrow> string" where
  "field_name x = (case x of
       F_flashfiles \<Rightarrow> ''flashfiles''
     | F_emulator \<Rightarrow> ''emulator''
     | F_memory \<Rightarrow> ''memory''
     | F_vcpu \<Rightarrow> ''vcpu''
     | F_disk_size \<Rightarrow> ''disk size''
     | F_disk_path \<Rightarrow> ''disk path''
     | F_firm_unified \<Rightarrow> ''bin path''
     | F_firm_splited_code \<Rightarrow> ''code path''
     | F_firm_splited_data \<Rightarrow> ''data path''
     | F_gvtg_uuid \<Rightarrow> ''uuid''
     | F_swtpm_bin \<Rightarrow> ''bin path''
     | F_swtpm_data \<Rightarrow> ''data dir''
     | F_rpmb_bin \<Rightarrow> ''bin path''
     | F_rpmb_data \<Rightarrow> ''data dir''
     | F_adb_port \<Rightarrow> ''adb port''
     | F_fastboot_port \<Rightarrow> ''fastboot port''
     | F_batt_med \<Rightarrow> ''Battery Mediation''
     | F_therm_med \<Rightarrow> ''Thermal Mediation''
     | F_aaf \<Rightarrow> ''AAF''
     | F_tkeep \<Rightarrow> ''Guest Time Keep''
     | F_pmctl \<Rightarrow> ''Guest PM Control''
     | F_extra \<Rightarrow> ''Extra'')"

definition field_hint :: "input_field \<Rightarrow> string" where
  "field_hint x = (case x of
       F_flashfiles \<Rightarrow> ''flashfiles path''
     | F_emulator \<Rightarrow> ''emulator path''
     | F_memory \<Rightarrow> ''memory size''
     | F_vcpu \<Rightarrow> ''vcpu number(1~1024)''
     | F_disk_size \<Rightarrow> ''virtual disk size''
     | F_disk_path \<Rightarrow> ''virtual disk path''
     | F_firm_unified \<Rightarrow> ''Unified firmware binary path''
     | F_firm_splited_code \<Rightarrow> ''Splited firmware binary code path''
     | F_firm_splited_data \<Rightarrow> ''Splited firmware binary data path''
     | F_gvtg_uuid \<Rightarrow> ''UUID for a GVTg-VGPU''
     | F_swtpm_bin \<Rightarrow> ''binary path''
     | F_swtpm_data \<Rightarrow> ''data folder''
     | F_rpmb_bin \<Rightarrow> ''binary path''
     | F_rpmb_data \<Rightarrow> ''data folder''
     | F_adb_port \<Rightarrow> ''ADB port(TCP-Localhost), e.g.:5555''
     | F_fastboot_port \<Rightarrow> ''Fastboot port(TCP-Localhost), e.g.:5554''
     | F_batt_med \<Rightarrow> ''Battery Mediation host side executable binary''
     | F_therm_med \<Rightarrow> ''Thermal Mediation host side executable binary''
     | F_aaf \<Rightarrow> ''AAF configuration folder path''
     | F_tkeep \<Rightarrow> ''Time Keep host side executable binary''
     | F_pmctl \<Rightarrow> ''PM Control host side executable binary''
     | F_extra \<Rightarrow> ''Extra command that emulator can acccept'')"

definition GetContent :: "input_field \<Rightarrow> civ_tui \<Rightarrow> string" where
  "GetContent x f = (case x of
       F_flashfiles \<Rightarrow> flashfiles f | F_emulator \<Rightarrow> emulator f | F_memory \<Rightarrow> memory f
     | F_vcpu \<Rightarrow> vcpu f | F_disk_size \<Rightarrow> disk_size f | F_disk_path \<Rightarrow> disk_path f
     | F_firm_unified \<Rightarrow> firm_unified f | F_firm_splited_code \<Rightarrow> firm_splited_code f | F_firm_splited_data \<Rightarrow> firm_splited_data f
     | F_gvtg_uuid \<Rightarrow> gvtg_uuid f | F_swtpm_bin \<Rightarrow> swtpm_bin f | F_swtpm_data \<Rightarrow> swtpm_data f
     | F_rpmb_bin \<Rightarrow> rpmb_bin_in f | F_rpmb_data \<Rightarrow> rpmb_data_in f | F_adb_port \<Rightarrow> adb_port f
     | F_fastboot_port \<Rightarrow> fastboot_port f | F_batt_med \<Rightarrow> batt_med f | F_therm_med \<Rightarrow> therm_med f
     | F_aaf \<Rightarrow> aaf_in f | F_tkeep \<Rightarrow> tkeep f | F_pmctl \<Rightarrow> pmctl f
     | F_extra \<Rightarrow> extra f)"

definition set_content :: "input_field \<Rightarrow> string \<Rightarrow> civ_tui \<Rightarrow> civ_tui" where
  "set_content x v f = (case x of
       F_flashfiles \<Rightarrow> f\<lparr>flashfiles := v\<rparr> | F_emulator \<Rightarrow> f\<lparr>emulator := v\<rparr>
     | F_memory \<Rightarrow> f\<lparr>memory := v\<rparr> | F_vcpu \<Rightarrow> f\<lparr>vcpu := v\<rparr>
     | F_disk_size \<Rightarrow> f\<lparr>disk_size := v\<rparr> | F_disk_path \<Rightarrow> f\<lparr>disk_path := v\<rparr>
     | F_firm_unified \<Rightarrow> f\<lparr>firm_unified := v\<rparr> | F_firm_splited_code \<Rightarrow> f\<lparr>firm_splited_code := v\<rparr>
     | F_firm_splited_data \<Rightarrow> f\<lparr>firm_splited_data := v\<rparr> | F_gvtg_uuid \<Rightarrow> f\<lparr>gvtg_uuid := v\<rparr>
     | F_swtpm_bin \<Rightarrow> f\<lparr>swtpm_bin := v\<rparr> | F_swtpm_data \<Rightarrow> f\<lparr>swtpm_data := v\<rparr>
     | F_rpmb_bin \<Rightarrow> f\<lparr>rpmb_bin_in := v\<rparr> | F_rpmb_data \<Rightarrow> f\<lparr>rpmb_data_in := v\<rparr>
     | F_adb_port \<Rightarrow> f\<lparr>adb_port := v\<rparr> | F_fastboot_port \<Rightarrow> f\<lparr>fastboot_port := v\<rparr>
     | F_batt_med \<Rightarrow> f\<lparr>batt_med := v\<rparr> | F_therm_med \<Rightarrow> f\<lparr>therm_med := v\<rparr>
     | F_aaf \<Rightarrow> f\<lparr>aaf_in := v\<rparr> | F_tkeep \<Rightarrow> f\<lparr>tkeep := v\<rparr>
     | F_pmctl \<Rightarrow> f\<lparr>pmctl := v\<rparr> | F_extra \<Rightarrow> f\<lparr>extra := v\<rparr>)"

text \<open>The lists of which one entry is selected.\<close>

datatype menu = Firmware_type | Vgpu_type | Gvtg_ver | Pt_pci_disp

definition entries :: "menu \<Rightarrow> civ_tui \<Rightarrow> string list" where
  "entries m f = (case m of Firmware_type \<Rightarrow> firmware_type f | Vgpu_type \<Rightarrow> vgpu_type f | Gvtg_ver \<Rightarrow> gvtg_ver f
     | Pt_pci_disp \<Rightarrow> pt_pci_disp f)"

definition selected :: "menu \<Rightarrow> civ_tui \<Rightarrow> nat" where
  "selected m f = (case m of Firmware_type \<Rightarrow> firmware_type_selected f | Vgpu_type \<Rightarrow> vgpu_selected f
     | Gvtg_ver \<Rightarrow> gvtg_ver_selected f | Pt_pci_disp \<Rightarrow> pt_pci_menu_selected f)"

definition select :: "menu \<Rightarrow> nat \<Rightarrow> civ_tui \<Rightarrow> civ_tui" where
  "select m n f = (case m of Firmware_type \<Rightarrow> f\<lparr>firmware_type_selected := n\<rparr> | Vgpu_type \<Rightarrow> f\<lparr>vgpu_selected := n\<rparr>
     | Gvtg_ver \<Rightarrow> f\<lparr>gvtg_ver_selected := n\<rparr> | Pt_pci_disp \<Rightarrow> f\<lparr>pt_pci_menu_selected := n\<rparr>)"

text \<open>A check box of the device list.\<close>

definition check :: "nat \<Rightarrow> bool \<Rightarrow> civ_tui \<Rightarrow> civ_tui" where
  "check i b f = f\<lparr>pci_dev := map (\<lambda>(j, d). if j = i then d\<lparr>checked := b\<rparr> else d) (enumerate 0 (pci_dev f))\<rparr>"

definition InitCompFirm :: "civ_tui \<Rightarrow> civ_tui" where
  "InitCompFirm f = f\<lparr>firmware_type := [kFirmUnified, kFirmSplited]\<rparr>"

definition InitCompVgpu :: "civ_tui \<Rightarrow> civ_tui" where
  "InitCompVgpu f = f\<lparr>vgpu_type := [kVgpuNone, kVgpuVirtio, kVgpuRamfb, kVgpuGvtG, kVgpuGvtD],
     gvtg_ver := [kGvtgV51, kGvtgV52, kGvtgV54, kGvtgV58]\<rparr>"

text \<open>The lines of the output that are not empty become check boxes.\<close>

definition InitCompPciPt :: "('w, 't) env \<Rightarrow> civ_tui \<Rightarrow> (('w, 'z) os_state_scheme, civ_tui) cpp" where
  "InitCompPciPt E f =
     cbind (oscall_throw Process_error (proc_output E ''lspci -D'')) (\<lambda>out.
     cret (f\<lparr>pci_dev := pci_dev f @ map (\<lambda>line. \<lparr>cb_name = line, checked = False\<rparr>) (filter (\<lambda>l. l \<noteq> []) (getlines out)),
       pt_btn_lable := ''Edit''\<rparr>))"

definition InitializeForm :: "('w, 't) env \<Rightarrow> civ_tui \<Rightarrow> (('w, 'z) os_state_scheme, civ_tui) cpp" where
  "InitializeForm E f = InitCompPciPt E (InitCompVgpu (InitCompFirm f))"

text \<open>The button of the device list: it shows the checked devices and changes between the two views.\<close>

definition PtPciClickButton :: "civ_tui \<Rightarrow> civ_tui" where
  "PtPciClickButton f =
     (let tab = (if pt_pci_tab_id f = 0 then 1 else 0) in
      f\<lparr>pt_pci_disp := map cb_name (filter checked (pci_dev f)), pt_pci_tab_id := tab,
        pt_btn_lable := (if tab = 1 then ''Done'' else ''Edit'')\<rparr>)"

section \<open>From the form to the options\<close>

text \<open>The addresses of the chosen devices, the first word of each line, with commas between.\<close>

primrec passthrough_of :: "string list \<Rightarrow> string" where
  "passthrough_of [] = []"
| "passthrough_of (item # items) =
     (case str_find (CHR '' '') item of
        None \<Rightarrow> passthrough_of items
      | Some pos \<Rightarrow> take pos item @ (if items \<noteq> [] then '','' else []) @ passthrough_of items)"

text \<open>\<open>at\<close> of a vector.\<close>

definition vec_at :: "'a list \<Rightarrow> nat \<Rightarrow> ('s, 'a) cpp" where
  "vec_at xs i = (if i < length xs then cret (xs ! i) else cthrow Out_of_range)"

type_synonym setting = "string \<times> string \<times> string"

text \<open>The calls of \<open>SetValue\<close>, in order; their results are thrown away.\<close>

definition set_all :: "('w, 't) env \<Rightarrow> setting list \<Rightarrow> 't CivConfig \<Rightarrow> 't CivConfig" where
  "set_all E xs c = fold (\<lambda>(g, k, v) c. snd (SetValue E g k v c)) xs c"

definition firmware_settings :: "civ_tui \<Rightarrow> setting list" where
  "firmware_settings f =
     (if firmware_type_selected f = 0 then [(kGroupFirm, kFirmPath, firm_unified f)]
      else if firmware_type_selected f = 1 then
        [(kGroupFirm, kFirmCode, firm_splited_code f), (kGroupFirm, kFirmVars, firm_splited_data f)]
      else [])"

definition form_settings :: "civ_tui \<Rightarrow> string \<Rightarrow> string \<Rightarrow> setting list \<Rightarrow> setting list" where
  "form_settings f firm vgpu vgpu_settings =
     [(kGroupGlob, kGlobName, filename f), (kGroupGlob, kGlobFlashfiles, flashfiles f), (kGroupEmul, kEmulPath, emulator f),
      (kGroupMem, kMemSize, memory f), (kGroupVcpu, kVcpuNum, vcpu f), (kGroupDisk, kDiskSize, disk_size f),
      (kGroupDisk, kDiskPath, disk_path f), (kGroupFirm, kFirmType, firm)] @ firmware_settings f @
     [(kGroupVgpu, kVgpuType, vgpu)] @ vgpu_settings @
     [(kGroupVtpm, kVtpmBinPath, swtpm_bin f), (kGroupVtpm, kVtpmDataDir, swtpm_data f),
      (kGroupRpmb, kVtpmBinPath, rpmb_bin_in f), (kGroupRpmb, kVtpmDataDir, rpmb_data_in f),
      (kGroupPciPt, kPciPtDev, passthrough_of (pt_pci_disp f)), (kGroupNet, kNetAdbPort, adb_port f),
      (kGroupNet, kNetFastbootPort, fastboot_port f), (kGroupMed, kMedBattery, batt_med f),
      (kGroupMed, kMedThermal, therm_med f), (kGroupAaf, kAafPath, aaf_in f), (kGroupService, kServTimeKeep, tkeep f),
      (kGroupService, kServPmCtrl, pmctl f), (kGroupExtra, kExtraCmd, extra f)]"

definition SetConfToPtree :: "('w, 't) env \<Rightarrow> civ_tui \<Rightarrow> 't CivConfig \<Rightarrow> ('s, 't CivConfig) cpp" where
  "SetConfToPtree E f c0 =
     cbind (vec_at (firmware_type f) (firmware_type_selected f)) (\<lambda>firm.
     cbind (vec_at (vgpu_type f) (vgpu_selected f)) (\<lambda>vgpu.
     cbind (if vgpu_selected f = 3 then
              cbind (vec_at (gvtg_ver f) (gvtg_ver_selected f)) (\<lambda>ver.
              cret ((kGroupVgpu, kVgpuGvtgVer, ver) #
                (if gvtg_uuid f \<noteq> [] then [(kGroupVgpu, kVgpuUuid, gvtg_uuid f)] else [])))
            else cret []) (\<lambda>vgpu_settings.
     cret (set_all E (form_settings f firm vgpu vgpu_settings) c0))))"

section \<open>Saving\<close>

text \<open>
  The button SAVE: whether the form is left, the form, and the options.  A file that exists is not touched; a new one
  is created empty before the options are written.
\<close>

definition SaveOn :: "('w, 't) env \<Rightarrow> civ_tui \<Rightarrow> 't CivConfig \<Rightarrow> (('w, 'z) os_state_scheme, bool \<times> civ_tui \<times> 't CivConfig) cpp" where
  "SaveOn E f c =
     cbind (GetConfigPath E) (\<lambda>dir.
     case dir of None \<Rightarrow> ccrash | Some configPath \<Rightarrow>
     let filePath = configPath @ ''/'' @ filename f @ ''.ini'' in
     cbind (oscall (fs_exists E filePath)) (\<lambda>ex.
     if ex then cret (False, f\<lparr>status_bar := ''File alreay exist!''\<rparr>, c) else
     cbind (oscall (file_create E filePath)) (\<lambda>_.
     cbind (SetConfToPtree E f c) (\<lambda>c'.
     cbind (WriteConfigFile E filePath c') (\<lambda>ok.
     cret (ok, f, c'))))))"

section \<open>A session\<close>

text \<open>
  What ftxui does between the start and the end of the screen loop: it types into a field, selects an entry of a list,
  changes a check box, clicks the device button, or clicks SAVE or EXIT.
\<close>

datatype ui_event = Type_in input_field string | Select menu nat | Check nat bool | Click_devices | Click_save | Click_exit

primrec ui_loop :: "('w, 't) env \<Rightarrow> ui_event list \<Rightarrow> civ_tui \<Rightarrow> 't CivConfig \<Rightarrow> (('w, 'z) os_state_scheme, unit) cpp" where
  "ui_loop E [] f c = cret ()"
| "ui_loop E (ev # evs) f c =
     (case ev of
        Type_in x v \<Rightarrow> ui_loop E evs (set_content x v f) c
      | Select m n \<Rightarrow> ui_loop E evs (select m n f) c
      | Check i b \<Rightarrow> ui_loop E evs (check i b f) c
      | Click_devices \<Rightarrow> ui_loop E evs (PtPciClickButton f) c
      | Click_exit \<Rightarrow> cret ()
      | Click_save \<Rightarrow>
          cbind (SaveOn E f c) (\<lambda>(leave, f', c').
          if leave then cret () else ui_loop E evs f' c'))"

definition InitializeUi :: "('w, 't) env \<Rightarrow> ui_event list \<Rightarrow> string \<Rightarrow> (('w, 'z) os_state_scheme, unit) cpp" where
  "InitializeUi E evs name =
     cbind (InitializeForm E (civ_tui_new\<lparr>filename := name\<rparr>)) (\<lambda>f.
     ui_loop E evs f \<lparr>cfg_data = pt_clear E\<rparr>)"

end
