(* ===== verification/Daemon.thy ===== *)
theory Daemon
  imports Civ_Utils
begin

text \<open>
  \<open>Daemonize\<close> (src/utils/utils.cc).  The function runs in up to three processes; \<open>os_fork\<close> answers as the process that is
  followed sees it, so each run of the model is the run of one of them.  \<open>exit\<close> ends the process.
\<close>

datatype 'a process_end = Returned 'a | Exited int

definition STDIN_FILENO :: int where "STDIN_FILENO = 0"
definition STDOUT_FILENO :: int where "STDOUT_FILENO = 1"
definition STDERR_FILENO :: int where "STDERR_FILENO = 2"

text \<open>\<open>for (t = sysconf(_SC_OPEN_MAX); t >= 0; t--) close(t);\<close>\<close>

definition close_all :: "('w, 't) env \<Rightarrow> int \<Rightarrow> (('w, 'z) os_state_scheme, unit) cpp" where
  "close_all E maxfd = cfor (rev [0..maxfd]) (\<lambda>t. oscall (os_close E t))"

definition redirect_streams :: "('w, 't) env \<Rightarrow> (('w, 'z) os_state_scheme, int) cpp" where
  "redirect_streams E =
     cbind (oscall (os_open_rdwr E ''/dev/null'')) (\<lambda>fd.
     if fd < 0 then cret (- 1) else
     if fd \<noteq> STDIN_FILENO then cseq (oscall (os_close E fd)) (cret (- 1)) else
     cbind (oscall (os_dup2 E STDIN_FILENO STDOUT_FILENO)) (\<lambda>o1.
     if o1 \<noteq> STDOUT_FILENO then cret (- 1) else
     cbind (oscall (os_dup2 E STDIN_FILENO STDERR_FILENO)) (\<lambda>o2.
     if o2 \<noteq> STDERR_FILENO then cret (- 1) else
     cret 0)))"

definition Daemonize :: "('w, 't) env \<Rightarrow> (('w, 'z) os_state_scheme, int process_end) cpp" where
  "Daemonize E =
     cbind (oscall (os_fork E)) (\<lambda>pid.
     if pid > 0 then cret (Exited 0) else
     if pid < 0 then cret (Returned (- 1)) else
     cseq (oscall (os_setsid E))
    (cseq (oscall (os_ignore_signal E ''SIGCHLD''))
    (cseq (oscall (os_ignore_signal E ''SIGHUP''))
    (cseq (oscall (os_chdir E ''/''))
    (cbind (oscall (os_fork E)) (\<lambda>pid.
     if pid > 0 then cret (Returned pid) else
     if pid < 0 then cret (Exited (- 1)) else
     cseq (oscall (os_umask E 0))
    (cbind (oscall (os_open_max E)) (\<lambda>maxfd.
     cseq (close_all E maxfd)
    (cseq (oscall (os_close E STDIN_FILENO))
    (cseq (oscall (os_close E STDOUT_FILENO))
    (cseq (oscall (os_close E STDERR_FILENO))
    (cbind (redirect_streams E) (\<lambda>r.
     cret (Returned r))))))))))))))"

section \<open>File descriptors\<close>

text \<open>
  What a theorem may assume of the system calls, with \<open>opens w\<close> the descriptors the process has open: \<open>close\<close> closes one, \<open>open\<close>
  takes the lowest that is not open or fails, \<open>dup2\<close> of an open one opens the one it is asked for or fails, and
  the other calls leave them alone; a new process inherits them.
\<close>

definition fd_law :: "('w, 't) env \<Rightarrow> ('w \<Rightarrow> int set) \<Rightarrow> bool" where
  "fd_law E opens \<longleftrightarrow>
     (\<forall>fd w. opens (snd (os_close E fd w)) = opens w - {fd}) \<and>
     (\<forall>p w fd w'. os_open_rdwr E p w = (fd, w') \<and> 0 \<le> fd \<longrightarrow>
        fd \<notin> opens w \<and> {0..<fd} \<subseteq> opens w \<and> opens w' = insert fd (opens w)) \<and>
     (\<forall>a b w w'. a \<in> opens w \<and> os_dup2 E a b w = (b, w') \<and> 0 \<le> b \<longrightarrow> opens w' = insert b (opens w)) \<and>
     (\<forall>w. opens (snd (os_fork E w)) = opens w) \<and> (\<forall>w. opens (snd (os_setsid E w)) = opens w) \<and>
     (\<forall>s w. opens (snd (os_ignore_signal E s w)) = opens w) \<and> (\<forall>p w. opens (snd (os_chdir E p w)) = opens w) \<and>
     (\<forall>m w. opens (snd (os_umask E m w)) = opens w) \<and> (\<forall>w. opens (snd (os_open_max E w)) = opens w)"

lemma fd_lawD:
  assumes "fd_law E opens"
  shows "os_close E fd w = ((), w') \<Longrightarrow> opens w' = opens w - {fd}"
    and "os_open_rdwr E p w = (n, w') \<Longrightarrow> 0 \<le> n \<Longrightarrow> n \<notin> opens w \<and> {0..<n} \<subseteq> opens w \<and> opens w' = insert n (opens w)"
    and "os_dup2 E a b w = (b, w') \<Longrightarrow> a \<in> opens w \<Longrightarrow> 0 \<le> b \<Longrightarrow> opens w' = insert b (opens w)"
    and "os_fork E w = (i, w') \<Longrightarrow> opens w' = opens w" and "os_setsid E w = ((), w') \<Longrightarrow> opens w' = opens w"
    and "os_ignore_signal E sg w = ((), w') \<Longrightarrow> opens w' = opens w" and "os_chdir E p w = ((), w') \<Longrightarrow> opens w' = opens w"
    and "os_umask E m w = ((), w') \<Longrightarrow> opens w' = opens w" and "os_open_max E w = (i, w') \<Longrightarrow> opens w' = opens w"
  using assms unfolding fd_law_def by (metis snd_conv)+

lemma close_list:
  assumes "fd_law E opens" and "cfor fds (\<lambda>t. oscall (os_close E t)) s = (Ret (), s')"
  shows "opens (world s') = opens (world s) - set fds"
  using assms(2)
proof (induction fds arbitrary: s)
  case (Cons fd fds)
  then obtain w where w: "os_close E fd (world s) = ((), w)" and rest: "cfor fds (\<lambda>t. oscall (os_close E t)) (s\<lparr>world := w\<rparr>) = (Ret (), s')"
    by (auto simp: cfor_Cons_run ret_iffs)
  from Cons.IH [OF rest] fd_lawD(1) [OF assms(1) w] show ?case by auto
qed (simp add: run_simps)

lemma redirect_streams_fds:
  assumes law: "fd_law E opens" and none: "opens (world s) = {}" and run: "redirect_streams E s = (Ret r, t)"
  shows "r = 0 \<Longrightarrow> opens (world t) = {0, 1, 2}"
proof -
  assume "r = 0"
  with run obtain w1 w2 w3 where w: "os_open_rdwr E ''/dev/null'' (world s) = (0, w1)" "os_dup2 E 0 1 w1 = (1, w2)"
      "os_dup2 E 0 2 w2 = (2, w3)" "world t = w3"
    by (auto simp: redirect_streams_def ret_iffs STDIN_FILENO_def STDOUT_FILENO_def STDERR_FILENO_def split: if_splits)
  have 1: "opens w1 = {0}" using fd_lawD(2) [OF law w(1)] none by simp
  have 2: "opens w2 = {0, 1}" using fd_lawD(3) [OF law w(2)] 1 by auto
  show ?thesis using fd_lawD(3) [OF law w(3)] 2 w(4) by auto
qed

text \<open>
  C39. The daemon starts with a clean set of file descriptors.  When all descriptors of the process lie below the limit that
  \<open>sysconf\<close> reports and \<open>Daemonize\<close> returns 0, exactly the three standard streams are open.
\<close>

theorem Daemonize_descriptors:
  assumes "fd_law E opens" and "Daemonize E s = (Ret (Returned 0), t)"
    and "\<And>w. opens (world s) \<subseteq> {0..fst (os_open_max E w)}"
  shows "opens (world t) = {0, 1, 2}"
proof -
  note law = assms(1)
  obtain w1 w2 w3 w4 w5 w6 w7 w8 maxfd s1 w9 w10 w11 where
    w: "os_fork E (world s) = (0, w1)" "os_setsid E w1 = ((), w2)" "os_ignore_signal E ''SIGCHLD'' w2 = ((), w3)"
      "os_ignore_signal E ''SIGHUP'' w3 = ((), w4)" "os_chdir E ''/'' w4 = ((), w5)" "os_fork E w5 = (0, w6)"
      "os_umask E 0 w6 = ((), w7)" "os_open_max E w7 = (maxfd, w8)" and c: "close_all E maxfd (s\<lparr>world := w8\<rparr>) = (Ret (), s1)"
    and d: "os_close E 0 (world s1) = ((), w9)" "os_close E 1 w9 = ((), w10)" "os_close E 2 w10 = ((), w11)"
    and r: "redirect_streams E (s1\<lparr>world := w11\<rparr>) = (Ret 0, t)"
    using assms(2)
    by (auto simp: Daemonize_def ret_iffs STDIN_FILENO_def STDOUT_FILENO_def STDERR_FILENO_def split: if_splits)
  have "opens w8 = opens (world s)" using fd_lawD(4-) [OF law] w by metis
  then have "opens (world s1) = opens (world s) - set (rev [0..maxfd])" using close_list [OF law c [unfolded close_all_def]] by simp
  moreover have "opens (world s) \<subseteq> {0..maxfd}" using assms(3) [of w7] w(8) by simp
  ultimately have "opens (world s1) = {}" by auto
  then have "opens w11 = {}" using fd_lawD(1) [OF law] d by auto
  with redirect_streams_fds [OF law _ r] show ?thesis by simp
qed

theorem Daemonize_descriptors_witness:
  "\<exists>t. Daemonize ref_env (\<lparr>world = ref_world0, civ_config_path = None\<rparr> :: ref_world os_state) = (Ret (Returned 0), t) \<and>
     set (r_fds (world t)) = {0, 1, 2}"
proof -
  let ?s = "\<lparr>world = ref_world0, civ_config_path = None\<rparr> :: ref_world os_state"
  have law: "fd_law ref_env (\<lambda>w. set (r_fds w))"
    by (auto simp: fd_law_def ref_env_def split: if_splits)
  have lim: "rev [0..3 :: int] = [3, 2, 1, 0]" by (simp add: upto_rec1)
  obtain t where t: "Daemonize ref_env ?s = (Ret (Returned 0), t)"
    by (simp add: Daemonize_def close_all_def redirect_streams_def run_simps STDIN_FILENO_def STDOUT_FILENO_def STDERR_FILENO_def
        ref_env_def ref_world0_def lim)
  have "set (r_fds (world t)) = {0, 1, 2}"
    by (rule Daemonize_descriptors [OF law t]) (simp add: ref_env_def ref_world0_def)
  with t show ?thesis by blast
qed

end
