(* ===== verification/Vm_Manager.thy ===== *)
theory Vm_Manager
  imports Client Vm_Flash Civ_Tui Daemon
begin

text \<open>
  The command line program (src/vm_manager.cc): each command is a client of the server.  Every call of \<open>Notify\<close> has a
  schedule of its own.
\<close>

section \<open>The commands\<close>

definition IsServerRunning :: "('w, 't) env \<Rightarrow> schedule \<Rightarrow> ('w, 't, bool) system_op" where
  "IsServerRunning E sc =
     ctry (with_client E (\<lambda>c. cbind (Notify E sc c kCivMsgTest) (\<lambda>_. cret True))) (\<lambda>_. cret False)"

definition cout :: "('w, 't) env \<Rightarrow> string \<Rightarrow> (('w, 'z) os_state_scheme, unit) cpp" where
  "cout E text = oscall (std_cout E text)"

definition ListGuest :: "('w, 't) env \<Rightarrow> schedule \<Rightarrow> schedule \<Rightarrow> ('w, 't, bool) system_op" where
  "ListGuest E sc1 sc2 =
     cbind (IsServerRunning E sc1) (\<lambda>up.
     if \<not> up then cret False else
     with_client E (\<lambda>c.
       cbind (Notify E sc2 c kCivMsgListVm) (\<lambda>ok.
       if \<not> ok then cret False else
       cbind (GetGuestLists E c) (\<lambda>vm_list.
       cseq (cout E (''====================='' @ [newline]))
      (cseq (cfor vm_list (\<lambda>it. cout E (it @ [newline])))
       (cret True))))))"

text \<open>\<open>static_cast<VmBuilder::VmState>(i)\<close>, for the numbers of enumerators\<close>

definition state_of :: "nat \<Rightarrow> VmState" where
  "state_of i = [kVmEmpty, kVmCreated, kVmBooting, kVmRunning, kVmPaused, kVmUnknown] ! i"

text \<open>The loops of \<open>GetGuestState\<close>: the first entry of the name whose state is known.\<close>

primrec guest_state :: "('w, 't) env \<Rightarrow> string \<Rightarrow> string list \<Rightarrow> int" where
  "guest_state E name [] = int (state_num kVmUnknown)"
| "guest_state E name (it # its) =
     (case split_on E (CHR '':'') False it of
        [sp0, sp1] \<Rightarrow>
          (if sp0 = name then
             (case List.find (\<lambda>i. sp1 = VmStateToStr (state_of i)) [0..<state_num kVmUnknown] of
                Some i \<Rightarrow> int i
              | None \<Rightarrow> guest_state E name its)
           else guest_state E name its)
      | _ \<Rightarrow> guest_state E name its)"

definition GetGuestState :: "('w, 't) env \<Rightarrow> schedule \<Rightarrow> schedule \<Rightarrow> string \<Rightarrow> ('w, 't, int) system_op" where
  "GetGuestState E sc1 sc2 name =
     (if name = [] then cret (- 1) else
     cbind (IsServerRunning E sc1) (\<lambda>up.
     if \<not> up then cret (- 1) else
     with_client E (\<lambda>c.
       cbind (Notify E sc2 c kCivMsgListVm) (\<lambda>_.
       cbind (GetGuestLists E c) (\<lambda>vm_list.
       cret (guest_state E name vm_list))))))"

definition StartGuest :: "('w, 't) env \<Rightarrow> schedule \<Rightarrow> schedule \<Rightarrow> path \<Rightarrow> ('w, 't, bool) system_op" where
  "StartGuest E sc1 sc2 path =
     cbind (IsServerRunning E sc1) (\<lambda>up.
     if \<not> up then cret False else
     cbind (guest_ini E path) (\<lambda>ini.
     case ini of None \<Rightarrow> cret False | Some p \<Rightarrow>
     with_client E (\<lambda>c.
       cseq (PrepareStartGuestClientShm E c p)
       (Notify E sc2 c kCivMsgStartVm))))"

definition StopGuest :: "('w, 't) env \<Rightarrow> schedule \<Rightarrow> schedule \<Rightarrow> string \<Rightarrow> ('w, 't, bool) system_op" where
  "StopGuest E sc1 sc2 name =
     cbind (IsServerRunning E sc1) (\<lambda>up.
     if \<not> up then cret False else
     with_client E (\<lambda>c.
       cseq (PrepareStopGuestClientShm E c name)
       (Notify E sc2 c kCivMsgStopVm)))"

definition GetGuestCid :: "('w, 't) env \<Rightarrow> schedule \<Rightarrow> schedule \<Rightarrow> string \<Rightarrow> ('w, 't, bool) system_op" where
  "GetGuestCid E sc1 sc2 name =
     cbind (IsServerRunning E sc1) (\<lambda>up.
     if \<not> up then cret False else
     with_client E (\<lambda>c.
       cbind (GetCivVmInfo E sc2 c name) (\<lambda>(cid, state).
       if state = state_num kVmUnknown then cret False else
       cseq (cout E (to_string (uint cid) @ [newline]))
       (cret True))))"

text \<open>
  \<open>Start\<close> keeps the process in the loop of the server until that ends, so \<open>Returned\<close> here says that the process has
  become the server (\<open>ok\<close>: the segment could be created); what happens then are passes through the loop.
\<close>

definition Server_Start :: "('w, 't) env \<Rightarrow> bool \<Rightarrow> ('w, 't, unit) system_op" where
  "Server_Start E ok = cmodify (\<lambda>y. let z = Server_Start_open E ok y in if ok then Server_Start_sync z else z)"

definition StartServer :: "('w, 't) env \<Rightarrow> schedule \<Rightarrow> bool \<Rightarrow> bool \<Rightarrow> ('w, 't, bool process_end) system_op" where
  "StartServer E sc ok daemon =
     cbind (IsServerRunning E sc) (\<lambda>up.
     if up then cret (Returned False) else
     cbind (if daemon then Daemonize E else cret (Returned 0)) (\<lambda>d.
     case d of
       Exited code \<Rightarrow> cret (Exited code)
     | Returned ret \<Rightarrow>
         if ret > 0 then cret (Returned True)
         else if ret < 0 then cret (Returned False)
         else cseq (Server_Start E ok) (cret (Returned True))))"

definition StopServer :: "('w, 't) env \<Rightarrow> schedule \<Rightarrow> schedule \<Rightarrow> schedule \<Rightarrow> ('w, 't, bool) system_op" where
  "StopServer E sc1 sc2 sc3 =
     cbind (IsServerRunning E sc1) (\<lambda>up.
     if \<not> up then cret False else
     with_client E (\<lambda>c.
       cbind (Notify E sc2 c kCiVMsgStopServer) (\<lambda>ok.
       if ok then
         cbind (IsServerRunning E sc3) (\<lambda>still. cret (\<not> still))
       else cret False)))"

section \<open>The command line\<close>

definition cmdline_options :: "po_option list" where
  "cmdline_options =
    [(''help,h'', False, ''Show this help message''),
     (''create,c'', True, ''Create a CiV guest''),
     (''start,b'', True, ''Start a CiV guest''),
     (''stop,q'', True, ''Stop a CiV guest''),
     (''flash,f'', True, ''Flash a CiV guest''),
     (''get-cid'', True, ''Get cid of a guest''),
     (''list,l'', False, ''List existing CiV guest''),
     (''version,v'', False, ''Show CiV vm-manager version''),
     (''start-server'', False, ''Start host server''),
     (''stop-server'', False, ''Stop host server''),
     (''daemon'', False, ''start server as a daemon'')]"

definition PrintHelp :: "('w, 't) env \<Rightarrow> (('w, 'z) os_state_scheme, unit) cpp" where
  "PrintHelp E =
     cseq (cout E (''Usage:'' @ [newline]))
    (cseq (cout E (''  vm-manager [-c vm_name] [-b vm_name] [-q vm_name] [-f vm_name] [--get-cid vm_name] [-l] [-v] [-h]'' @ [newline]))
    (cseq (cout E (''Options:'' @ [newline]))
     (cout E (po_print E cmdline_options @ [newline]))))"

text \<open>The text of the version comes from the build.\<close>

definition PrintVersion :: "('w, 't) env \<Rightarrow> string \<Rightarrow> (('w, 'z) os_state_scheme, unit) cpp" where
  "PrintVersion E build = cout E (''CiV vm-manager version: '' @ build @ [newline])"

text \<open>
  What happens around a run of the program: the schedules of its calls of \<open>Notify\<close>, in order, what other processes do
  while it sleeps for the n-th time (a server that was started comes up), what the user does in the form, whether
  the segment can be created, and the text of the build.
\<close>

record ('w, 't) run_env =
  scheds :: "nat \<Rightarrow> schedule"
  others :: "nat \<Rightarrow> ('w, 't) system \<Rightarrow> ('w, 't) system"
  ui_events :: "ui_event list"
  seg_ok :: bool
  build_text :: string

text \<open>\<open>while (!IsServerRunning())\<close>: at most 102 checks.\<close>

primrec wait_server :: "('w, 't) env \<Rightarrow> ('w, 't) run_env \<Rightarrow> nat \<Rightarrow> nat \<Rightarrow> ('w, 't, bool) system_op" where
  "wait_server E R 0 wait_cnt =
     cbind (IsServerRunning E (scheds R (2 + wait_cnt))) (\<lambda>up. cret up)"
| "wait_server E R (Suc left) wait_cnt =
     cbind (IsServerRunning E (scheds R (2 + wait_cnt))) (\<lambda>up.
     if up then cret True else
     cseq (oscall (os_sleep E))
    (cseq (cmodify (others R wait_cnt))
     (wait_server E R left (Suc wait_cnt))))"

definition ensure_server :: "('w, 't) env \<Rightarrow> ('w, 't) run_env \<Rightarrow> path \<Rightarrow> ('w, 't, bool) system_op" where
  "ensure_server E R arg0 =
     cbind (IsServerRunning E (scheds R 1)) (\<lambda>up.
     if up then cret True else
     cbind (oscall (fs_exists E arg0)) (\<lambda>ex.
     cbind (if ex then cret arg0 else oscall (search_path E arg0)) (\<lambda>command.
     cbind (oscall_throw Process_error (proc_system_args E command [''--start-server'', ''--daemon''])) (\<lambda>rc.
     if rc \<noteq> 0 then cret False else
     wait_server E R 101 0))))"

definition run_command :: "('w, 't) env \<Rightarrow> ('w, 't) run_env \<Rightarrow> (string \<times> string) list \<Rightarrow> ('w, 't, bool) system_op" where
  "run_command E R vm =
     (let sc1 = scheds R 200; sc2 = scheds R 201 in
     case map_of vm ''create'' of Some name \<Rightarrow> cseq (InitializeUi E (ui_events R) name) (cret True) | None \<Rightarrow>
     case map_of vm ''delete'' of Some _ \<Rightarrow> cret True | None \<Rightarrow>
     case map_of vm ''start'' of Some path \<Rightarrow> StartGuest E sc1 sc2 path | None \<Rightarrow>
     case map_of vm ''stop'' of Some name \<Rightarrow> StopGuest E sc1 sc2 name | None \<Rightarrow>
     case map_of vm ''flash'' of Some path \<Rightarrow> FlashGuest E path | None \<Rightarrow>
     case map_of vm ''update'' of Some _ \<Rightarrow> cret False | None \<Rightarrow>
     case map_of vm ''get-cid'' of Some name \<Rightarrow> GetGuestCid E sc1 sc2 name | None \<Rightarrow>
     case map_of vm ''list'' of Some _ \<Rightarrow> ListGuest E sc1 sc2 | None \<Rightarrow>
     cret False)"

definition ParseOptions :: "('w, 't) env \<Rightarrow> ('w, 't) run_env \<Rightarrow> string list \<Rightarrow> ('w, 't, bool process_end) system_op" where
  "ParseOptions E R args =
     (case po_parse E cmdline_options args of
        Inl what \<Rightarrow> cseq (cout E (what @ [newline])) (cret (Returned False))
      | Inr vm \<Rightarrow>
          if vm = [] then cseq (PrintHelp E) (cret (Returned False))
          else if map_of vm ''help'' \<noteq> None then cseq (PrintHelp E) (cret (Returned True))
          else if map_of vm ''version'' \<noteq> None then cseq (PrintVersion E (build_text R)) (cret (Returned True))
          else if map_of vm ''stop-server'' \<noteq> None then
            cbind (StopServer E (scheds R 0) (scheds R 1) (scheds R 2)) (\<lambda>ok. cret (Returned ok))
          else if map_of vm ''start-server'' \<noteq> None then
            StartServer E (scheds R 0) (seg_ok R) (map_of vm ''daemon'' \<noteq> None)
          else
            (case args of [] \<Rightarrow> ccrash | arg0 # _ \<Rightarrow>
             cbind (ensure_server E R arg0) (\<lambda>up.
             if \<not> up then cret (Returned False) else
             cbind (run_command E R vm) (\<lambda>ok. cret (Returned ok)))))"

definition main :: "('w, 't) env \<Rightarrow> ('w, 't) run_env \<Rightarrow> string list \<Rightarrow> ('w, 't, int) system_op" where
  "main E R argv =
     ctry
      (cbind (GetConfigPath E) (\<lambda>p.
       if p = None then cret (- 1) else
       cbind (if length argv = 2 \<and> argv ! 1 = ''--afl-fuzz'' then
                cbind (oscall (std_cin_line E)) (\<lambda>str. cret (argv ! 0 # split_on E (CHR '' '') False str))
              else cret argv) (\<lambda>args.
       cbind (ParseOptions E R args) (\<lambda>d.
       case d of
         Exited code \<Rightarrow> cret code
       | Returned ok \<Rightarrow> cret (if ok then 0 else - 1)))))
      (\<lambda>e. cseq (cout E (''Exception: '' @ exn_what E e @ [newline])) (cret (- 1)))"

end
