(* ===== verification/Client_Facts.thy ===== *)
theory Client_Facts
  imports Client
begin

text \<open>
  What the message protocol between clients and server guarantees, over every schedule of the two sides.
\<close>

section \<open>One pass of the server\<close>

abbreviation handled :: "('w, 't) env \<Rightarrow> schedule \<Rightarrow> CivMsg \<Rightarrow> ('w, 't) system \<Rightarrow> CivMsgType outcome \<times> ('w, 't) server_state" where
  "handled E sched m y \<equiv> handle_msg E (ready_at sched) (order_of sched) m ((srv y)\<lparr>world := world y\<rparr>)"

lemma server_iter_dead: "\<not> srv_alive y \<Longrightarrow> server_iter E ready order y = (Ret (), y)"
  by (simp add: server_iter_def)

text \<open>How a pass ends when there is a message.\<close>

lemma server_iter_cases:
  assumes "srv_alive y" and "msg_data (chan y) = Some m"
  shows "case handle_msg E ready order m ((srv y)\<lparr>world := world y\<rparr>) of
      (Ret r, t) \<Rightarrow> (\<exists>z. server_iter E ready order y = (Ret (), z) \<and> srv z = t \<and> world z = world t \<and>
        chan z = \<lparr>msg_in = False, msg_data = Some (m\<lparr>msg_type := r\<rparr>)\<rparr> \<and>
        civ_config_path z = civ_config_path y \<and> sync_made z = sync_made y \<and>
        srv_alive z = (\<not> stop_server t) \<and> chan_named z = (chan_named y \<and> \<not> stop_server t))
    | (Throw e, t) \<Rightarrow> (\<exists>z. server_iter E ready order y = (Ret (), z) \<and> srv z = t \<and> world z = world t \<and> \<not> srv_alive z \<and> chan z = chan y)
    | (_, t) \<Rightarrow> fst (server_iter E ready order y) = Hang"
  using assms
  by (auto simp: server_iter_def srv_run_def loop_head_def leave_loop_def split: prod.splits outcome.splits)

section \<open>The wait\<close>

text \<open>\<open>quiet sched n k\<close>: in the waits from \<open>n\<close> on and before \<open>k\<close> the server does not run and nothing wakes the client.\<close>

definition quiet :: "schedule \<Rightarrow> nat \<Rightarrow> nat \<Rightarrow> bool" where
  "quiet sched n k \<longleftrightarrow> (\<forall>j. n \<le> j \<and> j < k \<longrightarrow> \<not> server_runs sched j \<and> wait_ends sched j = Cv_timeout)"

lemma Notify_wait_done: "\<not> msg_in (chan y) \<Longrightarrow> Notify_wait E sched left n y = (Ret n, y)"
  by (cases left) (simp_all add: run_simps)

lemma Notify_wait_quiet:
  assumes "quiet sched n (n + k)" and "msg_in (chan y)"
  shows "Notify_wait E sched (k + left) n y = Notify_wait E sched left (n + k) y"
  using assms
proof (induction k arbitrary: n)
  case (Suc k)
  have q: "\<not> server_runs sched n" "wait_ends sched n = Cv_timeout" "quiet sched (Suc n) (Suc n + k)"
    using Suc.prems(1) by (auto simp: quiet_def)
  with Suc.prems(2) have "Notify_wait E sched (Suc k + left) n y = Notify_wait E sched (k + left) (Suc n) y"
    by (simp add: run_simps)
  also have "\<dots> = Notify_wait E sched left (Suc n + k) y" by (rule Suc.IH [OF q(3) Suc.prems(2)])
  finally show ?case by simp
qed simp

text \<open>A server that is gone changes nothing, and the message keeps its type.\<close>

lemma Notify_wait_dead:
  "\<not> srv_alive y \<Longrightarrow> msg_in (chan y) \<Longrightarrow> \<exists>n'. Notify_wait E sched left n y = (Ret n', y)"
  by (induction left arbitrary: n) (auto simp: run_simps server_iter_dead)

text \<open>The first wait in which something happens, if there is one before the last.\<close>

lemma first_event:
  obtains (none) "quiet sched 0 kMaxRetryCount"
  | (first) k where "k < kMaxRetryCount" "quiet sched 0 k" "server_runs sched k \<or> wait_ends sched k = Cv_no_timeout"
proof (cases "quiet sched 0 kMaxRetryCount")
  case False
  let ?P = "\<lambda>k. k < kMaxRetryCount \<and> (server_runs sched k \<or> wait_ends sched k = Cv_no_timeout)"
  from False have "\<exists>k. ?P k" unfolding quiet_def by (metis cv_status.exhaust)
  then have L: "?P (LEAST k. ?P k)" by (rule LeastI_ex)
  moreover have "quiet sched 0 (LEAST k. ?P k)"
    unfolding quiet_def using not_less_Least [where P = ?P] L by (metis cv_status.exhaust order.strict_trans)
  ultimately show ?thesis using first by blast
qed (rule none)

lemma Notify_wait_at:
  assumes "k < kMaxRetryCount" and "quiet sched 0 k" and "msg_in (chan y)"
  shows "Notify_wait E sched kMaxRetryCount 0 y =
    (case (if server_runs sched k then server_iter E (ready_at sched) (order_of sched) y else (Ret (), y)) of
       (Ret _, z) \<Rightarrow> (if wait_ends sched k = Cv_timeout then Notify_wait E sched (kMaxRetryCount - Suc k) (Suc k) z else (Ret k, z))
     | (Throw e, z) \<Rightarrow> (Throw e, z) | (Crash, z) \<Rightarrow> (Crash, z) | (Hang, z) \<Rightarrow> (Hang, z))"
proof -
  have "Notify_wait E sched (k + Suc (kMaxRetryCount - Suc k)) 0 y = Notify_wait E sched (Suc (kMaxRetryCount - Suc k)) (0 + k) y"
    by (rule Notify_wait_quiet) (use assms in simp_all)
  then show ?thesis using assms(1,3) by (simp add: run_simps split: outcome.splits prod.splits)
qed

text \<open>The outcome of the wait for the response to \<open>m\<close>.\<close>

definition passes :: "schedule \<Rightarrow> nat \<Rightarrow> bool" where
  "passes sched k \<longleftrightarrow> k < kMaxRetryCount \<and> quiet sched 0 k \<and> server_runs sched k"

lemma wait_pass:
  assumes y: "srv_alive y" "msg_in (chan y)" "msg_data (chan y) = Some m" and k: "passes sched k"
  shows "case handled E sched m y of
      (Ret r, u) \<Rightarrow> (\<exists>z. Notify_wait E sched kMaxRetryCount 0 y = (Ret (if wait_ends sched k = Cv_timeout then Suc k else k), z) \<and>
        srv z = u \<and> world z = world u \<and> chan z = \<lparr>msg_in = False, msg_data = Some (m\<lparr>msg_type := r\<rparr>)\<rparr> \<and>
        civ_config_path z = civ_config_path y \<and> sync_made z = sync_made y \<and>
        srv_alive z = (\<not> stop_server u) \<and> chan_named z = (chan_named y \<and> \<not> stop_server u))
    | (Throw e, u) \<Rightarrow> (\<exists>n z. Notify_wait E sched kMaxRetryCount 0 y = (Ret n, z) \<and> srv z = u \<and> \<not> srv_alive z \<and> chan z = chan y)
    | _ \<Rightarrow> fst (Notify_wait E sched kMaxRetryCount 0 y) = Hang"
proof -
  have at: "k < kMaxRetryCount" "quiet sched 0 k" "server_runs sched k" using k by (simp_all add: passes_def)
  note at = Notify_wait_at [OF at(1,2) y(2), of E] at(3)
  note cs = server_iter_cases [OF y(1,3), of E "ready_at sched" "order_of sched"]
  obtain oc u where h: "handled E sched m y = (oc, u)" by (cases "handled E sched m y")
  show ?thesis
  proof (cases oc)
    case (Ret r)
    then show ?thesis using cs at by (force simp: h Notify_wait_done)
  next
    case (Throw e)
    with cs obtain z where z: "server_iter E (ready_at sched) (order_of sched) y = (Ret (), z)" "srv z = u" "\<not> srv_alive z"
      "chan z = chan y" by (auto simp: h)
    obtain n where "Notify_wait E sched (kMaxRetryCount - Suc k) (Suc k) z = (Ret n, z)"
      using Notify_wait_dead [OF z(3), of E sched "kMaxRetryCount - Suc k" "Suc k"] z(4) y(2) by auto
    then have "\<exists>n. Notify_wait E sched kMaxRetryCount 0 y = (Ret n, z)" using at z(1) by auto
    with z Throw show ?thesis by (auto simp: h)
  qed (use cs at in \<open>auto simp: h split: prod.splits\<close>)
qed

lemma wait_no_pass:
  assumes y: "msg_in (chan y)" and none: "\<not> (srv_alive y \<and> (\<exists>k. passes sched k))"
  shows "\<exists>n. Notify_wait E sched kMaxRetryCount 0 y = (Ret n, y)"
proof (cases "srv_alive y")
  case True
  show ?thesis
  proof (cases sched rule: first_event)
    case none
    have "Notify_wait E sched (kMaxRetryCount + 0) 0 y = Notify_wait E sched 0 (0 + kMaxRetryCount) y"
      by (rule Notify_wait_quiet) (use none y in simp_all)
    then show ?thesis by (simp add: run_simps)
  next
    case (first k)
    with True none have "\<not> server_runs sched k" by (auto simp: passes_def)
    with first Notify_wait_at [OF first(1,2) y, of E] show ?thesis by simp
  qed
qed (rule Notify_wait_dead [OF _ y])

section \<open>Notify\<close>

abbreviation msg_of :: "client \<Rightarrow> CivMsgType \<Rightarrow> CivMsg" where
  "msg_of c t \<equiv> \<lparr>msg_type = t, payload = take (MaxPayloadSize - 1) c\<rparr>"

abbreviation sent :: "client \<Rightarrow> CivMsgType \<Rightarrow> ('w, 't) system \<Rightarrow> ('w, 't) system" where
  "sent c t y \<equiv> y\<lparr>chan := \<lparr>msg_in = True, msg_data = Some (msg_of c t)\<rparr>\<rparr>"

abbreviation taken_back :: "('w, 't) system \<Rightarrow> ('w, 't) system" where
  "taken_back z \<equiv> z\<lparr>chan := (chan z)\<lparr>msg_data := None\<rparr>\<rparr>"

lemma Notify_run:
  assumes "sync_made y" and "msg_data (chan y) = None" and "\<not> early sched"
  shows "Notify E sched c t y = (case Notify_wait E sched kMaxRetryCount 0 (sent c t y) of
       (Ret n, z) \<Rightarrow> (Ret (n < kMaxRetryCount \<and> msg_state z = Some kCivMsgRespondSuccess), taken_back z)
     | (Throw e, z) \<Rightarrow> (Throw e, z) | (Crash, z) \<Rightarrow> (Crash, z) | (Hang, z) \<Rightarrow> (Hang, z))"
  using assms by (cases "chan y") (simp add: Notify_def run_simps split: prod.splits outcome.splits)

text \<open>The whole of a call: what it returns and the server it leaves.\<close>

lemma Notify_cases:
  fixes E :: "('w, 't) env"
  assumes y: "sync_made y" "msg_data (chan y) = None" "\<not> early sched" and t: "t \<noteq> kCivMsgRespondSuccess"
  obtains (unanswered) z where "Notify E sched c t y = (Ret False, z)"
      "\<not> (srv_alive y \<and> (\<exists>k. passes sched k) \<and> is_Ret (fst (handled E sched (msg_of c t) y)))"
  | (stuck) "fst (Notify E sched c t y) = Hang" "fst (handled E sched (msg_of c t) y) \<in> {Crash, Hang}"
  | (answered) k r u z where "srv_alive y" "passes sched k" "handled E sched (msg_of c t) y = (Ret r, u)" "srv z = u" "world z = world u"
      "Notify E sched c t y = (Ret (r = kCivMsgRespondSuccess \<and> (wait_ends sched k = Cv_timeout \<longrightarrow> Suc k < kMaxRetryCount)), z)"
      "civ_config_path z = civ_config_path y" "sync_made z" "chan z = \<lparr>msg_in = False, msg_data = None\<rparr>"
      "srv_alive z = (\<not> stop_server u)" "chan_named z = (chan_named y \<and> \<not> stop_server u)"
proof (cases "srv_alive y \<and> (\<exists>k. passes sched k)")
  case False
  obtain n where n: "Notify_wait E sched kMaxRetryCount 0 (sent c t y) = (Ret n, sent c t y)"
    using wait_no_pass [of "sent c t y" sched E] False by auto
  show ?thesis
    by (rule unanswered [of "taken_back (sent c t y)"])
      (use t False n in \<open>auto simp: Notify_run [OF y] msg_state_def\<close>)
next
  case True
  then obtain k where k: "srv_alive y" "passes sched k" by blast
  note cs = wait_pass [of "sent c t y" "msg_of c t" sched k E, simplified, OF k]
  obtain oc u where h: "handled E sched (msg_of c t) y = (oc, u)" by (cases "handled E sched (msg_of c t) y")
  show ?thesis
  proof (cases oc)
    case (Ret r)
    with cs h obtain z where z: "Notify_wait E sched kMaxRetryCount 0 (sent c t y) =
        (Ret (if wait_ends sched k = Cv_timeout then Suc k else k), z)" "srv z = u" "world z = world u"
        "chan z = \<lparr>msg_in = False, msg_data = Some ((msg_of c t)\<lparr>msg_type := r\<rparr>)\<rparr>"
        "civ_config_path z = civ_config_path y" "sync_made z = sync_made y"
        "srv_alive z = (\<not> stop_server u)" "chan_named z = (chan_named y \<and> \<not> stop_server u)" by auto
    show ?thesis
      by (rule answered [of k r u "taken_back z", OF k])
        (use h Ret z y(1) k(2) in \<open>auto simp: Notify_run [OF y] msg_state_def passes_def\<close>)
  next
    case (Throw e)
    with cs h obtain n z where z: "Notify_wait E sched kMaxRetryCount 0 (sent c t y) = (Ret n, z)" "chan z = chan (sent c t y)"
      by auto
    show ?thesis
      by (rule unanswered [of "taken_back z"]) (use h Throw z t in \<open>auto simp: Notify_run [OF y] msg_state_def\<close>)
  next
    case Crash
    have "fst (Notify E sched c t y) = Hang"
      using cs h Crash by (auto simp: Notify_run [OF y] split: prod.splits outcome.splits)
    then show ?thesis by (rule stuck) (use h Crash in simp)
  next
    case Hang
    have "fst (Notify E sched c t y) = Hang"
      using cs h Hang by (auto simp: Notify_run [OF y] split: prod.splits outcome.splits)
    then show ?thesis by (rule stuck) (use h Hang in simp)
  qed
qed

section \<open>Properties\<close>

text \<open>
  C21. When a request succeeds.  For any schedule in which the message is not picked up early, \<open>Notify\<close> returns true exactly
  when the server is in its loop, gets to run in one of the first hundred waits before anything else wakes the client,
  its handler answers the message with success, and the client learns of it before it has counted a hundred
  timeouts.  In all other cases the caller is told that the request failed, or blocks with the server.
\<close>

theorem Notify_true_iff:
  assumes "sync_made y" and "msg_data (chan y) = None" and "\<not> early sched" and "t \<noteq> kCivMsgRespondSuccess"
  shows "fst (Notify E sched c t y) = Ret True \<longleftrightarrow>
     srv_alive y \<and>
     (\<exists>k<100. server_runs sched k \<and> (\<forall>j<k. \<not> server_runs sched j \<and> wait_ends sched j = Cv_timeout) \<and>
        (wait_ends sched k = Cv_no_timeout \<or> k < 99)) \<and>
     fst (handle_msg E (ready_at sched) (order_of sched) \<lparr>msg_type = t, payload = take 1023 c\<rparr> ((srv y)\<lparr>world := world y\<rparr>)) =
       Ret kCivMsgRespondSuccess"
    (is "_ \<longleftrightarrow> _ \<and> ?in_time \<and> ?success")
proof -
  have time: "?in_time \<longleftrightarrow> (\<exists>k. passes sched k \<and> (wait_ends sched k = Cv_timeout \<longrightarrow> Suc k < kMaxRetryCount))"
    by (auto simp: passes_def quiet_def kMaxRetryCount_def) (metis cv_status.exhaust)+
  have once: "passes sched k \<Longrightarrow> passes sched j \<Longrightarrow> j = k" for j k
    by (auto simp: passes_def quiet_def) (metis linorder_neqE_nat)
  have m: "msg_of c t = \<lparr>msg_type = t, payload = take 1023 c\<rparr>" by (simp add: MaxPayloadSize_def)
  from assms show ?thesis
  proof (cases rule: Notify_cases [where E = E and c = c])
    case (unanswered z)
    then show ?thesis unfolding time m by auto
  next
    case stuck
    then show ?thesis unfolding m by auto
  next
    case (answered k r u z)
    then show ?thesis unfolding time m using once by auto
  qed
qed

theorem Notify_true_iff_witness:
  "\<exists>(y :: (ref_world, ref_tree) system) sched. fst (Notify ref_env sched ''CivClientShm7'' kCiVMsgStopServer y) = Ret True"
proof -
  let ?y = "\<lparr>world = demo_host, civ_config_path = None, srv = server_init demo_start,
     chan = \<lparr>msg_in = False, msg_data = None\<rparr>, chan_named = True, sync_made = True, srv_starting = False, srv_alive = True\<rparr>"
  let ?sched = "\<lparr>ready_at = (\<lambda>_. False), order_of = Thread_first, early = False, server_runs = (\<lambda>k. k = 7), wait_ends = (\<lambda>_. Cv_timeout)\<rparr>"
  have "fst (handle_msg ref_env (\<lambda>_. False) Thread_first \<lparr>msg_type = kCiVMsgStopServer, payload = take 1023 ''CivClientShm7''\<rparr>
      ((server_init demo_start)\<lparr>world := demo_host\<rparr>)) = Ret kCivMsgRespondSuccess"
    by (simp add: handle_msg_def run_simps)
  then have "fst (Notify ref_env ?sched ''CivClientShm7'' kCiVMsgStopServer ?y) = Ret True"
    by (subst Notify_true_iff) (simp_all add: exI [of _ 7])
  then show ?thesis by blast
qed

end
