(* ===== verification/Registry.thy ===== *)
theory Registry
  imports Server_Reach
begin

text \<open>
  What the server promises its clients, as a table from names to states, and the proof that every step of the server is a
  step of the table.
\<close>

section \<open>The abstract server\<close>

type_synonym registry = "string \<rightharpoonup> VmState"

text \<open>
  Between two messages a guest is \<open>kVmCreated\<close> or \<open>kVmRunning\<close>.  An import makes or remakes a guest that has not been
  started, and may lose it when it fails; a start makes a guest that runs, and may answer that it failed although the guest runs
  (\<open>start_late\<close>: the state was read too early); a guest that runs disappears when its emulator exits; nothing
  else changes the table.
\<close>

inductive reg_step :: "registry \<Rightarrow> server_event \<Rightarrow> registry \<Rightarrow> bool" where
  imported: "T n = None \<or> T n = Some kVmCreated \<Longrightarrow>
    reg_step T (Answered kCivMsgImportVm kCivMsgRespondSuccess) (T(n \<mapsto> kVmCreated))"
| import_refused: "reg_step T (Answered kCivMsgImportVm kCivMsgRespondFail) T"
| import_lost: "T n = Some kVmCreated \<Longrightarrow> reg_step T (Answered kCivMsgImportVm kCivMsgRespondFail) (T(n := None))"
| started: "T n = None \<Longrightarrow> reg_step T (Answered kCivMsgStartVm kCivMsgRespondSuccess) (T(n \<mapsto> kVmRunning))"
| start_refused: "reg_step T (Answered kCivMsgStartVm kCivMsgRespondFail) T"
| start_late: "T n = None \<Longrightarrow> reg_step T (Answered kCivMsgStartVm kCivMsgRespondFail) (T(n \<mapsto> kVmRunning))"
| other: "ty \<noteq> kCivMsgImportVm \<Longrightarrow> ty \<noteq> kCivMsgStartVm \<Longrightarrow> reg_step T (Answered ty r) T"
| exited: "T n = Some kVmRunning \<Longrightarrow> reg_step T Exited (T(n := None))"
| reported: "reg_step T Reported T"

section \<open>The table of a server\<close>

definition registry :: "('w, 't) server_state \<Rightarrow> registry" where
  "registry s = map_of (map (\<lambda>(a, b). (VmBuilder_GetName b, VmBuilder_GetState b)) (vmis s))"

lemma map_eqI: "(\<And>n x. f n = Some x \<longleftrightarrow> g n = Some x) \<Longrightarrow> f = g"
  by (rule ext) (metis option.exhaust)

lemma registry_Some:
  assumes "server_inv s"
  shows "registry s n = Some st \<longleftrightarrow> (\<exists>a b. (a, b) \<in> set (vmis s) \<and> vm_name b = n \<and> vm_state b = st)"
proof -
  let ?m = "map (\<lambda>(a, b). (VmBuilder_GetName b, VmBuilder_GetState b)) (vmis s)"
  have "map fst ?m = map (vm_name \<circ> snd) (vmis s)" by (auto simp: VmBuilder_GetName_def)
  with server_invD(2) [OF assms] have "distinct (map fst ?m)" by (simp only:)
  from map_of_eq_Some_iff [OF this] show ?thesis
    unfolding registry_def by (force simp: VmBuilder_GetName_def VmBuilder_GetState_def)
qed

lemma registry_None: "registry s n = None \<longleftrightarrow> no_guest n s"
  by (force simp: registry_def map_of_eq_None_iff no_guest_def VmBuilder_GetName_def)

lemma registry_same: "vmis t = vmis s \<Longrightarrow> registry t = registry s"
  by (simp add: registry_def)

lemma same_name:
  assumes "server_inv s" and "(a, b) \<in> set (vmis s)" and "(c, d) \<in> set (vmis s)" and "vm_name b = vm_name d"
  shows "a = c \<and> b = d"
proof -
  have "inj_on (vm_name \<circ> snd) (set (vmis s))" using server_invD(2) [OF assms(1)] by (simp add: distinct_map)
  from inj_onD [OF this _ assms(2,3)] assms(4) show ?thesis by simp
qed

lemma same_addr: "server_inv s \<Longrightarrow> (a, b) \<in> set (vmis s) \<Longrightarrow> (a, d) \<in> set (vmis s) \<Longrightarrow> b = d"
  by (auto dest: server_invD(1) eq_key_imp_eq_value)

lemma guest_mem: "server_inv s \<Longrightarrow> guest a P s \<longleftrightarrow> (\<exists>b. (a, b) \<in> set (vmis s) \<and> P b)"
  by (auto simp: guest_def server_invD(1))

lemma registry_guest: "server_inv s \<Longrightarrow> guest a (\<lambda>b. vm_name b = n \<and> vm_state b = st) s \<Longrightarrow> registry s n = Some st"
  by (auto simp: registry_Some guest_mem)

lemma registry_build:
  assumes "server_inv s" and "no_guest n s" and "build_vm E n c s = (Ret (Some a), t)"
  shows "registry t = (registry s)(n \<mapsto> kVmCreated)"
proof -
  obtain b where "vm_name b = n" "created b" "vmis t = vmis s @ [(a, b)]" using build_vm_Ret [OF assms(3)] by auto
  moreover have "registry s n = None" using assms(2) by (simp add: registry_None)
  ultimately show ?thesis
    by (auto simp: registry_def created_def VmBuilder_GetName_def VmBuilder_GetState_def map_add_def
        intro!: ext split: option.splits)
qed

lemma registry_delete:
  assumes inv: "server_inv s" and t: "server_inv t" and run: "DeleteVmInstance E n s = (Ret (), t)"
  shows "registry t = (registry s)(n := None)" and "set (vmis t) = {(a, b) \<in> set (vmis s). vm_name b \<noteq> n}"
proof -
  show mem: "set (vmis t) = {(a, b) \<in> set (vmis s). vm_name b \<noteq> n}"
  proof (cases "FindVmInstance n (map snd (vmis s))")
    case None
    with DeleteVmInstance_Ret [OF run] show ?thesis by (force simp: FindVmInstance_None)
  next
    case (Some i)
    with DeleteVmInstance_Ret [OF run] have vs: "vmis t = erase_at i (vmis s)" and i: "i < length (vmis s)" "vm_name (snd (vmis s ! i)) = n"
      by (simp_all add: globals_only_def)
    have "distinct (vmis s)" using inv by (auto simp: server_inv_def distinct_map)
    moreover have "x = vmis s ! i" if "x \<in> set (vmis s)" "vm_name (snd x) = n" for x
      using same_name [OF inv, of "fst x" "snd x" "fst (vmis s ! i)" "snd (vmis s ! i)"] that i by (auto intro: prod_eqI)
    ultimately show ?thesis using i by (auto simp: vs set_erase_at) (metis snd_conv)
  qed
  show "registry t = (registry s)(n := None)"
    by (rule map_eqI) (auto simp: registry_Some inv t mem)
qed

lemma registry_call:
  assumes inv: "server_inv s" and run: "vb_call a m s = (Ret x, t)" and m: "within obj_kept m"
  obtains b b' where "(a, b) \<in> set (vmis s)" and "(a, b') \<in> set (vmis t)"
    and "registry t = (registry s)(vm_name b \<mapsto> vm_state b')"
    and "\<forall>c d. c \<noteq> a \<longrightarrow> ((c, d) \<in> set (vmis t)) = ((c, d) \<in> set (vmis s))"
proof -
  obtain b b' u v where b: "map_of (vmis s) a = Some b" and uv: "m u = (Ret x, v)" "this u = b" "this v = b'"
    and vs: "vmis t = std_map_set a b' (vmis s)"
    using run by (rule vb_callE)
  have kept: "vm_name b' = vm_name b" using withinD [OF m uv(1)] uv by (auto simp: obj_kept_def)
  have t: "server_inv t" by (rule vb_call_inv(1) [OF run m inv])
  have ab: "(a, b) \<in> set (vmis s)" using b by (rule map_of_SomeD)
  then have "a \<in> fst ` set (vmis s)" by force
  then have mem: "(y, c) \<in> set (vmis t) \<longleftrightarrow> (if y = a then c = b' else (y, c) \<in> set (vmis s))" for y c
    unfolding vs in_std_map_set by simp
  have "registry t n = Some st \<longleftrightarrow> ((registry s)(vm_name b \<mapsto> vm_state b')) n = Some st" for n st
  proof (cases "n = vm_name b")
    case True
    have "registry t n = Some (vm_state b')" using kept True by (auto simp: registry_Some [OF t] mem)
    with True show ?thesis by auto
  next
    case False
    then have "(y, c) \<in> set (vmis t) \<and> vm_name c = n \<longleftrightarrow> (y, c) \<in> set (vmis s) \<and> vm_name c = n" for y c
      using kept same_addr [OF inv ab] by (auto simp: mem)
    with False show ?thesis unfolding registry_Some [OF t] by (simp add: registry_Some [OF inv]) blast
  qed
  then have "registry t = (registry s)(vm_name b \<mapsto> vm_state b')" by (rule map_eqI)
  with ab mem show thesis by (intro that [of b b']) simp_all
qed

section \<open>Between the messages\<close>

text \<open>
  \<open>settled A s\<close>: every guest but those at the addresses \<open>A\<close> is \<open>kVmCreated\<close>, or \<open>kVmRunning\<close> with a thread that
  waits for its emulator.  \<open>tracks T s\<close>: the server is between two messages and its table is \<open>T\<close>.
  \<open>starting a n P T s\<close>: it is starting the guest at \<open>a\<close>, named \<open>n\<close>, of which \<open>P\<close> holds, and the others are as in \<open>T\<close>.
\<close>

definition settled :: "nat set \<Rightarrow> ('w, 't) server_state \<Rightarrow> bool" where
  "settled A s \<longleftrightarrow> (\<forall>(a, b) \<in> set (vmis s). a \<notin> A \<longrightarrow>
     vm_state b = (if a \<in> set (vm_threads s) then kVmRunning else kVmCreated))"

definition tracks :: "registry \<Rightarrow> ('w, 't) server_state \<Rightarrow> bool" where
  "tracks T s \<longleftrightarrow> server_inv s \<and> settled {} s \<and> registry s = T"

definition starting :: "nat \<Rightarrow> string \<Rightarrow> ('t builder \<Rightarrow> bool) \<Rightarrow> registry \<Rightarrow> ('w, 't) server_state \<Rightarrow> bool" where
  "starting a n P T s \<longleftrightarrow> server_inv s \<and> settled {a} s \<and> a \<notin> set (vm_threads s) \<and>
     (registry s)(n := None) = T \<and> guest a (\<lambda>b. vm_name b = n \<and> P b) s"

definition running :: "'t builder \<Rightarrow> bool" where
  "running b \<longleftrightarrow> vm_state b = kVmRunning"

lemma tracks_world [simp]: "tracks T (s\<lparr>world := w\<rparr>) = tracks T s"
  by (simp add: tracks_def settled_def registry_def)

lemma starting_world [simp]: "starting a n P T (s\<lparr>world := w\<rparr>) = starting a n P T s"
  by (simp add: starting_def settled_def registry_def guest_def)

lemma tracks_host:
  fixes m :: "('w, 't, 'a) server_op"
  shows "within only_world m \<Longrightarrow> hoare (tracks T) m (\<lambda>_. tracks T)"
  by (erule triple_within) (auto simp: only_world_def)

lemmas tracks_shm = tracks_host [OF only_world_shm(1)] tracks_host [OF only_world_shm(2)] tracks_host [OF only_world_shm(3)]
  tracks_host [OF only_world_ReadConfigFile] tracks_host [OF only_world_oscall] tracks_host [OF only_world_Shutdown]

lemma starting_host:
  fixes m :: "('w, 't, 'a) server_op"
  shows "within only_world m \<Longrightarrow> hoare (starting a n P T) m (\<lambda>_. starting a n P T)"
  by (erule triple_within) (auto simp: only_world_def)

lemma starting_call:
  assumes m: "within obj_kept m" and Q: "\<And>u x v. m u = (Ret x, v) \<Longrightarrow> P (this u) \<Longrightarrow> Q (this v)"
  shows "hoare (starting a n P T) (vb_call a m) (\<lambda>_. starting a n Q T)"
proof (rule tripleI)
  fix s x t assume s: "starting a n P T s" and run: "vb_call a m s = (Ret x, t)"
  then have inv: "server_inv s" by (simp add: starting_def)
  note t = vb_call_inv [OF run m inv]
  obtain b b' where b: "(a, b) \<in> set (vmis s)" "(a, b') \<in> set (vmis t)" and reg: "registry t = (registry s)(vm_name b \<mapsto> vm_state b')"
    and rest: "\<forall>c d. c \<noteq> a \<longrightarrow> ((c, d) \<in> set (vmis t)) = ((c, d) \<in> set (vmis s))"
    using inv run m by (rule registry_call)
  have "guest a (\<lambda>b. vm_name b = n \<and> Q b) t"
  proof (rule vb_call_guest [OF run, of "\<lambda>b. vm_name b = n \<and> P b"])
    show "guest a (\<lambda>b. vm_name b = n \<and> P b) s" using s by (simp add: starting_def)
    show "vm_name (this v) = n \<and> Q (this v)" if "m u = (Ret x, v)" "vm_name (this u) = n \<and> P (this u)" for u v
      using withinD [OF m that(1)] Q [OF that(1)] that(2) by (simp add: obj_kept_def)
  qed
  moreover have "vm_name b = n" using s same_addr [OF inv b(1)] by (auto simp: starting_def guest_mem)
  moreover have "settled {a} t" using s rest unfolding starting_def settled_def t(2) by auto
  ultimately show "starting a n Q T t" using s t reg by (auto simp: starting_def)
qed

lemma starting_get: "hoare (starting a n P T) (vb_call a (get_this f)) (\<lambda>x. starting a n (\<lambda>b. P b \<and> x = f b) T)"
proof (rule tripleI)
  fix s x t assume s: "starting a n P T s" and run: "vb_call a (get_this f) s = (Ret x, t)"
  with vb_call_get [OF run] have "t = s" "guest a (\<lambda>b. x = f b) s" by (auto simp: starting_def server_invD(1))
  with s show "starting a n (\<lambda>b. P b \<and> x = f b) T t" by (auto simp: starting_def guest_def)
qed

lemma starting_waits: "hoare (starting a n running T) (thread_waits a) (\<lambda>_ s. tracks (T(n \<mapsto> kVmRunning)) s \<and> guest a (\<lambda>b. vm_name b = n) s)"
  unfolding thread_waits_def
proof (rule triple_modify)
  fix s assume s: "starting a n running T s"
  then have inv: "server_inv s" and up: "guest a started s" and a: "a \<notin> set (vm_threads s)"
    by (auto simp: starting_def guest_def running_def started_def)
  obtain b where b: "(a, b) \<in> set (vmis s)" "vm_name b = n" "vm_state b = kVmRunning"
    using s by (auto simp: starting_def guest_mem running_def)
  then have "registry s n = Some kVmRunning" by (auto simp: registry_Some [OF inv])
  moreover have "(registry s)(n := None) = T" using s by (simp add: starting_def)
  ultimately have "registry s = T(n \<mapsto> kVmRunning)" by auto
  moreover have "settled {} (s\<lparr>vm_threads := a # vm_threads s\<rparr>)"
    unfolding settled_def
  proof (clarify, goal_cases)
    case (1 c d)
    with s b(3) same_addr [OF inv b(1)] show ?case by (cases "c = a") (auto simp: starting_def settled_def)
  qed
  moreover have "registry (s\<lparr>vm_threads := a # vm_threads s\<rparr>) = registry s" by (rule registry_same) simp
  moreover have "guest a (\<lambda>b. vm_name b = n) s" using b by (auto simp: guest_mem [OF inv])
  ultimately show "tracks (T(n \<mapsto> kVmRunning)) (s\<lparr>vm_threads := a # vm_threads s\<rparr>) \<and>
      guest a (\<lambda>b. vm_name b = n) (s\<lparr>vm_threads := a # vm_threads s\<rparr>)"
    using base.waits [OF inv up] by (simp add: tracks_def guest_def)
qed

section \<open>Deleting and exiting\<close>

definition unlisted :: "nat \<Rightarrow> ('w, 't) server_state \<Rightarrow> bool" where
  "unlisted a s \<longleftrightarrow> map_of (vmis s) a = None"

lemma unlisted_call: "hoare (\<lambda>s. P s \<and> unlisted a s) (vb_call a m) Q"
  by (rule tripleI) (auto simp: unlisted_def vb_call_def)

lemma delete_settled:
  assumes inv: "server_inv s" and g: "guest a (\<lambda>b. vm_name b = n) s" and th: "a \<notin> set (vm_threads s)" and set: "settled {a} s"
    and run: "DeleteVmInstance E n s = (Ret (), t)"
  shows "tracks ((registry s)(n := None)) t" and "unlisted a t"
proof -
  have t: "server_inv t" by (rule DeleteVmInstance_inv [OF run inv]) (use find_named [OF inv g] th in simp)
  have mem: "set (vmis t) = {(c, d) \<in> set (vmis s). vm_name d \<noteq> n}" by (rule registry_delete(2) [OF inv t run])
  have ths: "vm_threads t = vm_threads s"
    using DeleteVmInstance_Ret [OF run] by (auto simp: globals_only_def split: option.splits)
  have "c \<noteq> a" if "(c, d) \<in> set (vmis t)" for c d
    using g that same_addr [OF inv, of a d] by (auto simp: mem guest_mem [OF inv])
  then show "unlisted a t" "tracks ((registry s)(n := None)) t"
    using set t registry_delete(1) [OF inv t run] unfolding unlisted_def tracks_def settled_def ths map_of_eq_None_iff
    by (force simp: mem)+
qed

lemma starting_delete: "hoare (starting a n P T) (DeleteVmInstance E n) (\<lambda>_ s. tracks T s \<and> unlisted a s)"
proof (rule tripleI)
  fix s t and x :: unit
  assume s: "starting a n P T s" and run: "DeleteVmInstance E n s = (Ret x, t)"
  then have "guest a (\<lambda>b. vm_name b = n) s" by (auto simp: starting_def guest_def)
  from delete_settled [OF _ this] s run show "tracks T t \<and> unlisted a t" by (simp add: starting_def)
qed

text \<open>The emulator of a guest that runs exits.\<close>

lemma exit_tracks:
  assumes "T n = Some kVmRunning"
  shows "hoare (\<lambda>s. tracks T s \<and> guest a (\<lambda>b. vm_name b = n) s) (VmThread_exit E a) (\<lambda>_ s. tracks (T(n := None)) s \<and> unlisted a s)"
proof -
  let ?P = "\<lambda>s. tracks T s \<and> guest a (\<lambda>b. vm_name b = n) s"
  let ?Q = "starting a n (\<lambda>_. True) (T(n := None))"
  have w: "hoare ?P (vb_call a (WaitVmExit E)) (\<lambda>_. ?P)"
  proof (rule tripleI)
    fix s t and x :: unit
    assume s: "?P s" and run: "vb_call a (WaitVmExit E) s = (Ret x, t)"
    then obtain w where "t = s\<lparr>world := w\<rparr>"
      using vb_call_host [OF run only_world_WaitVmExit] by (auto simp: tracks_def server_invD(1))
    with s show "?P t" by (simp add: guest_def)
  qed
  have q: "hoare ?P (cmodify (\<lambda>s. s\<lparr>vm_threads := removeAll a (vm_threads s)\<rparr>)) (\<lambda>_. ?Q)"
    by (rule triple_modify)
      (auto simp: tracks_def starting_def settled_def registry_def guest_def intro: base.quits)
  have d: "hoare (starting a n (\<lambda>b. True \<and> name = VmBuilder_GetName b) (T(n := None))) (DeleteVmInstance E name)
      (\<lambda>_ s. tracks (T(n := None)) s \<and> unlisted a s)" for name
  proof (cases "name = n")
    case True
    show ?thesis unfolding True by (rule starting_delete)
  next
    case False
    then show ?thesis by (auto simp: starting_def guest_def VmBuilder_GetName_def intro!: tripleI)
  qed
  show ?thesis
    unfolding VmThread_exit_def
    by (rule triple_ctry_crash, rule triple_cseq [OF w triple_cseq [OF q triple_cbind [OF starting_get d]]])
qed

section \<open>Starting\<close>

lemma start_boots: "hoare (starting a n created T) (vb_call a (StartVm E)) (\<lambda>_. starting a n started T)"
  by (rule starting_call [OF obj_kept.life_StartVm])
    (auto simp: StartVm_def ret_iffs started_def created_def split: option.splits if_splits)

lemma start_ready: "hoare (starting a n started T) (vb_call a SetVmReady) (\<lambda>_. starting a n running T)"
  by (rule starting_call [OF obj_kept.life_SetVmReady]) (auto simp: SetVmReady_def ret_iffs running_def)

lemma start_env: "hoare (starting a n created T) (vb_call a (SetProcessEnv e)) (\<lambda>_. starting a n created T)"
  by (rule starting_call [OF obj_kept.life_SetProcessEnv])
    (auto simp: SetProcessEnv_def ret_iffs created_def split: option.splits)

lemma start_pending:
  "hoare (starting a n started T) (cmodify (\<lambda>s. s\<lparr>listener := AddPendingVM cid (Some a) (listener s)\<rparr>))
     (\<lambda>_. starting a n started T)"
proof (rule triple_modify)
  fix s assume s: "starting a n started T s"
  then have "server_inv s" "guest a started s" by (auto simp: starting_def guest_def)
  from base.pending [OF this] s show "starting a n started T (s\<lparr>listener := AddPendingVM cid (Some a) (listener s)\<rparr>)"
    by (simp add: starting_def settled_def registry_def guest_def)
qed

lemma start_wait:
  "hoare (starting a n started T) (vb_call a (WaitVmReady E ready))
     (\<lambda>ok. starting a n (if ok then running else started) T)"
proof (rule tripleI)
  fix s ok t
  assume s: "starting a n started T s" and run: "vb_call a (WaitVmReady E ready) s = (Ret ok, t)"
  then have "distinct (map fst (vmis s))" by (simp add: starting_def server_invD(1))
  from vb_call_WaitVmReady [OF run this] show "starting a n (if ok then running else started) T t"
  proof (elim disjE exE conjE)
    fix w assume "t = s\<lparr>world := w\<rparr>" and "ok \<longrightarrow> guest a (\<lambda>b. vm_state b = kVmRunning) s"
    with s show ?thesis by (auto simp: starting_def guest_def running_def settled_def registry_def)
  next
    fix w u assume ok and "vb_call a SetVmReady s = (Ret (), u)" and "t = u\<lparr>world := w\<rparr>"
    with tripleE [OF start_ready s] show ?thesis by simp
  qed
qed

text \<open>After a failed wait the guest is deleted, and the read of its state does not return.\<close>

lemma start_failed:
  "hoare (starting a n started T) (cbind (vb_call a (get_this VmBuilder_GetName)) (\<lambda>name.
     cseq (DeleteVmInstance E name) (vb_call a (get_this VmBuilder_GetState)))) Q"
proof (rule triple_cbind [OF starting_get])
  fix name
  show "hoare (starting a n (\<lambda>b. started b \<and> name = VmBuilder_GetName b) T)
      (cseq (DeleteVmInstance E name) (vb_call a (get_this VmBuilder_GetState))) Q"
  proof (cases "name = n")
    case True
    show ?thesis unfolding True by (rule triple_cseq [OF starting_delete unlisted_call])
  qed (auto simp: starting_def guest_def VmBuilder_GetName_def intro!: tripleI)
qed

lemma VmThread_tracks: "hoare (starting a n created T) (VmThread E ready order a latch) (\<lambda>_. tracks (T(n \<mapsto> kVmRunning)))"
proof -
  let ?read = "vb_call a (get_this VmBuilder_GetState)" and ?T = "T(n \<mapsto> kVmRunning)" and ?up = "starting a n started T"
  let ?on = "\<lambda>s. tracks ?T s \<and> guest a (\<lambda>b. vm_name b = n) s"
  have read: "hoare ?on ?read (\<lambda>_. tracks ?T)"
    by (rule tripleI, drule vb_call_get) (auto simp: tracks_def server_invD(1))
  have exit: "hoare ?on (cseq (VmThread_exit E a) ?read) (\<lambda>_. tracks ?T)"
    by (rule triple_cseq [OF exit_tracks unlisted_call]) simp
  have first: "hoare ?up ?read (\<lambda>_. ?up)"
    by (rule triple_conseq [OF starting_get [where P = started]]) (auto simp: starting_def guest_def)
  have one: "hoare ?up (case order of
        Reader_first \<Rightarrow> cbind ?read (\<lambda>st. cseq (vb_call a SetVmReady) (cseq (thread_waits a) (cret st)))
      | Thread_first \<Rightarrow> cseq (vb_call a SetVmReady) (cseq (thread_waits a) ?read)
      | Exit_first \<Rightarrow> cseq (vb_call a SetVmReady) (cseq (thread_waits a) (cseq (VmThread_exit E a) ?read))) (\<lambda>_. tracks ?T)"
    by (cases order)
      (simp_all add: triple_cbind [OF first triple_cseq [OF start_ready triple_cseq [OF starting_waits triple_cret]]]
        triple_cseq [OF start_ready triple_cseq [OF starting_waits read]]
        triple_cseq [OF start_ready triple_cseq [OF starting_waits exit]])
  have ok: "hoare (starting a n running T) (cseq (thread_waits a) (cseq (cwhen b (VmThread_exit E a)) ?read)) (\<lambda>_. tracks ?T)" for b
    by (cases b) (simp_all add: cwhen_def triple_cseq [OF starting_waits exit] triple_cseq [OF starting_waits triple_cseq [OF triple_cret read]])
  have two: "hoare ?up
      (cbind (vb_call a (get_this VmBuilder_GetCid)) (\<lambda>cid.
       cseq (cmodify (\<lambda>s. s\<lparr>listener := AddPendingVM cid (Some a) (listener s)\<rparr>))
      (cbind (vb_call a (WaitVmReady E ready)) (\<lambda>ok.
       if ok then cseq (thread_waits a) (cseq (cwhen (order = Exit_first) (VmThread_exit E a)) ?read)
       else cbind (vb_call a (get_this VmBuilder_GetName)) (\<lambda>name. cseq (DeleteVmInstance E name) ?read))))) (\<lambda>_. tracks ?T)"
  proof (rule triple_cbind [OF _ triple_cseq [OF start_pending triple_cbind [OF start_wait]]])
    show "hoare ?up (vb_call a (get_this VmBuilder_GetCid)) (\<lambda>_. ?up)"
      by (rule triple_conseq [OF starting_get [where P = started]]) (auto simp: starting_def guest_def)
    show "hoare (starting a n (if up then running else started) T)
        (if up then cseq (thread_waits a) (cseq (cwhen (order = Exit_first) (VmThread_exit E a)) ?read)
         else cbind (vb_call a (get_this VmBuilder_GetName)) (\<lambda>name. cseq (DeleteVmInstance E name) ?read)) (\<lambda>_. tracks ?T)" for up
      using ok start_failed by (cases up) simp_all
  qed
  show ?thesis
    unfolding VmThread_def Let_def by (rule triple_ctry_crash, rule triple_cseq [OF start_boots], rule triple_if [OF one two])
qed

text \<open>When the emulator exits before the waiting thread reads the state, the read does not return.\<close>

lemma Exit_first_never_returns: "hoare (starting a n created T) (VmThread E ready Exit_first a 1) (\<lambda>_ _. False)"
proof -
  have "hoare (\<lambda>s. tracks (T(n \<mapsto> kVmRunning)) s \<and> guest a (\<lambda>b. vm_name b = n) s)
      (cseq (VmThread_exit E a) (vb_call a (get_this VmBuilder_GetState))) (\<lambda>_ _. False)"
    by (rule triple_cseq [OF exit_tracks unlisted_call]) simp
  from triple_ctry_crash [OF triple_cseq [OF start_boots triple_cseq [OF start_ready triple_cseq [OF starting_waits this]]]]
  show ?thesis by (simp add: VmThread_def Let_def)
qed

section \<open>The handlers\<close>

lemma build_tracks:
  "hoare (\<lambda>s. tracks T s \<and> no_guest n s) (build_vm E n c)
     (\<lambda>r s. case r of None \<Rightarrow> tracks T s | Some a \<Rightarrow> tracks (T(n \<mapsto> kVmCreated)) s \<and> starting a n created T s)"
proof (rule tripleI)
  fix s r t assume s: "tracks T s \<and> no_guest n s" and run: "build_vm E n c s = (Ret r, t)"
  then have inv: "server_inv s" and new: "no_guest n s" and T: "T n = None" by (auto simp: tracks_def registry_None)
  have t: "server_inv t" by (rule build_vm_inv(1) [OF inv new run])
  show "case r of None \<Rightarrow> tracks T t | Some a \<Rightarrow> tracks (T(n \<mapsto> kVmCreated)) t \<and> starting a n created T t"
  proof (cases r)
    case None
    with build_vm_Ret [OF run] s t show ?thesis by (simp add: globals_only_def tracks_def settled_def registry_def)
  next
    case (Some a)
    then obtain b where b: "vm_name b = n" "created b" "vmis t = vmis s @ [(a, b)]" "vm_threads t = vm_threads s"
      using build_vm_Ret [OF run] by (auto simp: globals_only_def)
    have a: "a \<notin> set (vm_threads t)" by (rule build_vm_inv(2) [OF inv new run Some, THEN conjunct1])
    have reg: "registry t = T(n \<mapsto> kVmCreated)" using registry_build [OF inv new] run s Some by (simp add: tracks_def)
    have "settled {} t" using s a b by (auto simp: tracks_def settled_def created_def)
    moreover from this have "settled {a} t" by (auto simp: settled_def)
    moreover have "guest a (\<lambda>b. vm_name b = n \<and> created b) t" using b by (auto simp: guest_mem [OF t])
    ultimately show ?thesis using Some a t reg T by (auto simp: tracks_def starting_def)
  qed
qed

lemma StartVm_tracks:
  "hoare (tracks T) (Server_StartVm E ready order seg)
     (\<lambda>rc s. tracks T s \<and> rc \<noteq> 0 \<or> (\<exists>n. T n = None \<and> tracks (T(n \<mapsto> kVmRunning)) s))" (is "hoare _ _ ?Q")
proof -
  have run: "hoare (\<lambda>s. case vb of None \<Rightarrow> tracks T s | Some a \<Rightarrow> tracks (T(n \<mapsto> kVmCreated)) s \<and> starting a n created T s)
     (case vb of None \<Rightarrow> cret (- 1) | Some a \<Rightarrow>
      cbind (oscall (shm_find E seg ''StartVmEnv'')) (\<lambda>vm_env.
      cseq (vb_call a (SetProcessEnv (case vm_env of None \<Rightarrow> [] | Some strs \<Rightarrow> strs)))
     (cbind (VmThread E ready order a latch) (\<lambda>st. cret (if st = kVmRunning then 0 else - 1))))) ?Q" for vb latch n
  proof (cases vb)
    case (Some a)
    have fresh: "starting a n created T s \<Longrightarrow> T n = None" for s by (auto simp: starting_def)
    show ?thesis
    proof (cases "T n")
      case None
      show ?thesis
        unfolding Some option.case
        by (rule triple_conseq [OF triple_cbind [OF starting_host [OF only_world_oscall, of a n created T]
              triple_cseq [OF start_env triple_cbind [OF VmThread_tracks triple_cret]]]]) (use None in auto)
    qed (use Some fresh in \<open>auto intro!: tripleI\<close>)
  qed (auto intro: triple_cret)
  have made: "hoare (\<lambda>s. tracks T s \<and> (i = None \<longrightarrow> no_guest n s) \<and> i = FindVmInstance n (map snd (vmis s)))
      (if i \<noteq> None then cret (- 1) else cbind (build_by_type E n c) f) ?Q"
    if "\<And>vb. hoare (\<lambda>s. case vb of None \<Rightarrow> tracks T s
        | Some a \<Rightarrow> tracks (T(n \<mapsto> kVmCreated)) s \<and> starting a n created T s) (f vb) ?Q" for i n c f
  proof (cases i)
    case None
    show ?thesis
      unfolding None build_by_type_def by simp (rule triple_conseq [OF triple_cbind [OF build_tracks that]], auto)
  qed (auto intro: triple_cret)
  show ?thesis
    unfolding Server_StartVm_def
    by (rule triple_cseq [OF tracks_shm(1)], rule triple_cbind [OF tracks_shm(2)], rule hoare_guard, simp, rule triple_cbind [OF tracks_shm(4)],
        rule triple_case_prod, rule hoare_guard, simp, rule triple_cbind [OF tracks_shm(3)], rule hoare_guard, simp,
        rule triple_cbind [OF find_none made [OF run]])
qed

text \<open>A guest that is overwritten has not been started, so no thread waits for it.\<close>

lemma overwrite_tracks:
  "hoare (\<lambda>s. tracks T s \<and> (i = None \<longrightarrow> no_guest n s) \<and> i = FindVmInstance n (map snd (vmis s)))
     (case i of
        None \<Rightarrow> cret True
      | Some i \<Rightarrow>
          cbind (cget (\<lambda>s. VmBuilder_GetState (snd (vmis s ! i)))) (\<lambda>st.
          if st \<noteq> kVmCreated \<and> st \<noteq> kVmEmpty then cret False
          else cseq (DeleteVmInstance E n) (cret True)))
     (\<lambda>go s. if go then tracks (T(n := None)) s \<and> no_guest n s \<and> (T n = None \<or> T n = Some kVmCreated) else tracks T s)"
proof (cases i)
  case None
  show ?thesis unfolding None option.case by (rule triple_cret) (auto simp: tracks_def registry_None fun_upd_idem)
next
  case (Some k)
  let ?P = "\<lambda>s. tracks T s \<and> Some k = FindVmInstance n (map snd (vmis s))"
  have del: "hoare (\<lambda>s. ?P s \<and> \<not> started (snd (vmis s ! k))) (DeleteVmInstance E n)
      (\<lambda>_ s. tracks (T(n := None)) s \<and> no_guest n s \<and> T n = Some kVmCreated)"
  proof (rule tripleI)
    fix s t and x :: unit
    assume s: "?P s \<and> \<not> started (snd (vmis s ! k))" and run: "DeleteVmInstance E n s = (Ret x, t)"
    obtain a b where ab: "vmis s ! k = (a, b)" by (cases "vmis s ! k")
    from s have inv: "server_inv s" and st: "settled {} s" by (auto simp: tracks_def)
    have k: "(a, b) \<in> set (vmis s)" "vm_name b = n"
      using FindVmInstance_Some [of n "map snd (vmis s)" k] s ab by (auto simp: in_set_conv_nth intro: exI [of _ k])
    have b: "vm_state b = kVmCreated" "a \<notin> set (vm_threads s)"
      using st k(1) s ab by (auto simp: settled_def started_def split: if_splits)
    have "settled {a} s" "guest a (\<lambda>b. vm_name b = n) s" using st k by (auto simp: settled_def guest_mem [OF inv])
    from delete_settled(1) [OF inv this(2) b(2) this(1)] run have "tracks ((registry s)(n := None)) t" by simp
    moreover have "registry s n = Some kVmCreated" unfolding registry_Some [OF inv] using k b by blast
    ultimately show "tracks (T(n := None)) t \<and> no_guest n t \<and> T n = Some kVmCreated"
      using s by (auto simp: tracks_def registry_None [symmetric])
  qed
  have go: "hoare (\<lambda>s. ?P s \<and> st = VmBuilder_GetState (snd (vmis s ! k)))
      (if st \<noteq> kVmCreated \<and> st \<noteq> kVmEmpty then cret False else cseq (DeleteVmInstance E n) (cret True))
      (\<lambda>go s. if go then tracks (T(n := None)) s \<and> no_guest n s \<and> (T n = None \<or> T n = Some kVmCreated) else tracks T s)" for st
    by (rule triple_if, rule triple_cret, simp, rule triple_cseq [OF triple_conseq [OF del] triple_cret])
      (auto simp: started_def VmBuilder_GetState_def)
  show ?thesis
    unfolding Some option.case by (rule triple_conseq [OF triple_cbind [OF triple_cget [where P = ?P] go]]) auto
qed

definition imported_or_not :: "registry \<Rightarrow> int \<Rightarrow> ('w, 't) server_state \<Rightarrow> bool" where
  "imported_or_not T rc s \<longleftrightarrow> rc \<noteq> 0 \<and> tracks T s \<or>
     (\<exists>n. rc = 0 \<and> (T n = None \<or> T n = Some kVmCreated) \<and> tracks (T(n \<mapsto> kVmCreated)) s \<or>
        rc \<noteq> 0 \<and> T n = Some kVmCreated \<and> tracks (T(n := None)) s)"

lemma ImportVm_tracks: "hoare (tracks T) (ImportVm E seg) (imported_or_not T)"
proof -
  have none: "imported_or_not T (- 1) s" if "tracks T s" for s :: "('a, 'b) server_state"
    using that by (simp add: imported_or_not_def)
  have made: "hoare (\<lambda>s. if go then tracks (T(n := None)) s \<and> no_guest n s \<and> (T n = None \<or> T n = Some kVmCreated) else tracks T s)
      (if \<not> go then cret (- 1) else cbind (build_by_type E n c) (\<lambda>a. cret (if a = None then - 1 else 0))) (imported_or_not T)"
    for go n c
  proof (cases "go \<and> (T n = None \<or> T n = Some kVmCreated)")
    case True
    have "hoare (\<lambda>s. case r of None \<Rightarrow> tracks (T(n := None)) s
        | Some a \<Rightarrow> tracks ((T(n := None))(n \<mapsto> kVmCreated)) s \<and> starting a n created (T(n := None)) s)
        (cret (if r = None then - 1 else 0)) (imported_or_not T)" for r
      by (rule triple_cret) (use True in \<open>cases r; auto simp: imported_or_not_def fun_upd_idem\<close>)
    from triple_cbind [OF build_tracks this] show ?thesis
      using True by (simp add: build_by_type_def)
  qed (auto intro!: tripleI simp: none ret_iffs split: if_splits)
  show ?thesis
    unfolding ImportVm_def
    by (rule triple_cseq [OF tracks_shm(1)], rule triple_cbind [OF tracks_shm(2)], rule hoare_guard, erule none,
        rule triple_cbind [OF tracks_shm(4)], rule triple_case_prod, rule hoare_guard, erule none, rule triple_cbind [OF tracks_shm(3)],
        rule hoare_guard, erule none, rule triple_cbind [OF find_none triple_cbind [OF overwrite_tracks made]])
qed

text \<open>A call that leaves the state of the guest as it is.\<close>

lemma tracks_call:
  assumes m: "within obj_kept m" and st: "\<And>u x v. m u = (Ret x, v) \<Longrightarrow> P (this u) \<Longrightarrow> vm_state (this v) = vm_state (this u)"
  shows "hoare (\<lambda>s. tracks T s \<and> guest a P s) (vb_call a m) (\<lambda>_. tracks T)"
proof (rule tripleI)
  fix s x t assume s: "tracks T s \<and> guest a P s" and run: "vb_call a m s = (Ret x, t)"
  then have inv: "server_inv s" by (simp add: tracks_def)
  note t = vb_call_inv [OF run m inv]
  obtain b b' where b: "(a, b) \<in> set (vmis s)" "(a, b') \<in> set (vmis t)" and reg: "registry t = (registry s)(vm_name b \<mapsto> vm_state b')"
    and rest: "\<forall>c d. c \<noteq> a \<longrightarrow> ((c, d) \<in> set (vmis t)) = ((c, d) \<in> set (vmis s))"
    using inv run m by (rule registry_call)
  have "guest a (\<lambda>c. P c \<and> vm_state c = vm_state b) s" using s b(1) same_addr [OF inv b(1)] unfolding guest_mem [OF inv] by blast
  from vb_call_guest [OF run this, of "\<lambda>c. vm_state c = vm_state b"] st
  have "guest a (\<lambda>c. vm_state c = vm_state b) t" by simp
  then have same: "vm_state b' = vm_state b" using b(2) same_addr [OF t(1)] by (auto simp: guest_mem t(1))
  have "registry s (vm_name b) = Some (vm_state b)" using b(1) by (auto simp: registry_Some [OF inv])
  with reg same have "registry t = registry s" by (simp add: fun_upd_idem)
  moreover have "settled {} t"
    unfolding settled_def t(2)
  proof (clarify, goal_cases)
    case (1 c d)
    have "\<exists>d'. (c, d') \<in> set (vmis s) \<and> vm_state d' = vm_state d"
    proof (cases "c = a")
      case True
      with 1 b same same_addr [OF t(1) b(2), of d] show ?thesis by auto
    qed (use 1 rest in blast)
    with s show ?case by (auto simp: tracks_def settled_def)
  qed
  ultimately show "tracks T t" using s t(1) by (simp add: tracks_def)
qed

lemma StopVm_tracks: "hoare (tracks T) (Server_StopVm E seg) (\<lambda>_. tracks T)"
proof -
  have stop: "hoare (tracks T) (vb_call a (StopVm E)) (\<lambda>_. tracks T)" for a
  proof (rule tripleI)
    fix s t and x :: unit
    assume s: "tracks T s" and run: "vb_call a (StopVm E) s = (Ret x, t)"
    have "guest a (\<lambda>_. True) s" using run by (rule vb_callE) (simp add: guest_def)
    moreover have "vm_state (this v) = vm_state (this u)" if "StopVm E u = (Ret y, v)" for u v y
      using withinD [OF vm_kept.life_StopVm that] by (simp add: vm_kept_def)
    ultimately show "tracks T t" using s tripleE [OF tracks_call [OF obj_kept_StopVm] _ run] by blast
  qed
  show ?thesis
    unfolding Server_StopVm_def
    by (rule triple_cseq [OF tracks_shm(1) triple_cbind [OF tracks_shm(2) triple_cbind [OF find_keeps]]],
        rule opt_keeps [OF triple_cret], assumption, rule triple_cbind [OF cget_keeps], rule triple_case_prod,
        rule triple_cbind [OF tracks_shm(6) triple_cseq [OF triple_cwhen [OF stop] triple_cret]])
qed

lemma ListVm_tracks: "hoare (tracks T) (ListVm E seg) (\<lambda>_. tracks T)"
  unfolding ListVm_def
  by (rule triple_cseq [OF tracks_shm(1) triple_cseq [OF tracks_shm(5) triple_cbind [OF cget_keeps triple_cbind [OF tracks_shm(5)]]]],
      rule triple_if [OF throw_keeps triple_cret])

lemma GetVmInfo_tracks: "hoare (tracks T) (GetVmInfo E seg) (\<lambda>_. tracks T)"
  unfolding GetVmInfo_def
  by (rule triple_cseq [OF tracks_shm(1) triple_cbind [OF tracks_shm(2) triple_cbind [OF find_keeps]]],
      rule opt_keeps [OF triple_cret], assumption,
      rule triple_cseq [OF tracks_shm(5) triple_cbind [OF cget_keeps triple_cbind [OF tracks_shm(5)]]],
      rule triple_if [OF throw_keeps triple_cret])

section \<open>The simulation\<close>

definition follows :: "registry \<Rightarrow> server_event \<Rightarrow> ('w, 't) server_state \<Rightarrow> bool" where
  "follows T e s \<longleftrightarrow> (\<exists>T'. reg_step T e T' \<and> tracks T' s)"

lemma answers_follow: "hoare (tracks T) (handle_msg E ready order m) (\<lambda>r. follows T (Answered (msg_type m) r))"
proof -
  have resp: "hoare (tracks T) (respond op) (\<lambda>r. follows T (Answered ty r))"
    if "hoare (tracks T) op (\<lambda>rc. follows T (Answered ty (if rc = 0 then kCivMsgRespondSuccess else kCivMsgRespondFail)))" for op ty
    unfolding respond_def by (rule triple_cbind [OF that triple_cret])
  have idle: "hoare (tracks T) (cret x) (\<lambda>r. follows T (Answered ty r))" if "ty \<noteq> kCivMsgImportVm" "ty \<noteq> kCivMsgStartVm" for x ty
    by (rule triple_cret) (use that in \<open>auto simp: follows_def intro: reg_step.other\<close>)
  have keeps: "hoare (tracks T) (respond op) (\<lambda>r. follows T (Answered ty r))"
    if "hoare (tracks T) op (\<lambda>_. tracks T)" "ty \<noteq> kCivMsgImportVm" "ty \<noteq> kCivMsgStartVm" for op ty
    by (rule resp [OF triple_conseq [OF that(1)]]) (use that(2,3) in \<open>auto simp: follows_def intro: reg_step.other\<close>)
  have imp: "hoare (tracks T) (respond (ImportVm E seg)) (\<lambda>r. follows T (Answered kCivMsgImportVm r))" for seg
    by (rule resp [OF triple_conseq [OF ImportVm_tracks]])
      (auto simp: follows_def imported_or_not_def intro: reg_step.intros)
  have start: "hoare (tracks T) (respond (Server_StartVm E ready order seg)) (\<lambda>r. follows T (Answered kCivMsgStartVm r))" for seg
    by (rule resp [OF triple_conseq [OF StartVm_tracks]]) (auto simp: follows_def intro: reg_step.intros)
  have flag: "hoare (tracks T) (cseq (cmodify (\<lambda>s. s\<lparr>stop_server := True\<rparr>)) (cret x)) (\<lambda>r. follows T (Answered kCiVMsgStopServer r))" for x
    by (rule triple_cseq [OF triple_modify [where Q = "\<lambda>_. tracks T"] triple_cret])
      (auto simp: tracks_def settled_def registry_def follows_def intro: base.flagged reg_step.other)
  show ?thesis
    unfolding handle_msg_def
    by (cases "msg_type m")
      (simp_all add: flag imp start keeps ListVm_tracks StopVm_tracks GetVmInfo_tracks idle)
qed

lemma reports_follow: "hoare (tracks T) (Server_VmReady peer) (\<lambda>_. follows T Reported)"
proof (rule tripleI)
  fix s st t assume s: "tracks T s" and run: "Server_VmReady peer s = (Ret st, t)"
  then have inv: "server_inv s" by (simp add: tracks_def)
  obtain st' cb l where r: "VmReady peer (listener s) = (st', cb, l)" by (metis prod_cases3)
  have left: "tracks T (u\<lparr>listener := l\<rparr>)" if "tracks T u" "listener u = listener s" for u
    using that r base.called [of u peer st' cb l] by (simp add: tracks_def settled_def registry_def)
  have "tracks T t"
  proof (cases cb)
    case None
    with run r left [OF s] show ?thesis by (auto simp: Server_VmReady_def ret_iffs)
  next
    case (Some a)
    with run r obtain u where u: "vb_call a SetVmReady s = (Ret (), u)" and t: "t = u\<lparr>listener := l\<rparr>"
      by (auto simp: Server_VmReady_def ret_iffs)
    have "a \<in> called_back s"
      using r Some by (auto simp: VmReady_def called_back_def split: option.splits dest: map_of_SomeD)
    moreover obtain b where b: "map_of (vmis s) a = Some b" using u by (rule vb_callE)
    ultimately have "started b" using inv map_of_SomeD [OF b] by (auto simp: server_inv_def)
    moreover have "vm_state b = kVmRunning \<or> vm_state b = kVmCreated"
      using s map_of_SomeD [OF b] by (auto simp: tracks_def settled_def split: if_splits)
    ultimately have "guest a running s" using b by (auto simp: guest_def running_def started_def)
    with s tripleE [OF tracks_call [OF obj_kept.life_SetVmReady, where P = running] _ u] have "tracks T u"
      by (auto simp: SetVmReady_def ret_iffs running_def)
    moreover have "listener u = listener s" using u by (rule vb_callE) (simp add: globals_only_def)
    ultimately show ?thesis unfolding t by (rule left)
  qed
  then show "follows T Reported t" by (auto simp: follows_def intro: reg_step.reported)
qed

lemma exits_follow:
  assumes s: "tracks T s" and a: "a \<in> set (vm_threads s)" and run: "VmThread_exit E a s = (Ret (), t)"
  shows "follows T Exited t"
proof -
  have inv: "server_inv s" using s by (simp add: tracks_def)
  obtain b where b: "(a, b) \<in> set (vmis s)" using server_invD(3) [OF inv a] by (auto simp: guest_mem [OF inv])
  have "vm_state b = kVmRunning" using s a b by (auto simp: tracks_def settled_def)
  with s b have n: "T (vm_name b) = Some kVmRunning" using registry_Some [OF inv] by (auto simp: tracks_def)
  have "guest a (\<lambda>c. vm_name c = vm_name b) s" using b by (auto simp: guest_mem [OF inv])
  with s tripleE [OF exit_tracks [where T = T, OF n] _ run] have "tracks (T(vm_name b := None)) t" by blast
  with n show ?thesis by (auto simp: follows_def intro: reg_step.exited)
qed

lemma step_follows:
  assumes "tracks T s" and "server_step E s e t"
  shows "follows T e t"
  using assms(2)
proof cases
  case (answers ready order m r)
  with tripleE [OF answers_follow assms(1) answers(2)] show ?thesis by simp
next
  case (exits a)
  with exits_follow [OF assms(1) exits(2,3)] show ?thesis by simp
next
  case (reports peer st)
  with tripleE [OF reports_follow assms(1) reports(3)] show ?thesis by simp
qed

text \<open>The server is between two messages.\<close>

definition steady :: "('w, 't) server_state \<Rightarrow> bool" where
  "steady s \<longleftrightarrow> server_inv s \<and> settled {} s"

lemma tracks_iff: "tracks T s \<longleftrightarrow> steady s \<and> registry s = T"
  by (auto simp: tracks_def steady_def)

lemma steady_fields [simp]:
  "steady (s\<lparr>world := w\<rparr>) = steady s" "steady (s\<lparr>stop_server := b\<rparr>) = steady s" "steady (s\<lparr>listening := b\<rparr>) = steady s"
  by (simp_all add: steady_def settled_def server_inv_def called_back_def)

lemma registry_fields [simp]:
  "registry (s\<lparr>world := w\<rparr>) = registry s" "registry (s\<lparr>stop_server := b\<rparr>) = registry s" "registry (s\<lparr>listening := b\<rparr>) = registry s"
  by (simp_all add: registry_def)

lemma follows_steady: "follows T e s \<Longrightarrow> steady s"
  by (auto simp: follows_def tracks_iff)

lemma reach_tracks: "server_reach E g s \<Longrightarrow> tracks (registry s) s"
proof (induction rule: server_reach.induct)
  case (start ok s)
  then have "vmis s = []" "vm_threads s = []"
    by (auto simp: SetupStartupListenerService_def RunListenerService_def ret_iffs server_init_def)
  moreover have "server_inv s" by (rule server_reach_inv [OF server_reach.start [OF start]])
  ultimately show ?case by (simp add: tracks_def settled_def)
next
  case (step s e t)
  from step_follows [OF step.IH step.hyps(2)] show ?case by (auto simp: follows_def tracks_def)
qed

section \<open>Properties\<close>





end
