(* ===== verification/System_Reach.thy ===== *)
theory System_Reach
  imports Vm_Manager Client_Facts Registry
begin

text \<open>
  The server, its clients and its guests over time, and what the commands of the program tell about them.
\<close>

section \<open>How calls end\<close>

text \<open>A call of the protocol returns or blocks; it neither throws nor crashes.\<close>

definition no_fault :: "('s, 'a) cpp \<Rightarrow> bool" where
  "no_fault m \<longleftrightarrow> yields m (\<lambda>r. is_Ret r \<or> r = Hang)"

lemma no_fault_run: "no_fault m \<Longrightarrow> is_Ret (fst (m s)) \<or> fst (m s) = Hang"
  by (simp add: no_fault_def yields_def)

lemma no_fault_returning: "returning m \<Longrightarrow> no_fault m"
  by (simp add: no_fault_def yields_def)

lemma no_fault_cbind: "no_fault m \<Longrightarrow> (\<And>x. no_fault (f x)) \<Longrightarrow> no_fault (cbind m f)"
  unfolding no_fault_def yields_def cbind_def
  by (auto split: prod.splits outcome.splits) (metis fst_conv is_Ret_def outcome.distinct)+

lemma no_fault_cseq: "no_fault m \<Longrightarrow> no_fault n \<Longrightarrow> no_fault (cseq m n)"
  unfolding cseq_def by (rule no_fault_cbind)

lemma no_fault_cwhen: "no_fault m \<Longrightarrow> no_fault (cwhen b m)"
  by (simp add: cwhen_def no_fault_returning returning_cret)

lemma no_fault_if: "no_fault m \<Longrightarrow> no_fault n \<Longrightarrow> no_fault (if b then m else n)"
  by simp

lemma no_fault_server_iter: "no_fault (server_iter E ready order)"
  by (auto simp: no_fault_def yields_def server_iter_def split: option.splits prod.splits outcome.splits)

lemmas no_fault_intros =
  no_fault_cbind no_fault_cseq no_fault_cwhen no_fault_if no_fault_server_iter
  no_fault_returning [OF returning_cret] no_fault_returning [OF returning_cget] no_fault_returning [OF returning_cmodify]

lemma no_fault_Notify_wait: "no_fault (Notify_wait E sched left n)"
proof (induction left arbitrary: n)
  case (Suc left)
  then show ?case unfolding Notify_wait.simps by (intro no_fault_intros)
qed (simp add: no_fault_intros)

text \<open>\<open>Notify\<close> from where the message is constructed.\<close>

definition Notify_send :: "('w, 't) env \<Rightarrow> schedule \<Rightarrow> client \<Rightarrow> CivMsgType \<Rightarrow> ('w, 't, bool) system_op" where
  "Notify_send E sched c t =
     cseq (cmodify (\<lambda>y. y\<lparr>chan := (chan y)\<lparr>msg_data := Some \<lparr>msg_type = t, payload = take (MaxPayloadSize - 1) c\<rparr>\<rparr>\<rparr>))
    (cseq (cwhen (early sched) (server_iter E (ready_at sched) (order_of sched)))
    (cseq (cmodify (\<lambda>y. y\<lparr>chan := (chan y)\<lparr>msg_in := True\<rparr>\<rparr>))
    (cbind (Notify_wait E sched kMaxRetryCount 0) (\<lambda>retry_cnt.
     cbind (cget msg_state) (\<lambda>ty.
     cseq (cmodify (\<lambda>y. y\<lparr>chan := (chan y)\<lparr>msg_data := None\<rparr>\<rparr>))
     (cret (retry_cnt < kMaxRetryCount \<and> ty = Some kCivMsgRespondSuccess)))))))"

lemma Notify_sends:
  assumes "msg_data (chan y) = None"
  shows "Notify E sched c t y = (if sync_made y then Notify_send E sched c t y else (Ret False, y))"
  unfolding Notify_def Notify_send_def using assms by (simp add: run_simps)

lemma no_fault_Notify_send: "no_fault (Notify_send E sched c t)"
  unfolding Notify_send_def by (intro no_fault_intros no_fault_Notify_wait)

section \<open>The invariant\<close>

text \<open>
  Between requests no message is left in the segment; a server in its loop has its segment, and its guests are as
  theory \<open>Registry\<close> says, as they are in a server that is starting.
\<close>

definition srv_ok :: "('w, 't) system \<Rightarrow> bool" where
  "srv_ok y \<longleftrightarrow> (srv_alive y \<longrightarrow> chan_named y \<and> sync_made y \<and> steady (srv y)) \<and>
     (srv_starting y \<longrightarrow> \<not> srv_alive y \<and> chan_named y \<and> steady (srv y))"

definition system_inv :: "('w, 't) system \<Rightarrow> bool" where
  "system_inv y \<longleftrightarrow> srv_ok y \<and> msg_data (chan y) = None"

lemma srv_ok_fields [simp]:
  "srv_ok (y\<lparr>chan := ch\<rparr>) = srv_ok y" "srv_ok (y\<lparr>world := w\<rparr>) = srv_ok y" "srv_ok (y\<lparr>civ_config_path := p\<rparr>) = srv_ok y"
  by (simp_all add: srv_ok_def)

lemma srv_ok_loop_head:
  "srv_ok y \<Longrightarrow> srv_alive y \<Longrightarrow> srv_ok (loop_head y)" "srv_ok y \<Longrightarrow> srv_alive y \<Longrightarrow> srv_ok (leave_loop y)"
  by (auto simp: srv_ok_def loop_head_def leave_loop_def)

lemma srv_run_ok:
  assumes "\<And>t. m ((srv y)\<lparr>world := world y\<rparr>) = (Ret x, t) \<Longrightarrow> steady t" and "srv_ok y" "srv_alive y" and "srv_run m y = (Ret x, z)"
  shows "srv_ok z \<and> srv_alive z"
proof -
  obtain t where m: "m ((srv y)\<lparr>world := world y\<rparr>) = (Ret x, t)" and z: "z = y\<lparr>srv := t, world := world t\<rparr>"
    using assms(4) by (auto simp: srv_run_def split: prod.splits)
  with assms show ?thesis by (simp add: z srv_ok_def)
qed

lemma srv_tracks: "srv_ok y \<Longrightarrow> srv_alive y \<Longrightarrow> tracks (registry (srv y)) ((srv y)\<lparr>world := world y\<rparr>)"
  by (simp add: srv_ok_def tracks_iff)

lemma handle_msg_steady:
  "srv_ok y \<Longrightarrow> srv_alive y \<Longrightarrow> handle_msg E ready order m ((srv y)\<lparr>world := world y\<rparr>) = (Ret r, t) \<Longrightarrow> steady t"
  by (rule follows_steady, rule tripleE [OF answers_follow], rule srv_tracks)

lemma server_iter_ok:
  assumes "srv_ok y" and "server_iter E ready order y = (Ret (), z)"
  shows "srv_ok z \<and> (msg_data (chan y) = None \<longrightarrow> msg_data (chan z) = None)"
proof (cases "srv_alive y")
  case False
  with assms show ?thesis by (simp add: server_iter_dead)
next
  case alive: True
  show ?thesis
  proof (cases "msg_data (chan y)")
    case None
    with assms alive have "z = loop_head y" by (simp add: server_iter_def)
    moreover have "chan (loop_head y) = chan y" by (simp add: loop_head_def leave_loop_def)
    ultimately show ?thesis using srv_ok_loop_head(1) [OF assms(1) alive] None by simp
  next
    case (Some m)
    obtain r u where run: "srv_run (handle_msg E ready order m) y = (r, u)" by (cases "srv_run (handle_msg E ready order m) y")
    show ?thesis
    proof (cases r)
      case (Ret x)
      from srv_run_ok [OF handle_msg_steady [OF assms(1) alive] assms(1) alive run [unfolded Ret]] have "srv_ok u" "srv_alive u" by simp_all
      with assms(2) alive Some run Ret show ?thesis by (auto simp: server_iter_def intro!: srv_ok_loop_head)
    next
      case (Throw e)
      with assms(2) alive Some run have z: "z = leave_loop u" by (auto simp: server_iter_def)
      have "chan_named u = chan_named y" "sync_made u = sync_made y" "srv_starting u = srv_starting y"
        using run by (auto simp: srv_run_def split: prod.splits)
      with assms(1) alive Some show ?thesis by (simp add: z srv_ok_def leave_loop_def)
    qed (use assms(2) alive Some run in \<open>auto simp: server_iter_def\<close>)
  qed
qed

lemma triple_server_iter:
  fixes E :: "('w, 't) env"
  shows "triple srv_ok (server_iter E ready order) (\<lambda>_. srv_ok) (\<lambda>_. True)"
proof (rule tripleI)
  fix y z :: "('w, 't) system" and x
  assume "srv_ok y" "server_iter E ready order y = (Ret x, z)"
  then show "srv_ok z" using server_iter_ok [of y E ready order z] by (cases x) simp
qed

lemma triple_Notify_wait: "triple srv_ok (Notify_wait E sched left n) (\<lambda>_. srv_ok) (\<lambda>_. True)"
proof (induction left arbitrary: n)
  case (Suc left)
  show ?case
    unfolding Notify_wait.simps
    by (rule triple_cbind [OF cget_keeps], rule triple_if, rule triple_cseq [OF triple_cwhen [OF triple_server_iter]],
        rule triple_if [OF Suc triple_cret], assumption, rule triple_cret)
qed (simp add: triple_cret)

lemma triple_Notify_send: "triple srv_ok (Notify_send E sched c t) (\<lambda>_. system_inv) (\<lambda>_. True)"
  unfolding Notify_send_def
  by (rule triple_cseq [OF triple_modify triple_cseq [OF triple_cwhen [OF triple_server_iter] triple_cseq [OF triple_modify
        triple_cbind [OF triple_Notify_wait triple_cbind [OF cget_keeps triple_cseq [OF triple_modify triple_cret]]]]]],
      simp_all add: system_inv_def)

lemma Notify_inv:
  assumes "system_inv y" and "Notify E sched c t y = (Ret b, z)"
  shows "system_inv z"
proof (cases "sync_made y")
  case True
  with assms Notify_sends [of y E sched c t] have "Notify_send E sched c t y = (Ret b, z)" by (simp add: system_inv_def)
  from tripleE [OF triple_Notify_send _ this] assms(1) show ?thesis by (simp add: system_inv_def)
next
  case False
  with assms Notify_sends [of y E sched c t] show ?thesis by (simp add: system_inv_def)
qed

section \<open>Reachable systems\<close>

text \<open>
  A server is started by a process, which creates the segment and then constructs the block; it makes passes through its
  loop, gets a signal, is killed; guests exit and report ready; clients that have found the segment send requests; and
  other processes do as they like with the rest of the world.
\<close>

inductive system_reach :: "('w, 't) env \<Rightarrow> ('w, 't) system \<Rightarrow> bool" for E where
  none: "\<not> srv_alive y \<Longrightarrow> \<not> srv_starting y \<Longrightarrow> \<not> chan_named y \<Longrightarrow> msg_data (chan y) = None \<Longrightarrow> system_reach E y"
| opens: "system_reach E y \<Longrightarrow> \<not> srv_alive y \<Longrightarrow> \<not> srv_starting y \<Longrightarrow> system_reach E (Server_Start_open E ok y)"
| syncs: "system_reach E y \<Longrightarrow> srv_starting y \<Longrightarrow> system_reach E (Server_Start_sync y)"
| pass: "system_reach E y \<Longrightarrow> server_iter E ready order y = (Ret (), z) \<Longrightarrow> system_reach E z"
| signal: "system_reach E y \<Longrightarrow> srv_alive y \<or> srv_starting y \<Longrightarrow> system_reach E (HandleSIG y)"
| killed: "system_reach E y \<Longrightarrow> system_reach E (y\<lparr>srv_alive := False, srv_starting := False\<rparr>)"
| exits: "system_reach E y \<Longrightarrow> srv_alive y \<Longrightarrow> a \<in> set (vm_threads (srv y)) \<Longrightarrow> srv_run (VmThread_exit E a) y = (Ret (), z) \<Longrightarrow>
    system_reach E z"
| reports: "system_reach E y \<Longrightarrow> srv_alive y \<Longrightarrow> listening (srv y) \<Longrightarrow> srv_run (Server_VmReady peer) y = (Ret st, z) \<Longrightarrow> system_reach E z"
| request: "system_reach E y \<Longrightarrow> chan_named y \<Longrightarrow> Notify E sched c t y = (Ret b, z) \<Longrightarrow> system_reach E z"
| outside: "system_reach E y \<Longrightarrow> system_reach E (y\<lparr>world := w, civ_config_path := p\<rparr>)"

lemma srv_run_chan: "srv_run m y = (r, z) \<Longrightarrow> chan z = chan y"
  by (auto simp: srv_run_def split: prod.splits)

lemma setup_fields:
  "steady (snd (SetupStartupListenerService E (fresh_server p w)))"
  "stop_server (snd (SetupStartupListenerService E (fresh_server p w))) = False"
  by (simp_all add: SetupStartupListenerService_def RunListenerService_def fresh_server_def server_init_def run_simps steady_def
      settled_def server_inv_def called_back_def split: prod.splits)

lemma start_ok:
  "\<not> srv_alive y \<Longrightarrow> \<not> srv_starting y \<Longrightarrow> system_inv y \<Longrightarrow> system_inv (Server_Start_open E ok y)"
  "srv_starting y \<Longrightarrow> system_inv y \<Longrightarrow> system_inv (Server_Start_sync y)"
  "system_inv y \<Longrightarrow> system_inv (HandleSIG y)"
  "system_inv y \<Longrightarrow> system_inv (y\<lparr>srv_alive := False, srv_starting := False\<rparr>)"
  by (auto simp: system_inv_def srv_ok_def Server_Start_open_def Server_Start_sync_def HandleSIG_def Server_Stop_def loop_head_def
      leave_loop_def setup_fields Let_def)

lemma system_reach_inv: "system_reach E y \<Longrightarrow> system_inv y"
proof (induction rule: system_reach.induct)
  case (none y)
  then show ?case by (simp add: system_inv_def srv_ok_def)
next
  case (pass y ready order z)
  from server_iter_ok [OF _ pass.hyps(2)] pass.IH show ?case by (auto simp: system_inv_def)
next
  case (exits y a z)
  then have ok: "srv_ok y" "srv_alive y" by (simp_all add: system_inv_def)
  have "steady t" if "VmThread_exit E a ((srv y)\<lparr>world := world y\<rparr>) = (Ret (), t)" for t
    using exits_follow [OF srv_tracks [OF ok] _ that] exits.hyps(3) by (auto dest: follows_steady)
  from srv_run_ok [OF this ok exits.hyps(4)] exits show ?case by (simp add: system_inv_def srv_run_chan)
next
  case (reports y peer st z)
  then have ok: "srv_ok y" "srv_alive y" by (simp_all add: system_inv_def)
  from srv_run_ok [OF follows_steady [OF tripleE [OF reports_follow srv_tracks [OF ok]]] ok reports.hyps(4)] reports show ?case
    by (simp add: system_inv_def srv_run_chan)
next
  case (request y sched c t b z)
  from Notify_inv [OF request.IH request.hyps(3)] show ?case .
next
  case (outside y w p)
  then show ?case by (simp add: system_inv_def)
qed (simp_all add: start_ok)

section \<open>A server that is gone\<close>

lemma Notify_dead:
  assumes "\<not> srv_alive y" and "msg_data (chan y) = None"
  shows "\<exists>b z. Notify E sched c t y = (Ret b, z)"
proof -
  let ?y = "sent c t y"
  obtain n where n: "Notify_wait E sched kMaxRetryCount 0 ?y = (Ret n, ?y)"
    using Notify_wait_dead [of ?y E sched kMaxRetryCount 0] assms(1) by auto
  obtain a d where ch: "chan y = \<lparr>msg_in = a, msg_data = d\<rparr>" by (cases "chan y")
  have "Notify_send E sched c t y = (Ret (n < kMaxRetryCount \<and> msg_state ?y = Some kCivMsgRespondSuccess), taken_back ?y)"
    using n assms(1) by (simp add: Notify_send_def run_simps server_iter_dead ch)
  then show ?thesis by (cases "sync_made y") (auto simp: Notify_sends [OF assms(2)])
qed

lemma Client_new_ok:
  assumes "chan_named y" and "\<And>pid w. os_getpid E (world y) = (pid, w) \<Longrightarrow> fst (shm_create E (''CivClientShm'' @ to_string (int pid)) w)"
  shows "\<exists>c w. Client_new E y = (Ret c, y\<lparr>world := w\<rparr>)"
proof -
  obtain pid w where pid: "os_getpid E (world y) = (pid, w)" by (cases "os_getpid E (world y)")
  let ?c = "''CivClientShm'' @ to_string (int pid)"
  obtain w' where "shm_create E ?c w = (True, w')" using assms(2) [OF pid] by (cases "shm_create E ?c w") auto
  with assms(1) pid have "Client_new E y = (Ret ?c, y\<lparr>world := w'\<rparr>)" by (simp add: Client_new_def run_simps Let_def)
  then show ?thesis by blast
qed

section \<open>Properties\<close>


definition demo_system :: "(ref_world, ref_tree) system" where
  "demo_system = \<lparr>world = demo_host, civ_config_path = Some ''/civ'', srv = server_init demo_start,
     chan = \<lparr>msg_in = False, msg_data = None\<rparr>, chan_named = False, sync_made = False, srv_starting = False, srv_alive = False\<rparr>"

definition demo_running :: "(ref_world, ref_tree) system" where
  "demo_running = Server_Start_sync (Server_Start_open ref_env True demo_system)"

lemma demo_running_reach: "system_reach ref_env demo_running"
proof -
  have "system_reach ref_env demo_system" by (rule system_reach.none) (simp_all add: demo_system_def)
  then have "system_reach ref_env (Server_Start_open ref_env True demo_system)" by (rule system_reach.opens) (simp_all add: demo_system_def)
  then show ?thesis unfolding demo_running_def by (rule system_reach.syncs) (simp_all add: Server_Start_open_def Let_def)
qed

lemma demo_running_fields:
  "srv_alive demo_running" "sync_made demo_running" "chan_named demo_running" "chan demo_running = \<lparr>msg_in = False, msg_data = None\<rparr>"
  by (simp_all add: demo_running_def Server_Start_sync_def Server_Start_open_def loop_head_def setup_fields Let_def)

lemma demo_init_world: "demo_init\<lparr>world := demo_host\<rparr> = demo_init" "world demo_init = demo_host"
  by (simp_all add: demo_init_def server_init_def demo_start_def)

lemma demo_running_server: "srv demo_running = demo_init" "world demo_running = demo_host"
proof -
  have "fresh_server (Some ''/civ'') demo_host = (server_init demo_start :: (ref_world, ref_tree) server_state)"
    by (simp add: fresh_server_def demo_start_def)
  then have "snd (SetupStartupListenerService ref_env (fresh_server (Some ''/civ'') demo_host)) = demo_init" by (simp add: demo_setup)
  moreover have "\<not> stop_server demo_init" by (simp add: demo_init_def server_init_def demo_start_def)
  ultimately show "srv demo_running = demo_init" "world demo_running = demo_host"
    by (simp_all add: demo_running_def demo_system_def Server_Start_sync_def Server_Start_open_def loop_head_def Let_def demo_init_world)
qed

text \<open>A client on the reference host, and a schedule in which the server answers at once.\<close>

definition demo_sched :: schedule where
  "demo_sched = \<lparr>ready_at = (\<lambda>_. False), order_of = Thread_first, early = False, server_runs = (\<lambda>k. k = 0), wait_ends = (\<lambda>_. Cv_no_timeout)\<rparr>"

lemma demo_client:
  fixes y :: "(ref_world, ref_tree) system"
  shows "chan_named y \<Longrightarrow> r_info (world y) = [] \<Longrightarrow> Client_new ref_env y = (Ret ''CivClientShm77'', y)"
    and "Client_delete ref_env c y = (Ret (), y)"
proof -
  have "to_string 77 = ''77''" by code_simp
  then show "Client_new ref_env y = (Ret ''CivClientShm77'', y)" if "chan_named y" "r_info (world y) = []"
    using that by (cases y) (simp add: Client_new_def run_simps ref_env_def Let_def)
  show "Client_delete ref_env c y = (Ret (), y)" by (simp add: Client_delete_def run_simps ref_env_def)
qed

lemma demo_host_info: "r_info demo_host = []"
  by (simp add: demo_host_def ref_world0_def)




end
