(* ===== verification/Command_Facts.thy ===== *)
theory Command_Facts
  imports System_Reach
begin

text \<open>
  What the commands of the program get back from the server.
\<close>

section \<open>The list of guests\<close>

lemma VmStateToStr_no_colon: "CHR '':'' \<notin> set (VmStateToStr st)"
  by (cases st) (simp_all add: VmStateToStr_def)

lemma find_state:
  "List.find (\<lambda>i. VmStateToStr st = VmStateToStr (state_of i)) [0..<state_num kVmUnknown] =
     (if st = kVmUnknown then None else Some (state_num st))"
  by (cases st) (simp_all add: VmStateToStr_def state_of_def state_num_def upt_rec)

lemma split_entry:
  assumes "split_law E"
  shows "split_on E (CHR '':'') False (list_entry b) =
    (if CHR '':'' \<in> set (vm_name b) then split_chars (CHR '':'') (list_entry b)
     else [vm_name b, VmStateToStr (vm_state b)])"
proof -
  have "split_chars (CHR '':'') (n @ '':'' @ VmStateToStr st) = [n, VmStateToStr st]" if "CHR '':'' \<notin> set n" for n st
    using split_chars_first [OF that] split_chars_none [OF VmStateToStr_no_colon] by simp
  with assms show ?thesis by (simp add: split_law_def list_entry_def VmBuilder_GetName_def VmBuilder_GetState_def)
qed

lemma split_entry_long:
  assumes "CHR '':'' \<in> set (vm_name b)"
  shows "2 < length (split_chars (CHR '':'') (list_entry b))"
proof -
  have "0 < length (filter (\<lambda>c. c = CHR '':'') (vm_name b))" using assms by (auto simp: filter_empty_conv)
  then show ?thesis by (simp add: length_split_chars list_entry_def VmBuilder_GetName_def)
qed

text \<open>Reading the list back.\<close>

lemma guest_state_list:
  assumes "split_law E" and "CHR '':'' \<notin> set name" and "distinct (map vm_name bs)"
  shows "guest_state E name (map list_entry bs) =
     (case FindVmInstance name bs of None \<Rightarrow> int (state_num kVmUnknown) | Some i \<Rightarrow> int (state_num (vm_state (bs ! i))))"
  using assms(3)
proof (induction bs)
  case (Cons b bs)
  have IH: "guest_state E name (map list_entry bs) =
      (case FindVmInstance name bs of None \<Rightarrow> int (state_num kVmUnknown) | Some i \<Rightarrow> int (state_num (vm_state (bs ! i))))"
    using Cons by simp
  show ?case
  proof (cases "vm_name b = name")
    case True
    then have "FindVmInstance name bs = None" using Cons.prems by (simp add: FindVmInstance_None)
    with IH have rest: "guest_state E name (map list_entry bs) = int (state_num kVmUnknown)" by simp
    show ?thesis
      using True assms(2) by (simp add: split_entry [OF assms(1)] find_state rest VmBuilder_GetName_def)
  next
    case False
    have skip: "guest_state E name (map list_entry (b # bs)) = guest_state E name (map list_entry bs)"
    proof (cases "CHR '':'' \<in> set (vm_name b)")
      case True
      then show ?thesis
        using split_entry_long [OF True] by (auto simp: split_entry [OF assms(1)] split: list.splits)
    next
      case no_colon: False
      with False show ?thesis by (simp add: split_entry [OF assms(1)])
    qed
    with IH False show ?thesis by (auto simp: VmBuilder_GetName_def split: option.splits)
  qed
qed simp

lemma ListVm_found:
  assumes "shm_law E strs info" and "ListVm E seg s = (Ret rc, t)"
  shows "vmis t = vmis s \<and> strs (world t) seg ''ListVms'' = Some (map (list_entry \<circ> snd) (vmis s))"
  using assms(2) shm_lawD(6) [OF assms(1)] by (auto simp: ListVm_def open_shm_def ret_iffs split: if_splits)

text \<open>
  Asking for the state of a guest gives the state of that guest.  When the server has answered a request for the
  list, the client reads back, for every name without a colon, the number of the state of the guest of that name, and
  \<open>kVmUnknown\<close> exactly when there is none or its state is unknown; entries of guests whose names contain colons do not disturb it.
\<close>

lemma ListVm_GetGuestState:
  assumes "split_law E" and "shm_law E strs info" and "server_reach E g s" and "ListVm E seg s = (Ret 0, t)" and "CHR '':'' \<notin> set name"
  shows "\<exists>vms w. shm_find E seg ''ListVms'' (world t) = (Some vms, w) \<and>
     guest_state E name vms = (case FindVmInstance name (map snd (vmis s)) of
        None \<Rightarrow> int (state_num kVmUnknown)
      | Some i \<Rightarrow> int (state_num (VmBuilder_GetState (snd (vmis s ! i)))))"
proof -
  have d: "distinct (map vm_name (map snd (vmis s)))"
    using server_reach_inv [OF assms(3)] by (simp add: server_inv_def)
  obtain found w where f: "shm_find E seg ''ListVms'' (world t) = (found, w)" by (cases "shm_find E seg ''ListVms'' (world t)")
  with shm_lawD(2) [OF assms(2) f] ListVm_found [OF assms(2,4)]
  have "shm_find E seg ''ListVms'' (world t) = (Some (map (list_entry \<circ> snd) (vmis s)), w)" by simp
  moreover have "FindVmInstance name (map snd (vmis s)) = Some i \<Longrightarrow> i < length (vmis s)" for i
    using FindVmInstance_Some [of name "map snd (vmis s)" i] by simp
  ultimately show ?thesis
    using guest_state_list [OF assms(1,5) d] by (auto simp: VmBuilder_GetState_def split: option.splits)
qed

lemma ref_split_law: "split_law ref_env"
  by (simp add: split_law_def ref_env_def ref_split_on_def)

lemma demo_guest: "vmis demo_listed = [(0, this demo_built)]" "vm_state (this demo_built) = kVmCreated"
proof -
  show "vmis demo_listed = [(0, this demo_built)]" by (simp add: demo_listed_def)
  show "vm_state (this demo_built) = kVmCreated"
    using tripleD [OF BuildVmArgs_post _ demo_build(1), of initial_bs "''civ-1''" demo_cfg]
    by (simp add: unbuilt_nocid_def unbuilt_def cid_of_def demo_build VmBuilderQemu_new_def build_post_def built_def)
qed

section \<open>A start that fails\<close>

lemma guest_listed: "guest a P s \<Longrightarrow> a \<in> fst ` set (vmis s)"
  by (auto simp: guest_def dest!: map_of_SomeD) force

lemma vb_call_listed: "vb_call a m s = (Ret x, t) \<Longrightarrow> a \<in> fst ` set (vmis t)"
  by (rule guest_listed, erule vb_call_Ret) (rule TrueI)

lemma VmThread_listed:
  fixes E :: "('w, 't) env"
  assumes "VmThread E ready order a n s = (Ret st, t)"
  shows "a \<in> fst ` set (vmis t)"
  using assms
  by (auto simp: VmThread_def Let_def thread_waits_def ctry_def ccrash_def ret_iffs
      split: outcome.splits prod.splits if_splits start_order.splits dest: vb_call_listed)

text \<open>How \<open>Server::StartVm\<close> may return: before the build, with a build that was refused, or after the guest has been listed.\<close>

definition start_end :: "('w, 't) env \<Rightarrow> (nat \<Rightarrow> bool) \<Rightarrow> start_order \<Rightarrow> ('w, 't) server_state \<Rightarrow> int \<Rightarrow> ('w, 't) server_state \<Rightarrow> bool" where
  "start_end E ready order s rc t \<longleftrightarrow>
     rc = - 1 \<and> only_world s t \<or>
     (\<exists>s1. only_world s s1 \<and> ((\<exists>name c. build_vm E name c s1 = (Ret None, t) \<and> rc = - 1) \<or>
       (\<exists>name c a s2 s3 n st. build_vm E name c s1 = (Ret (Some a), s2) \<and> VmThread E ready order a n s3 = (Ret st, t))))"

lemma keep_world: "within only_world m \<Longrightarrow> triple (only_world s) m (\<lambda>_. only_world s) any_end"
  by (erule triple_within) (auto intro: only_world.trans)

lemma start_guard:
  "triple (only_world s) m (start_end E ready order s) any_end \<Longrightarrow>
     triple (only_world s) (if b then cret (- 1) else m) (start_end E ready order s) any_end"
  by (auto intro!: triple_cret simp: start_end_def)

lemma StartVm_ends: "triple (only_world s) (Server_StartVm E ready order seg) (start_end E ready order s) any_end"
proof -
  have build: "triple (only_world s) (cbind (build_by_type E name c) (\<lambda>vb.
     case vb of None \<Rightarrow> cret (- 1) | Some a \<Rightarrow>
     cbind (oscall (shm_find E seg ''StartVmEnv'')) (\<lambda>vm_env.
     cseq (vb_call a (SetProcessEnv (case vm_env of None \<Rightarrow> [] | Some strs \<Rightarrow> strs)))
    (cbind (VmThread E ready order a n) (\<lambda>st. cret (if st = kVmRunning then 0 else - 1)))))) (start_end E ready order s) any_end"
    (is "triple _ (cbind _ (?rest n)) _ _") for name c n
  proof (rule tripleI)
    fix u rc t
    assume u: "only_world s u" and "cbind (build_by_type E name c) (?rest n) u = (Ret rc, t)"
    then obtain vb u1 where b: "build_vm E name c u = (Ret vb, u1)" and rest: "?rest n vb u1 = (Ret rc, t)"
      unfolding build_by_type_def if_cancel cbind_Ret_iff by blast
    show "start_end E ready order s rc t"
    proof (cases vb)
      case None
      with u b rest show ?thesis by (auto simp: start_end_def ret_iffs)
    next
      case (Some a)
      with rest have "\<exists>s3 st. VmThread E ready order a n s3 = (Ret st, t)" by (auto simp: ret_iffs)
      with u b Some show ?thesis unfolding start_end_def by blast
    qed
  qed
  have find: "within only_world (find_vm name)" for name
    unfolding find_vm_def by (rule only_world.within_cget)
  show ?thesis
    unfolding Server_StartVm_def
    by (rule triple_cseq [OF keep_world [OF only_world_shm(1)]], rule triple_cbind [OF keep_world [OF only_world_shm(2)]], rule start_guard,
        rule triple_cbind [OF keep_world [OF only_world_ReadConfigFile]], rule triple_case_prod, rule start_guard,
        rule triple_cbind [OF keep_world [OF only_world_shm(3)]], rule start_guard, rule triple_cbind [OF keep_world [OF find]],
        rule start_guard, rule build)
qed

text \<open>
  C23. A start that adds no guest leaks nothing.  When \<open>Server::StartVm\<close> returns and the server lists the same guests as before
  (the name is taken, the options cannot be read, the build is refused), it has returned -1, every guest is as it
  was, and the context id pool is unchanged.
\<close>

theorem StartVm_failed:
  assumes "server_reach E g s" and "Server_StartVm E ready order seg s = (Ret rc, t)"
    and "map fst (vmis t) = map fst (vmis s)"
  shows "rc = - 1 \<and> vmis t = vmis s \<and> cid_pool t = cid_pool s"
proof -
  have new: "next_addr s \<notin> fst ` set (vmis s)"
    using server_reach_inv [OF assms(1)] by (auto simp: server_inv_def)
  have pre: "vmis s1 = vmis s \<and> cid_pool s1 = cid_pool s \<and> next_addr s1 = next_addr s" if "only_world s s1" for s1
    using that by (auto simp: only_world_def)
  have "start_end E ready order s rc t" by (rule tripleE [OF StartVm_ends only_world.refl assms(2)])
  then show ?thesis
    unfolding start_end_def
  proof (elim disjE exE conjE)
    fix s1 name c a s2 s3 n st
    assume "only_world s s1" "build_vm E name c s1 = (Ret (Some a), s2)" "VmThread E ready order a n s3 = (Ret st, t)"
    then have "next_addr s \<in> fst ` set (vmis t)" using build_vm_Ret [of E name c s1 "Some a" s2] pre [of s1] VmThread_listed by auto
    then have "next_addr s \<in> fst ` set (vmis s)" using assms(3) by (metis list.set_map)
    with new show ?thesis by simp
  next
    fix s1 name c
    assume "only_world s s1" "build_vm E name c s1 = (Ret None, t)" "rc = - 1"
    with pre build_vm_Ret [of E name c s1 None t] show ?thesis by (simp add: globals_only_def)
  qed (use pre in auto)
qed

theorem StartVm_failed_witness:
  "\<exists>t. Server_StartVm ref_env (\<lambda>_. False) Thread_first ''shm1'' demo_listed = (Ret (- 1), t) \<and> vmis t = vmis demo_listed \<and>
     cid_pool t = cid_pool demo_listed"
proof -
  have w: "world demo_listed = demo_host" by (simp add: demo_listed_def demo_init_def server_init_def demo_start_def)
  have o: "open_shm ref_env ''shm1'' demo_listed = (Ret (), demo_listed)"
    by (simp add: open_shm_def run_simps ref_env_def)
  have f: "find_string ref_env ''shm1'' ''StartVmCfgPath'' demo_listed = (Ret ''/c.ini'', demo_listed)"
    by (simp add: find_string_def run_simps w ref_env_def demo_host_def ref_world0_def)
  have v: "find_vm ''civ-1'' demo_listed = (Ret (Some 0), demo_listed)"
    by (simp add: find_vm_def run_simps demo_listed_def demo_vm_name VmBuilder_GetName_def)
  have run: "Server_StartVm ref_env (\<lambda>_. False) Thread_first ''shm1'' demo_listed = (Ret (- 1), demo_listed)"
    by (simp add: Server_StartVm_def run_simps o f v demo_read [OF w] demo_name)
  have reach: "server_reach ref_env demo_start demo_listed"
    by (rule reach_message [OF server_reach.start [OF demo_setup] demo_import])
  from StartVm_failed [OF reach run] run show ?thesis by simp
qed

section \<open>Responses\<close>



section \<open>Stopping the server\<close>

lemma handled_stop:
  "handle_msg E ready order \<lparr>msg_type = kCiVMsgStopServer, payload = p\<rparr> s = (Ret kCivMsgRespondSuccess, s\<lparr>stop_server := True\<rparr>)"
  by (simp add: handle_msg_def run_simps)

abbreviation gone :: "('w, 't) system \<Rightarrow> bool" where
  "gone y \<equiv> \<not> srv_alive y \<and> \<not> chan_named y"

text \<open>A message that is taken early has stopped the server before the client starts to wait.\<close>

lemma stop_early:
  assumes "srv_alive y" and "msg_data (chan y) = Some \<lparr>msg_type = kCiVMsgStopServer, payload = p\<rparr>"
  shows "\<exists>z. server_iter E ready order y = (Ret (), z) \<and> gone z"
  using server_iter_cases [OF assms, of E ready order] by (auto simp: handled_stop)

lemma Notify_stop:
  assumes y: "msg_data (chan y) = None" and run: "Notify E sched c kCiVMsgStopServer y = (Ret True, z)"
  shows "gone z"
proof -
  have sync: "sync_made y" using run Notify_sends [OF y] by (auto split: if_splits)
  show ?thesis
  proof (cases "early sched")
    case False
    show ?thesis
      by (rule Notify_cases [OF sync y False, of kCiVMsgStopServer E c]) (use run in \<open>auto simp: handled_stop\<close>)
  next
    case True
    let ?m = "y\<lparr>chan := (chan y)\<lparr>msg_data := Some (msg_of c kCiVMsgStopServer)\<rparr>\<rparr>"
    obtain x where x: "server_iter E (ready_at sched) (order_of sched) ?m = (Ret (), x)" "gone x"
    proof (cases "srv_alive y")
      case True
      then show ?thesis using stop_early [of ?m _ E "ready_at sched" "order_of sched"] that by auto
    next
      case False
      obtain n where n: "Notify_wait E sched kMaxRetryCount 0 (sent c kCiVMsgStopServer y) = (Ret n, sent c kCiVMsgStopServer y)"
        using Notify_wait_dead [of "sent c kCiVMsgStopServer y" E sched kMaxRetryCount 0] False by auto
      obtain a d where ch: "chan y = \<lparr>msg_in = a, msg_data = d\<rparr>" by (cases "chan y")
      from n run False True show ?thesis
        by (auto simp: Notify_sends [OF y] Notify_send_def run_simps server_iter_dead ch msg_state_def split: if_splits)
    qed
    let ?x = "x\<lparr>chan := (chan x)\<lparr>msg_in := True\<rparr>\<rparr>"
    obtain n where "Notify_wait E sched kMaxRetryCount 0 ?x = (Ret n, ?x)"
      using Notify_wait_dead [of ?x E sched kMaxRetryCount 0] x(2) by auto
    with run x True sync show ?thesis
      by (auto simp: Notify_sends [OF y] Notify_send_def run_simps)
  qed
qed

lemma with_client_Ret_iff:
  "with_client E body y = (Ret x, z) \<longleftrightarrow>
     (\<exists>c y1 y2. Client_new E y = (Ret c, y1) \<and> body c y1 = (Ret x, y2) \<and> Client_delete E c y2 = (Ret (), z))"
proof -
  have "(case body c y1 of (Ret x, z) \<Rightarrow> cseq (Client_delete E c) (cret x) z
        | (Throw e, z) \<Rightarrow> cseq (Client_delete E c) (cthrow e) z | r \<Rightarrow> r) = (Ret x, z) \<longleftrightarrow>
      (\<exists>y2. body c y1 = (Ret x, y2) \<and> Client_delete E c y2 = (Ret (), z))" for c y1
    by (cases "body c y1", cases "fst (body c y1)") (auto simp: ret_iffs)
  then show ?thesis unfolding with_client_def cbind_Ret_iff by blast
qed

lemma Client_delete_world: "within only_world (Client_delete E c)"
  unfolding Client_delete_def by (rule only_world_oscall)

lemma IsServerRunning_gone: "\<not> chan_named y \<Longrightarrow> IsServerRunning E sc y = (Ret False, y)"
  by (simp add: IsServerRunning_def with_client_def Client_new_def run_simps)

lemma Client_new_world: "within only_world (Client_new E)"
  unfolding Client_new_def Let_def by (intro only_world_intros)


text \<open>The test at the start of a command keeps the invariant.\<close>

lemma system_inv_world: "only_world y z \<Longrightarrow> system_inv z = system_inv y"
  by (auto simp: only_world_def system_inv_def)

lemma Notify_ends:
  assumes "system_inv y"
  shows "is_Ret (fst (Notify E sched c t y)) \<or> fst (Notify E sched c t y) = Hang"
  using Notify_sends [of y E sched c t] no_fault_run [OF no_fault_Notify_send, of E sched c t y] assms
  by (simp add: system_inv_def)

lemma IsServerRunning_run:
  assumes inv: "system_inv y" and run: "IsServerRunning E sc y = (Ret b, z)"
  obtains (refused) e where "Client_new E y = (Throw e, z)" "\<not> b"
  | (asked) c y1 b' y2 where "Client_new E y = (Ret c, y1)" "Notify E sc c kCivMsgTest y1 = (Ret b', y2)" "Client_delete E c y2 = (Ret (), z)" "b"
proof -
  obtain r y1 where new: "Client_new E y = (r, y1)" by (cases "Client_new E y")
  have inv1: "system_inv y1" using system_inv_world [OF withinD [OF Client_new_world new]] inv by simp
  show thesis
  proof (cases r)
    case (Ret c)
    obtain q y2 where n: "Notify E sc c kCivMsgTest y1 = (q, y2)" by (cases "Notify E sc c kCivMsgTest y1")
    with run new Ret obtain b' where q: "q = Ret b'"
      using Notify_ends [OF inv1, of E sc c kCivMsgTest]
      by (auto simp: IsServerRunning_def with_client_def run_simps split: outcome.splits)
    have "Client_delete E c y2 = (Ret (), z) \<and> b"
      using run new Ret n q by (auto simp: IsServerRunning_def with_client_def Client_delete_def run_simps split: prod.splits)
    with new Ret n q show thesis by (intro asked [of c y1 b' y2]) auto
  next
    case (Throw e)
    with run new show thesis by (intro refused [of e]) (auto simp: IsServerRunning_def with_client_def run_simps)
  qed (use run new in \<open>auto simp: IsServerRunning_def with_client_def run_simps\<close>)
qed

lemma IsServerRunning_inv:
  assumes inv: "system_inv y" and run: "IsServerRunning E sc y = (Ret b, z)"
  shows "system_inv z"
  using assms
proof (cases rule: IsServerRunning_run)
  case (refused e)
  with system_inv_world [OF withinD [OF Client_new_world refused(1)]] inv show ?thesis by simp
next
  case (asked c y1 b' y2)
  have "system_inv y1" using system_inv_world [OF withinD [OF Client_new_world asked(1)]] inv by simp
  from Notify_inv [OF this asked(2)] system_inv_world [OF withinD [OF Client_delete_world asked(3)]] show ?thesis by simp
qed



lemma Notify_prompt:
  assumes "sync_made y" "msg_data (chan y) = None" "t \<noteq> kCivMsgRespondSuccess" "srv_alive y"
    and "handled E demo_sched (msg_of c t) y = (Ret r, u)"
  shows "\<exists>z. Notify E demo_sched c t y = (Ret (r = kCivMsgRespondSuccess), z) \<and> srv z = u \<and> world z = world u \<and> sync_made z \<and>
     msg_data (chan z) = None \<and> srv_alive z = (\<not> stop_server u) \<and> chan_named z = (chan_named y \<and> \<not> stop_server u)"
proof -
  have sched: "\<not> early demo_sched" "passes demo_sched 0" "wait_ends demo_sched k = Cv_no_timeout" "passes demo_sched j \<Longrightarrow> j = 0" for j k
    by (auto simp: demo_sched_def passes_def quiet_def kMaxRetryCount_def)
  show ?thesis
    by (rule Notify_cases [OF assms(1,2) sched(1) assms(3), of E c]) (use assms(4-) sched(2-) in auto)
qed

text \<open>A server on the reference host that waits for a request; the test that a client makes before each command.\<close>

definition demo_up :: "(ref_world, ref_tree) system \<Rightarrow> bool" where
  "demo_up y \<longleftrightarrow> srv_alive y \<and> sync_made y \<and> chan_named y \<and> msg_data (chan y) = None \<and> \<not> stop_server (srv y) \<and> r_info (world y) = []"

lemma demo_running_up: "demo_up demo_running"
  by (simp add: demo_up_def demo_running_fields demo_running_server demo_host_info) (simp add: demo_init_def server_init_def)

lemma demo_client_new: "demo_up y \<Longrightarrow> Client_new ref_env y = (Ret ''CivClientShm77'', y)"
  by (simp add: demo_up_def demo_client)

lemma demo_notify:
  assumes "demo_up y" "t \<noteq> kCivMsgRespondSuccess"
    "handle_msg ref_env (\<lambda>_. False) Thread_first (msg_of c t) ((srv y)\<lparr>world := world y\<rparr>) = (Ret r, u)"
  shows "\<exists>z. Notify ref_env demo_sched c t y = (Ret (r = kCivMsgRespondSuccess), z) \<and> srv z = u \<and> world z = world u \<and>
     (\<not> stop_server u \<longrightarrow> r_info (world u) = [] \<longrightarrow> demo_up z) \<and> (stop_server u \<longrightarrow> \<not> chan_named z)"
proof -
  have "handled ref_env demo_sched (msg_of c t) y = (Ret r, u)" using assms(3) by (simp add: demo_sched_def)
  from Notify_prompt [OF _ _ assms(2) _ this] assms(1) show ?thesis by (auto simp: demo_up_def)
qed

lemma demo_test:
  assumes "demo_up y"
  obtains z where "IsServerRunning ref_env demo_sched y = (Ret True, z)" "demo_up z" "srv z = (srv y)\<lparr>world := world y\<rparr>" "world z = world y"
proof -
  obtain z where z: "Notify ref_env demo_sched ''CivClientShm77'' kCivMsgTest y = (Ret False, z)" "demo_up z"
      "srv z = (srv y)\<lparr>world := world y\<rparr>" "world z = world y"
    using demo_notify [OF assms, of kCivMsgTest "''CivClientShm77''" kCivMsgTest "(srv y)\<lparr>world := world y\<rparr>"] assms
    by (auto simp: demo_up_def handle_msg_def run_simps)
  then have "IsServerRunning ref_env demo_sched y = (Ret True, z)"
    by (simp add: IsServerRunning_def with_client_def demo_client_new [OF assms] demo_client(2) run_simps)
  with z that show thesis by blast
qed


end
