(* ===== verification/Request_Facts.thy ===== *)
theory Request_Facts
  imports Command_Facts
begin

text \<open>
  From a command to the server and back: a request is handled at most once, on the server as the client found it, and
  what the client does before it sends one leaves the server alone and prints nothing.
\<close>

section \<open>A message is handled at most once\<close>

text \<open>The type that a handler leaves in a message is not a request: a message that is found again is left alone.\<close>

lemma handle_again:
  "handle_msg E ready order m s = (Ret r, u) \<Longrightarrow> handle_msg E ready order (m\<lparr>msg_type := r\<rparr>) u = (Ret r, u)"
  by (cases "msg_type m") (auto simp: handle_msg_def respond_def ret_iffs)

text \<open>What may have become of a message \<open>m\<close> that was put into the segment when the system was in state \<open>y\<close>.\<close>

inductive fate :: "('w, 't) env \<Rightarrow> schedule \<Rightarrow> CivMsg \<Rightarrow> ('w, 't) system \<Rightarrow> ('w, 't) system \<Rightarrow> bool" for E sched m y where
  waits: "msg_data (chan z) = Some m \<Longrightarrow> srv z = srv y \<Longrightarrow> world z = world y \<Longrightarrow> srv_alive z = srv_alive y \<Longrightarrow> fate E sched m y z"
| answered: "srv_alive y \<Longrightarrow> handled E sched m y = (Ret r, srv z) \<Longrightarrow> msg_data (chan z) = Some (m\<lparr>msg_type := r\<rparr>) \<Longrightarrow>
    world z = world (srv z) \<Longrightarrow> fate E sched m y z"
| thrown: "srv_alive y \<Longrightarrow> handled E sched m y = (Throw e, srv z) \<Longrightarrow> msg_data (chan z) = Some m \<Longrightarrow>
    world z = world (srv z) \<Longrightarrow> \<not> srv_alive z \<Longrightarrow> fate E sched m y z"

lemma fate_msg_in: "fate E sched m y z \<Longrightarrow> fate E sched m y (z\<lparr>chan := (chan z)\<lparr>msg_in := b\<rparr>\<rparr>)"
  by (erule fate.cases) (auto intro: fate.intros)

lemma iter_fate:
  "hoare (fate E sched m y) (server_iter E (ready_at sched) (order_of sched)) (\<lambda>_. fate E sched m y)"
proof (rule tripleI)
  fix z z' and x :: unit
  assume f: "fate E sched m y z" and run: "server_iter E (ready_at sched) (order_of sched) z = (Ret x, z')"
  show "fate E sched m y z'"
  proof (cases "srv_alive z")
    case False
    with f run show ?thesis by (simp add: server_iter_dead)
  next
    case alive: True
    from f show ?thesis
    proof cases
      case waits
      with alive run server_iter_cases [OF alive waits(1), of E "ready_at sched" "order_of sched"] show ?thesis
        by (cases "handled E sched m y") (auto intro: fate.answered fate.thrown split: outcome.splits)
    next
      case (answered r)
      have "(srv z)\<lparr>world := world z\<rparr> = srv z" using answered(4) by simp
      with handle_again [OF answered(2)] server_iter_cases [OF alive answered(3), of E "ready_at sched" "order_of sched"] run
      show ?thesis using answered by (auto intro!: fate.answered)
    qed (use alive in simp)
  qed
qed

lemma wait_fate: "hoare (fate E sched m y) (Notify_wait E sched left n) (\<lambda>_. fate E sched m y)"
proof (induction left arbitrary: n)
  case (Suc left)
  show ?case
    unfolding Notify_wait.simps
    by (rule triple_cbind [OF cget_keeps], rule triple_if, rule triple_cseq [OF triple_cwhen [OF iter_fate]],
        rule triple_if [OF Suc triple_cret], assumption, rule triple_cret)
qed (simp add: triple_cret)

text \<open>
  The three ways in which \<open>Notify\<close> returns.  Whatever the schedule, the handler has run once, on the guests and the
  world that were there when the message was sent, or not at all.
\<close>

lemma Notify_once:
  fixes y :: "('w, 't) system"
  assumes y: "msg_data (chan y) = None" and t: "t \<noteq> kCivMsgRespondSuccess" and run: "Notify E sched c t y = (Ret b, z)"
  obtains (unheard) "\<not> b" "srv z = srv y" "world z = world y" "srv_alive z = srv_alive y"
  | (answered) r where "srv_alive y" "handled E sched (msg_of c t) y = (Ret r, srv z)" "world z = world (srv z)"
      "b \<Longrightarrow> r = kCivMsgRespondSuccess"
  | (thrown) e where "srv_alive y" "handled E sched (msg_of c t) y = (Throw e, srv z)" "world z = world (srv z)" "\<not> b" "\<not> srv_alive z"
proof -
  let ?m = "msg_of c t"
  let ?Q = "\<lambda>b z. \<exists>z1. fate E sched ?m y z1 \<and> z = z1\<lparr>chan := (chan z1)\<lparr>msg_data := None\<rparr>\<rparr> \<and> (b \<longrightarrow> msg_state z1 = Some kCivMsgRespondSuccess)"
  have ends: "hoare (\<lambda>z. fate E sched ?m y z \<and> ty = msg_state z) (cseq (cmodify (\<lambda>y. y\<lparr>chan := (chan y)\<lparr>msg_data := None\<rparr>\<rparr>))
      (cret (n < kMaxRetryCount \<and> ty = Some kCivMsgRespondSuccess))) ?Q" for ty n
    by (rule tripleI) (auto simp: run_simps)
  have "hoare (\<lambda>z. z = y) (Notify_send E sched c t :: ('w, 't, bool) system_op) ?Q"
    unfolding Notify_send_def
    by (rule triple_cseq [OF triple_modify triple_cseq [OF triple_cwhen [OF iter_fate [where y = y]] triple_cseq [OF triple_modify
          triple_cbind [OF wait_fate [where y = y] triple_cbind [OF triple_cget ends]]]]]) (auto intro: fate.waits fate_msg_in)
  note sent = tripleE [OF this HOL.refl]
  show thesis
  proof (cases "sync_made y")
    case False
    with run Notify_sends [OF y, of E sched c t] show thesis by (intro unheard) auto
  next
    case True
    with run Notify_sends [OF y, of E sched c t] sent obtain z1 where f: "fate E sched ?m y z1"
      and z: "z = z1\<lparr>chan := (chan z1)\<lparr>msg_data := None\<rparr>\<rparr>" and b: "b \<longrightarrow> msg_state z1 = Some kCivMsgRespondSuccess" by auto
    from f show thesis
    proof cases
      case waits
      show thesis by (rule unheard) (use waits z b t in \<open>auto simp: msg_state_def\<close>)
    next
      case a: (answered r)
      show thesis by (rule answered [of r]) (use a z b in \<open>auto simp: msg_state_def\<close>)
    next
      case a: (thrown e)
      show thesis by (rule thrown [of e]) (use a z b t in \<open>auto simp: msg_state_def\<close>)
    qed
  qed
qed

section \<open>What a client does by itself\<close>

definition client_only :: "('w, 't) system \<Rightarrow> ('w, 't) system \<Rightarrow> bool" where
  "client_only y z \<longleftrightarrow> srv z = srv y \<and> chan z = chan y \<and> srv_alive z = srv_alive y"

interpretation client_only: config_frame client_only
  by unfold_locales (auto simp: client_only_def)

lemma client_guest_ini:
  fixes E :: "('w, 't) env"
  shows "within client_only (guest_ini E path :: ('w, 't, path option) system_op)"
  unfolding guest_ini_def Let_def
  by (intro client_only.compose client_only.opt client_only.GetConfigPath client_only.host only_world_oscall)

lemma client_Prepare:
  fixes E :: "('w, 't) env"
  shows "within client_only (PrepareStartGuestClientShm E c p :: ('w, 't, unit) system_op)"
    and "within client_only (PrepareStopGuestClientShm E c n :: ('w, 't, unit) system_op)"
    and "within client_only (PrepareGetGuestInfoClientShm E c n :: ('w, 't, unit) system_op)"
    and "within client_only (Client_new E :: ('w, 't, client) system_op)"
    and "within client_only (Client_delete E c :: ('w, 't, unit) system_op)"
  unfolding PrepareStartGuestClientShm_def PrepareStopGuestClientShm_def PrepareGetGuestInfoClientShm_def construct_strings_def
  by (rule client_only.host, intro only_world_intros Client_new_world Client_delete_world)+

text \<open>The name of the segment of a client is short: the message holds all of it.\<close>

lemma client_name:
  assumes "pid_law E" and "Client_new E y = (Ret c, z)"
  shows "take (MaxPayloadSize - Suc 0) c = c"
proof -
  obtain w w' pid where pid: "os_getpid E w = (pid, w')" and c: "c = ''CivClientShm'' @ to_string (int pid)"
    using assms(2) by (auto simp: Client_new_def Let_def ret_iffs split: if_splits)
  have "pid < 2 ^ 31" using assms(1) pid unfolding pid_law_def by (metis fst_conv)
  then have "pid < 10 ^ Suc 9" by simp
  from length_dec_digits [OF this] have "length c < MaxPayloadSize" by (simp add: c to_string_def MaxPayloadSize_def)
  then show ?thesis by simp
qed

text \<open>Calls that print nothing.\<close>

definition quietly :: "('w \<Rightarrow> string) \<Rightarrow> ('w, 'z) os_state_scheme \<Rightarrow> ('w, 'z) os_state_scheme \<Rightarrow> bool" where
  "quietly out s t \<longleftrightarrow> out (world t) = out (world s)"

interpretation quietly: state_preorder "quietly out" for out
  by unfold_locales (simp_all add: quietly_def)

lemma quietly_oscall: "(\<And>w. out (snd (f w)) = out w) \<Longrightarrow> within (quietly out) (oscall f)"
  by (simp add: within_def quietly_def run_simps split: prod.splits) (metis snd_conv)

lemma quiet_calls:
  assumes "console_law E out"
  shows "within (quietly out) (oscall (os_getpid E))" "within (quietly out) (oscall (shm_open E n))"
    "within (quietly out) (oscall (shm_create E n))" "within (quietly out) (oscall (shm_remove E n))"
    "within (quietly out) (oscall (shm_find E n k))" "within (quietly out) (oscall (shm_destroy E n k))"
    "within (quietly out) (oscall (shm_construct E n k v))" "within (quietly out) (oscall (shm_find_info E n))"
    "within (quietly out) (oscall (shm_construct_info E n i))"
  using assms by (simp_all add: console_law_def quietly_oscall) (cases i, simp add: quietly_oscall)

lemma quiet_client:
  fixes E :: "('w, 't) env"
  assumes "console_law E out"
  shows "within (quietly out) (Client_new E)" "within (quietly out) (Client_delete E c)"
    and "within (quietly out) (PrepareGetGuestInfoClientShm E c n)" "within (quietly out) (GetGuestLists E c)"
    and "within (quietly out) (ListVm E seg)" "within (quietly out) (GetVmInfo E seg)"
  unfolding Client_new_def Client_delete_def PrepareGetGuestInfoClientShm_def GetGuestLists_def construct_strings_def ListVm_def
    GetVmInfo_def open_shm_def find_string_def find_vm_def Let_def
  by (intro quietly.compose quietly.opt quietly.lst quiet_calls [OF assms])+

section \<open>The test at the start of a command\<close>

text \<open>It leaves the server as it is, but for the world that the server sees, and prints nothing.\<close>

lemma IsServerRunning_same:
  fixes y :: "('w, 't) system"
  assumes y: "msg_data (chan y) = None" and run: "IsServerRunning E sc y = (Ret True, z)"
  shows "\<exists>w. srv z = (srv y)\<lparr>world := w\<rparr>" and "srv_alive z \<Longrightarrow> srv_alive y" and "console_law E out \<Longrightarrow> out (world z) = out (world y)"
proof -
  have "with_client E (\<lambda>c. cbind (Notify E sc c kCivMsgTest) (\<lambda>_. cret True)) y = (Ret True, z)"
    using run by (auto simp: IsServerRunning_def ctry_def cret_def split: prod.splits outcome.splits)
  then obtain c b y1 y2 where new: "Client_new E y = (Ret c, y1)" and n: "Notify E sc c kCivMsgTest y1 = (Ret b, y2)"
    and del: "Client_delete E c y2 = (Ret (), z)"
    by (auto simp: with_client_Ret_iff ret_iffs)
  have c1: "client_only y y1" and c2: "client_only y2 z"
    using withinD [OF client_Prepare(4) new] withinD [OF client_Prepare(5) del] .
  then have y1: "msg_data (chan y1) = None" using y by (simp add: client_only_def)
  have mid: "((\<exists>w. srv y2 = (srv y1)\<lparr>world := w\<rparr>) \<and> (srv_alive y2 \<longrightarrow> srv_alive y1)) \<and> world y2 = world y1"
  proof (rule Notify_once [OF y1 _ n])
    fix r
    assume "handled E sc (msg_of c kCivMsgTest) y1 = (Ret r, srv y2)" and w: "srv_alive y1" "world y2 = world (srv y2)"
    then have "srv y2 = (srv y1)\<lparr>world := world y1\<rparr>" by (simp add: handle_msg_def run_simps)
    with w show ?thesis by auto
  qed (auto simp: handle_msg_def run_simps intro: exI [of _ "world (srv y1)"])
  with c1 c2 show "\<exists>w. srv z = (srv y)\<lparr>world := w\<rparr>" "srv_alive z \<Longrightarrow> srv_alive y" by (auto simp: client_only_def)
  show "out (world z) = out (world y)" if "console_law E out"
    using mid withinD [OF quiet_client(1) [OF that] new] withinD [OF quiet_client(2) [OF that] del] by (simp add: quietly_def)
qed

text \<open>A command up to its request: the client has its segment, and the server is the one the command has found.\<close>

lemma command_start:
  fixes y :: "('w, 't) system"
  assumes "system_reach E y" and up: "IsServerRunning E sc y = (Ret True, y1)" and prep: "client_only y1 y2"
  shows "msg_data (chan y2) = None" "\<exists>w. srv y2 = (srv y)\<lparr>world := w\<rparr>" "srv_alive y2 \<longrightarrow> steady (srv y2)"
proof -
  have inv: "system_inv y" by (rule system_reach_inv [OF assms(1)])
  have inv1: "system_inv y1" by (rule IsServerRunning_inv [OF inv up])
  from inv have none: "msg_data (chan y) = None" by (simp add: system_inv_def)
  show "msg_data (chan y2) = None" "\<exists>w. srv y2 = (srv y)\<lparr>world := w\<rparr>" "srv_alive y2 \<longrightarrow> steady (srv y2)"
    using inv1 prep IsServerRunning_same(1) [OF none up] by (auto simp: client_only_def system_inv_def srv_ok_def)
qed

end
