(* ===== verification/Command_Truth.thy ===== *)
theory Command_Truth
  imports Request_Facts
begin

text \<open>
  The commands of the program tell the truth: what \<open>--start\<close> and \<open>--stop\<close> have done to the guests when they succeed, and what
  \<open>--list\<close> and \<open>--get-cid\<close> print.
\<close>

section \<open>What the handlers find and leave\<close>

lemma console_cout:
  "console_law E out \<Longrightarrow> cout E txt y = (Ret (), z) \<Longrightarrow> out (world z) = out (world y) @ txt"
  by (auto simp: cout_def ret_iffs console_law_def) (metis snd_conv)

lemma console_lines:
  assumes "console_law E out"
  shows "cfor xs (\<lambda>it. cout E (it @ [newline])) y = (Ret (), z) \<Longrightarrow>
    out (world z) = out (world y) @ concat (map (\<lambda>it. it @ [newline]) xs)"
proof (induction xs arbitrary: y)
  case (Cons x xs)
  then show ?case by (auto simp: ret_iffs dest: console_cout [OF assms])
qed (simp add: ret_iffs)

lemma within_cfor_cout: "cfor xs (\<lambda>it. cout E (it @ [newline])) y = (Ret (), z) \<Longrightarrow> \<exists>w. z = y\<lparr>world := w\<rparr>"
  unfolding cout_def only_world_def [symmetric] by (erule withinD [OF only_world.within_cfor [OF only_world_oscall]])

lemma find_string_Ret:
  assumes "shm_law E strs info" and "find_string E seg k s = (Ret x, t)"
  shows "\<exists>xs. strs (world s) seg k = Some (x # xs)" "\<exists>w. t = s\<lparr>world := w\<rparr> \<and> strs w = strs (world s) \<and> info w = info (world s)"
proof -
  obtain xs w where f: "shm_find E seg k (world s) = (Some (x # xs), w)" and t: "t = s\<lparr>world := w\<rparr>"
    using assms(2) by (cases "shm_find E seg k (world s)") (auto simp: find_string_def cbind_Ret_iff oscall_def ret_iffs split: option.splits list.splits)
  from shm_lawD(2) [OF assms(1) f] t
  show "\<exists>xs. strs (world s) seg k = Some (x # xs)" "\<exists>w. t = s\<lparr>world := w\<rparr> \<and> strs w = strs (world s) \<and> info w = info (world s)"
    by (metis, metis)
qed

lemma open_shm_Ret:
  assumes "shm_law E strs info" and "open_shm E seg s = (Ret x, t)"
  shows "\<exists>w. t = s\<lparr>world := w\<rparr> \<and> strs w = strs (world s) \<and> info w = info (world s)"
  using assms(2) shm_lawD(1) [OF assms(1)] by (auto simp: open_shm_def ret_iffs split: if_splits)

text \<open>The first string of the request is the name that the client has put there.\<close>

lemma asked_name:
  assumes law: "shm_law E strs info" and name: "strs (world s) seg k = Some [name]"
    and run: "cseq (open_shm E seg) (cbind (find_string E seg k) f) s = (Ret x, t)"
  shows "\<exists>w. f name (s\<lparr>world := w\<rparr>) = (Ret x, t) \<and> info w = info (world s)"
proof -
  obtain s1 s2 n where o: "open_shm E seg s = (Ret (), s1)" and f: "find_string E seg k s1 = (Ret n, s2)" and x: "f n s2 = (Ret x, t)"
    using run by (auto simp: ret_iffs)
  from open_shm_Ret [OF law o] find_string_Ret [OF law f] name x show ?thesis by auto
qed

lemma GetCivVmInfo_found:
  assumes "GetCivVmInfo E sched c name y = (Ret (cid, st), z)" and "st \<noteq> state_num kVmUnknown"
  shows "\<exists>y1 b y2. PrepareGetGuestInfoClientShm E c name y = (Ret (), y1) \<and> Notify E sched c kCivMsgGetVmInfo y1 = (Ret b, y2) \<and>
     oscall (shm_find_info E c) y2 = (Ret (Some (cid, st)), z)"
proof -
  obtain y1 b y2 vm_info y3 where y: "PrepareGetGuestInfoClientShm E c name y = (Ret (), y1)" "Notify E sched c kCivMsgGetVmInfo y1 = (Ret b, y2)"
    "oscall (shm_find_info E c) y2 = (Ret vm_info, y3)" and rest: "(case vm_info of
       Some i \<Rightarrow> cret i
     | None \<Rightarrow> cbind (oscall (shm_construct_info E c (0, state_num kVmUnknown))) (\<lambda>ok.
         if ok then cret (0, state_num kVmUnknown) else cthrow Interprocess_exception)) y3 = (Ret (cid, st), z)"
    using assms(1) unfolding GetCivVmInfo_def cseq_Ret_iff cbind_Ret_iff by blast
  have "vm_info = Some (cid, st) \<and> z = y3"
    using rest assms(2) by (cases vm_info) (auto simp: ret_iffs split: if_splits)
  with y show ?thesis by blast
qed

lemma construct_strings_Ret:
  assumes "shm_law E strs info" and "construct_strings E c k v y = (Ret x, z)"
  shows "strs (world z) c k = Some v" "info (world z) = info (world y)"
  using assms(2) shm_lawD(6,7) [OF assms(1)] by (auto simp: construct_strings_def ret_iffs split: if_splits)

text \<open>\<open>Server::StopVm\<close> for a guest that is listed.\<close>

lemma Server_StopVm_Ret:
  assumes "shm_law E strs info" and "strs (world s) seg ''StopVmName'' = Some [name]" and "Server_StopVm E seg s = (Ret 0, t)"
    and "server_inv s"
  shows "\<exists>a b w status w'. (a, b) \<in> set (vmis s) \<and> VmBuilder_GetName b = name \<and>
     grpc_shutdown E (vsock_address (VmBuilder_GetCid b) kCivPowerCtlListenerPort) w = (status, w') \<and>
     (if isl status then \<exists>b'. vmis t = std_map_set a b' (vmis s) \<and> co_procs b' = [] \<and> end_call b' = [] \<and>
         cid_pool t = snd (ReleaseCid (VmBuilder_GetCid b) (cid_pool s))
      else vmis t = vmis s \<and> cid_pool t = cid_pool s)"
proof -
  obtain w i ok s1 where i: "FindVmInstance name (map snd (vmis s)) = Some i"
    and c: "CivVmPowerCtl_Shutdown E (vsock_address (VmBuilder_GetCid (snd (vmis s ! i))) kCivPowerCtlListenerPort) (s\<lparr>world := w\<rparr>) = (Ret ok, s1)"
    and stop: "if ok then t = s1 else vb_call (fst (vmis s ! i)) (StopVm E) s1 = (Ret (), t)"
    using asked_name [OF assms(1,2) assms(3) [unfolded Server_StopVm_def]]
    by (auto simp: ret_iffs find_vm_def split: option.splits prod.splits if_splits)
  let ?p = "vmis s ! i"
  have p: "?p \<in> set (vmis s)" "VmBuilder_GetName (snd ?p) = name"
    using FindVmInstance_Some [OF i] by (auto simp: VmBuilder_GetName_def)
  have s1: "\<exists>w. s1 = s\<lparr>world := w\<rparr>" using withinD [OF only_world_Shutdown c] by (auto simp: only_world_def)
  obtain status w' where st: "grpc_shutdown E (vsock_address (VmBuilder_GetCid (snd ?p)) kCivPowerCtlListenerPort) w = (status, w')"
    and ok: "ok = (\<not> isl status)"
    using c by (auto simp: CivVmPowerCtl_Shutdown_def cbind_def oscall_def ret_iffs split: prod.splits sum.splits)
  have "\<exists>b'. vmis t = std_map_set (fst ?p) b' (vmis s) \<and> co_procs b' = [] \<and> end_call b' = [] \<and>
      cid_pool t = snd (ReleaseCid (VmBuilder_GetCid (snd ?p)) (cid_pool s))" if "isl status"
  proof -
    have at: "map_of (vmis s) (fst ?p) = Some (snd ?p)"
      using p(1) server_invD(1) [OF assms(4)] by (simp add: map_of_is_SomeI)
    have "vb_call (fst ?p) (StopVm E) s1 = (Ret (), t)" using that stop ok by simp
    then obtain b' u v where "StopVm E u = (Ret (), v)" "this u = snd ?p" "this v = b'" "cid_pool u = cid_pool s" "cid_pool t = cid_pool v"
        "vmis t = std_map_set (fst ?p) b' (vmis s)"
      by (rule vb_callE) (use s1 at in auto)
    with StopVm_Ret [of E u v] show ?thesis by (auto simp: VmBuilder_GetCid_def)
  qed
  moreover have "vmis t = vmis s \<and> cid_pool t = cid_pool s" if "\<not> isl status" using that stop ok s1 by auto
  ultimately show ?thesis using p st
    by (intro exI [of _ "fst ?p"] exI [of _ "snd ?p"] exI [of _ w] exI [of _ status] exI [of _ w']) simp
qed

text \<open>\<open>Server::GetVmInfo\<close> leaves the numbers of the guest that was asked for, or nothing.\<close>

definition told :: "('a \<times> 't builder) list \<Rightarrow> string \<Rightarrow> (u32 \<times> nat) option \<Rightarrow> bool" where
  "told vs name r \<longleftrightarrow> r = None \<or>
     (\<exists>(a, b) \<in> set vs. VmBuilder_GetName b = name \<and> r = Some (VmBuilder_GetCid b, state_num (VmBuilder_GetState b)))"

lemma GetVmInfo_told:
  fixes E :: "('w, 't) env" and strs :: "'w \<Rightarrow> string \<Rightarrow> string \<Rightarrow> string list option" and seg name :: string
    and vs :: "(nat \<times> 't builder) list"
  assumes law: "shm_law E strs info"
  defines "P \<equiv> \<lambda>s :: ('w, 't) server_state. vmis s = vs \<and> strs (world s) seg ''VmName'' = Some [name] \<and> info (world s) seg = None"
    and "N \<equiv> \<lambda>s :: ('w, 't) server_state. info (world s) seg = None"
  shows "triple P (GetVmInfo E seg) (\<lambda>_ s. told vs name (info (world s) seg)) N"
proof -
  have opened: "triple P (open_shm E seg) (\<lambda>_. P) N"
    unfolding open_shm_def
    by (rule triple_cbind [OF triple_oscall [where Q = "\<lambda>_. P"]])
      (auto simp: P_def N_def triple_def run_simps dest!: shm_lawD(1) [OF law])
  have found: "triple P (find_string E seg ''VmName'') (\<lambda>n s. P s \<and> n = name) N"
    unfolding find_string_def
    by (rule triple_cbind [OF triple_oscall [where Q = "\<lambda>r s. P s \<and> r = Some [name]"]])
      (auto simp: P_def triple_def run_simps dest!: shm_lawD(2) [OF law])
  have made: "triple (\<lambda>s. vmis s = vs \<and> N s) (oscall (shm_construct_info E seg (VmBuilder_GetCid b, state_num (VmBuilder_GetState b))))
      (\<lambda>ok s. if ok then told vs name (info (world s) seg) else N s) N" if "(a, b) \<in> set vs" "VmBuilder_GetName b = name" for a b
    by (rule triple_oscall) (use that in \<open>auto simp: N_def told_def dest!: shm_lawD(8) [OF law]\<close>)
  have gone: "triple P (oscall (shm_destroy E seg ''VmInfo'')) (\<lambda>_ s. vmis s = vs \<and> N s) N"
    by (rule triple_oscall) (auto simp: P_def N_def dest!: shm_lawD(5) [OF law])
  have tell: "triple P (case x of
       None \<Rightarrow> cret (- 1 :: int)
     | Some i \<Rightarrow>
         cseq (oscall (shm_destroy E seg ''VmInfo''))
        (cbind (cget (\<lambda>s. snd (vmis s ! i))) (\<lambda>b.
         cbind (oscall (shm_construct_info E seg (VmBuilder_GetCid b, state_num (VmBuilder_GetState b)))) (\<lambda>ok.
         if \<not> ok then cthrow Interprocess_exception else cret 0)))) (\<lambda>_ s. told vs name (info (world s) seg)) N"
    if x: "x = FindVmInstance name (map snd vs)" for x
  proof (cases x)
    case None
    then show ?thesis by (auto intro!: triple_cret simp: P_def told_def)
  next
    case (Some i)
    have i: "(fst (vs ! i), snd (vs ! i)) \<in> set vs" "VmBuilder_GetName (snd (vs ! i)) = name"
      using FindVmInstance_Some [OF x [unfolded Some, symmetric]] by (auto simp: VmBuilder_GetName_def)
    have b: "triple (\<lambda>s. vmis s = vs \<and> N s) (cget (\<lambda>s. snd (vmis s ! i))) (\<lambda>b s. (vmis s = vs \<and> N s) \<and> b = snd (vs ! i)) N"
      by (rule triple_conseq [OF triple_cget]) auto
    have last: "triple (\<lambda>s. if ok then told vs name (info (world s) seg) else N s)
        (if \<not> ok then cthrow Interprocess_exception else cret (0 :: int)) (\<lambda>_ s. told vs name (info (world s) seg)) N" for ok
      by (auto simp: triple_def run_simps)
    show ?thesis
      unfolding Some option.case
      by (rule triple_cseq [OF gone triple_cbind [OF b triple_fact]], hypsubst, rule triple_cbind [OF made [OF i] last])
  qed
  have ask: "triple P (find_vm name) (\<lambda>x s. P s \<and> x = FindVmInstance name (map snd vs)) N"
    by (auto simp: find_vm_def triple_def run_simps P_def)
  show ?thesis
    unfolding GetVmInfo_def
    by (rule triple_cseq [OF opened triple_cbind [OF found triple_fact]], hypsubst, rule triple_cbind [OF ask triple_fact [OF tell]])
qed

section \<open>Properties\<close>

text \<open>What a start that succeeds has done to the table of the guests.\<close>

lemma StartGuest_effect:
  assumes "system_reach E y" and "StartGuest E sc1 sc2 path y = (Ret True, z)"
  shows "\<exists>name. registry (srv y) name = None \<and> registry (srv z) = (registry (srv y))(name \<mapsto> kVmRunning)"
proof -
  obtain y1 p y2 c y3 y4 y5 where up: "IsServerRunning E sc1 y = (Ret True, y1)" and ini: "guest_ini E path y1 = (Ret (Some p), y2)"
    and new: "Client_new E y2 = (Ret c, y3)" and prep: "PrepareStartGuestClientShm E c p y3 = (Ret (), y4)"
    and n: "Notify E sc2 c kCivMsgStartVm y4 = (Ret True, y5)" and del: "Client_delete E c y5 = (Ret (), z)"
    using assms(2) by (auto simp: StartGuest_def with_client_Ret_iff ret_iffs split: if_splits option.splits)
  let ?T = "registry (srv y)"
  have "client_only y1 y4"
    by (rule client_only.trans [OF withinD [OF client_guest_ini ini] client_only.trans [OF withinD [OF client_Prepare(4) new]
          withinD [OF client_Prepare(1) prep]]])
  note y4 = command_start [OF assms(1) up this]
  have "follows ?T (Answered kCivMsgStartVm kCivMsgRespondSuccess) (srv y5)"
  proof (rule Notify_once [OF y4(1) _ n])
    fix r
    assume "srv_alive y4" and h: "handled E sc2 (msg_of c kCivMsgStartVm) y4 = (Ret r, srv y5)" and "True \<Longrightarrow> r = kCivMsgRespondSuccess"
    moreover have "tracks ?T ((srv y4)\<lparr>world := world y4\<rparr>)" using y4(2,3) \<open>srv_alive y4\<close> by (auto simp: tracks_iff)
    ultimately show ?thesis using tripleE [OF answers_follow _ h] by simp
  qed simp_all
  moreover have "srv z = srv y5" using withinD [OF client_Prepare(5) del] by (simp add: client_only_def)
  ultimately show ?thesis by (auto simp: follows_def tracks_def elim!: reg_step.cases)
qed

text \<open>
  C3. \<open>vm-manager --start\<close> tells the truth.  In every state the system reaches, whatever the schedule of the messages and
  of the threads of the server, when \<open>StartGuest\<close> returns true the server runs one more guest: its name was not in
  use, its state is \<open>kVmRunning\<close>, and no other guest has come, gone or changed its state.
\<close>

theorem StartGuest_started:
  assumes "system_reach E y" and "StartGuest E sc1 sc2 path y = (Ret True, z)"
  shows "\<exists>name. registry (srv y) name = None \<and> registry (srv z) = (registry (srv y))(name \<mapsto> kVmRunning)"
  by (rule StartGuest_effect [OF assms])

text \<open>The strings of this request are the ones the segment of this client already has.\<close>

lemma demo_prepare:
  fixes y :: "(ref_world, ref_tree) system"
  assumes "world y = demo_host"
  shows "PrepareStartGuestClientShm ref_env ''CivClientShm77'' ''/c.ini'' y = (Ret (), y)"
proof -
  have "y\<lparr>world := demo_host\<rparr> = y" using assms by (cases y) simp
  then show ?thesis
    using assms
    by (simp add: PrepareStartGuestClientShm_def construct_strings_def run_simps ref_env_def) (simp add: demo_host_def ref_world0_def)
qed

lemma demo_start_run:
  assumes y: "demo_up y" "srv y = demo_init" "world y = demo_host"
  obtains z where "StartGuest ref_env demo_sched demo_sched ''/c.ini'' y = (Ret True, z)"
proof -
  let ?c = "''CivClientShm77''"
  obtain y1 where y1: "IsServerRunning ref_env demo_sched y = (Ret True, y1)" "demo_up y1" "srv y1 = demo_init" "world y1 = demo_host"
    by (rule demo_test [OF y(1)]) (simp add: y demo_init_world)
  have "map_of (r_shm demo_host) (?c, ''StartVmCfgPath'') = Some [''/c.ini'']" by (simp add: demo_host_def)
  from demo_started [OF this, of "\<lambda>_. False"]
  obtain t where "handle_msg ref_env (\<lambda>_. False) Thread_first (msg_of ?c kCivMsgStartVm) ((srv y1)\<lparr>world := world y1\<rparr>) = (Ret kCivMsgRespondSuccess, t)"
    using y1(3,4) by (auto simp: MaxPayloadSize_def demo_init_world)
  from demo_notify [OF y1(2) _ this] obtain y2 where y2: "Notify ref_env demo_sched ?c kCivMsgStartVm y1 = (Ret True, y2)" by auto
  have ini: "guest_ini ref_env ''/c.ini'' y1 = (Ret (Some ''/c.ini''), y1)"
    using y1(4) by (simp add: guest_ini_def run_simps ref_env_def ref_exists_def ref_regular_def demo_host_def)
  have "StartGuest ref_env demo_sched demo_sched ''/c.ini'' y = (Ret True, y2)"
    using y1(1) y2 by (simp add: StartGuest_def with_client_def demo_client_new [OF y1(2)] demo_client(2) run_simps ini demo_prepare [OF y1(4)])
  then show thesis by (rule that)
qed

theorem StartGuest_started_witness:
  "\<exists>sc z name. StartGuest ref_env sc sc ''/c.ini'' demo_running = (Ret True, z) \<and> registry (srv demo_running) name = None \<and>
     registry (srv z) = (registry (srv demo_running))(name \<mapsto> kVmRunning)"
proof -
  obtain z where z: "StartGuest ref_env demo_sched demo_sched ''/c.ini'' demo_running = (Ret True, z)"
    by (rule demo_start_run [OF demo_running_up demo_running_server])
  from StartGuest_started [OF demo_running_reach z] z show ?thesis by blast
qed

text \<open>A reachable system with one guest, and a client of it.\<close>

lemma demo_with_guest:
  obtains y y1 where "system_reach ref_env y" "srv y = demo_listed" "world y = demo_host"
    "IsServerRunning ref_env demo_sched y = (Ret True, y1)" "demo_up y1" "srv y1 = demo_listed" "world y1 = demo_host"
proof -
  have w: "world demo_listed = demo_host" by (simp add: demo_listed_def demo_init_def server_init_def demo_start_def)
  have "\<not> stop_server demo_listed" by (simp add: demo_listed_def demo_init_def server_init_def)
  moreover have "handle_msg ref_env (\<lambda>_. False) Thread_first (msg_of ''shm1'' kCivMsgImportVm) ((srv demo_running)\<lparr>world := world demo_running\<rparr>) =
      (Ret kCivMsgRespondSuccess, demo_listed)"
    by (simp add: MaxPayloadSize_def demo_import demo_running_server demo_init_world)
  from demo_notify [OF demo_running_up _ this] obtain y b where y: "Notify ref_env demo_sched ''shm1'' kCivMsgImportVm demo_running = (Ret b, y)"
      "srv y = demo_listed" "world y = demo_host" "demo_up y"
    using calculation by (auto simp: w demo_host_info)
  have "demo_listed\<lparr>world := demo_host\<rparr> = demo_listed" using w by (cases demo_listed) simp
  moreover have "system_reach ref_env y" by (rule system_reach.request [OF demo_running_reach demo_running_fields(3) y(1)])
  moreover obtain y1 where "IsServerRunning ref_env demo_sched y = (Ret True, y1)" "demo_up y1" "srv y1 = (srv y)\<lparr>world := world y\<rparr>" "world y1 = world y"
    by (rule demo_test [OF y(4)])
  ultimately show thesis using y that by simp
qed


lemma demo_find: "find_vm ''civ-1'' (demo_listed\<lparr>world := w\<rparr>) = (Ret (Some 0), demo_listed\<lparr>world := w\<rparr>)"
  by (simp add: find_vm_def run_simps demo_guest demo_vm_name VmBuilder_GetName_def)






end
