(* ===== verification/Main_Truth.thy ===== *)
theory Main_Truth
  imports Command_Truth
begin

text \<open>
  The whole program: from the arguments of \<open>main\<close> through the start of a server, when there is none, to the request and the exit code.
\<close>

section \<open>What a client does to a reachable system\<close>

definition outside_only :: "('w, 't) system \<Rightarrow> ('w, 't) system \<Rightarrow> bool" where
  "outside_only y z \<longleftrightarrow> (\<exists>w p. z = y\<lparr>world := w, civ_config_path := p\<rparr>)"

interpretation outside_only: config_frame outside_only
proof
  fix s t u :: "('w, 't) system"
  show "outside_only s s" unfolding outside_only_def by (rule exI [of _ "world s"], rule exI [of _ "civ_config_path s"]) simp
  show "outside_only s u" if "outside_only s t" "outside_only t u"
  proof -
    from that obtain w p w' p' where "u = s\<lparr>world := w, civ_config_path := p\<rparr>\<lparr>world := w', civ_config_path := p'\<rparr>"
      by (auto simp: outside_only_def simp del: os_state.update_convs)
    then have "u = s\<lparr>world := w', civ_config_path := p'\<rparr>" by simp
    then show ?thesis unfolding outside_only_def by (intro exI)
  qed
  show "outside_only s (s\<lparr>world := w\<rparr>)" for w
    unfolding outside_only_def by (rule exI [of _ w], rule exI [of _ "civ_config_path s"]) simp
  show "outside_only s (s\<lparr>civ_config_path := p\<rparr>)" for p
    unfolding outside_only_def by (rule exI [of _ "world s"], rule exI [of _ p]) simp
qed

text \<open>
  \<open>goes_on T P y\<close>: the system is reachable and, when \<open>P\<close> says that other processes have left it alone, the table of its guests is
  still \<open>T\<close>.
\<close>

definition goes_on :: "('w, 't) env \<Rightarrow> bool \<Rightarrow> registry \<Rightarrow> ('w, 't) system \<Rightarrow> bool" where
  "goes_on E alone T y \<longleftrightarrow> system_reach E y \<and> (alone \<longrightarrow> registry (srv y) = T)"

lemma goes_on_outside: "goes_on E alone T y \<Longrightarrow> outside_only y z \<Longrightarrow> goes_on E alone T z"
  by (auto simp: goes_on_def outside_only_def intro: system_reach.outside)

lemma goes_on_keep: "within outside_only m \<Longrightarrow> hoare (goes_on E alone T) m (\<lambda>_. goes_on E alone T)"
  by (erule triple_within) (auto intro: goes_on_outside)

lemma outside_host: "within only_world m \<Longrightarrow> hoare (goes_on E alone T) m (\<lambda>_. goes_on E alone T)"
  by (rule goes_on_keep [OF outside_only.host])

lemma goes_on_test:
  fixes E :: "('w, 't) env"
  shows "hoare (goes_on E alone T) (IsServerRunning E sc) (\<lambda>_. goes_on E alone T)"
proof (rule tripleI)
  fix y z :: "('w, 't) system" and b
  assume y: "goes_on E alone T y" and run: "IsServerRunning E sc y = (Ret b, z)"
  have inv: "system_inv y" using y system_reach_inv [of E y] by (simp add: goes_on_def)
  have new: "goes_on E alone T y1" if "Client_new E y = (r, y1)" for r y1
    by (rule goes_on_outside [OF y withinD [OF outside_only.host [OF Client_new_world] that]])
  from inv run show "goes_on E alone T z"
  proof (cases rule: IsServerRunning_run)
    case (refused r)
    then show ?thesis by (simp add: new)
  next
    case (asked c y1 b' y2)
    have "chan_named y1" using asked(1) by (auto simp: Client_new_def Let_def ret_iffs split: if_splits)
    then have "system_reach E y2" using new [OF asked(1)] asked(2) by (auto simp: goes_on_def intro: system_reach.request)
    moreover obtain w where "z = y2\<lparr>world := w\<rparr>" using withinD [OF Client_delete_world asked(3)] by (auto simp: only_world_def)
    ultimately have "system_reach E z" using system_reach.outside [where y = y2 and w = w and p = "civ_config_path y2"] by simp
    moreover have "registry (srv z) = registry (srv y)"
      using IsServerRunning_same(1) [of y E sc z] inv run asked(4) by (auto simp: system_inv_def)
    ultimately show ?thesis using y by (simp add: goes_on_def)
  qed
qed

section \<open>Finding or starting a server\<close>

text \<open>Other processes move through reachable states.\<close>

definition others_ok :: "('w, 't) env \<Rightarrow> ('w, 't) run_env \<Rightarrow> bool" where
  "others_ok E R \<longleftrightarrow> (\<forall>n u. system_reach E u \<longrightarrow> system_reach E (others R n u))"

definition left_alone :: "('w, 't) run_env \<Rightarrow> bool" where
  "left_alone R \<longleftrightarrow> (\<forall>n u. others R n u = u)"

lemma goes_on_others:
  "others_ok E R \<Longrightarrow> hoare (goes_on E (left_alone R) T) (cmodify (others R n)) (\<lambda>_. goes_on E (left_alone R) T)"
  by (rule triple_modify) (auto simp: goes_on_def others_ok_def left_alone_def)

lemma goes_on_wait:
  assumes "others_ok E R"
  shows "hoare (goes_on E (left_alone R) T) (wait_server E R left n) (\<lambda>_. goes_on E (left_alone R) T)"
proof (induction left arbitrary: n)
  case 0
  show ?case by (simp add: goes_on_test)
next
  case (Suc left)
  show ?case
    unfolding wait_server.simps
    by (rule triple_cbind [OF goes_on_test], rule triple_if [OF triple_cret], assumption,
        rule triple_cseq [OF outside_host [OF only_world_oscall] triple_cseq [OF goes_on_others [OF assms] Suc]])
qed

lemma goes_on_ensure:
  assumes "others_ok E R"
  shows "hoare (goes_on E (left_alone R) T) (ensure_server E R arg0) (\<lambda>_. goes_on E (left_alone R) T)"
  unfolding ensure_server_def
  by (rule triple_cbind [OF goes_on_test], rule triple_if [OF triple_cret], assumption,
      rule triple_cbind [OF outside_host [OF only_world_oscall]], rule triple_cbind [OF outside_host],
      intro only_world.within_if only_world.within_cret only_world_oscall,
      rule triple_cbind [OF outside_host [OF only_world_oscall_throw]], rule triple_if [OF triple_cret], assumption,
      rule goes_on_wait [OF assms])

lemma main_Ret_0:
  assumes "\<not> (length argv = 2 \<and> argv ! 1 = ''--afl-fuzz'')" and "main E R argv y = (Ret 0, z)"
  shows "\<exists>p y1 d. GetConfigPath E y = (Ret p, y1) \<and> ParseOptions E R argv y1 = (Ret d, z) \<and> (d = process_end.Exited 0 \<or> d = Returned True)"
proof -
  let ?body = "cbind (GetConfigPath E) (\<lambda>p. if p = None then cret (- 1 :: int) else
       cbind (ParseOptions E R argv) (\<lambda>d. case d of process_end.Exited code \<Rightarrow> cret code | Returned ok \<Rightarrow> cret (if ok then 0 else - 1)))"
  have "?body y = (Ret 0, z)"
    by (rule ctry_Ret [OF assms(2) [unfolded main_def if_not_P [OF assms(1)] cret_cbind]]) (simp add: ret_iffs)
  then obtain p y1 where cfg: "GetConfigPath E y = (Ret p, y1)" and "(if p = None then cret (- 1 :: int) else
       cbind (ParseOptions E R argv) (\<lambda>d. case d of process_end.Exited code \<Rightarrow> cret code | Returned ok \<Rightarrow> cret (if ok then 0 else - 1))) y1 = (Ret 0, z)"
    unfolding cbind_Ret_iff [of "GetConfigPath E"] by blast
  then have "cbind (ParseOptions E R argv) (\<lambda>d. case d of process_end.Exited code \<Rightarrow> cret code | Returned ok \<Rightarrow> cret (if ok then 0 else - 1)) y1 =
      (Ret 0, z)"
    by (cases p) (simp_all add: ret_iffs del: cbind_Ret_iff)
  then obtain d y2 where parse: "ParseOptions E R argv y1 = (Ret d, y2)"
    and d: "(case d of process_end.Exited code \<Rightarrow> cret code | Returned ok \<Rightarrow> cret (if ok then 0 else - 1)) y2 = (Ret (0 :: int), z)"
    unfolding cbind_Ret_iff by blast
  then have d: "d = process_end.Exited 0 \<or> d = Returned True" and z: "y2 = z"
    by (cases d; auto simp: ret_iffs split: if_splits)+
  with cfg parse show ?thesis by blast
qed

section \<open>Properties\<close>

text \<open>
  C2. The exit code of \<open>vm-manager -b\<close>, from \<open>main\<close> to the server.  When the option is \<open>--start\<close> and the program exits with 0, whether it
  has found a server or has started one, and whatever other processes have done while it waited, a server runs one guest more
  than when the request was sent; when nobody interfered those are the guests at the start of the program.
\<close>

theorem main_start:
  assumes "system_reach E y" and "others_ok E R" and "po_parse E cmdline_options argv = Inr [(''start'', path)]"
    and "\<not> (length argv = 2 \<and> argv ! 1 = ''--afl-fuzz'')" and "main E R argv y = (Ret 0, z)"
  shows "\<exists>u name. system_reach E u \<and> (left_alone R \<longrightarrow> registry (srv u) = registry (srv y)) \<and>
    registry (srv u) name = None \<and> registry (srv z) = (registry (srv u))(name \<mapsto> kVmRunning)"
proof -
  obtain p y1 d where cfg: "GetConfigPath E y = (Ret p, y1)" and parse: "ParseOptions E R argv y1 = (Ret d, z)"
    and d: "d = process_end.Exited 0 \<or> d = Returned True"
    using main_Ret_0 [OF assms(4,5)] by blast
  from parse have "(case argv of [] \<Rightarrow> ccrash | arg0 # _ \<Rightarrow>
      cbind (ensure_server E R arg0) (\<lambda>up. if \<not> up then cret (Returned False) else
      cbind (run_command E R [(''start'', path)]) (\<lambda>ok. cret (Returned ok)))) y1 = (Ret d, z)"
    unfolding ParseOptions_def assms(3) by simp
  with d obtain arg0 u where up: "ensure_server E R arg0 y1 = (Ret True, u)" and run: "run_command E R [(''start'', path)] u = (Ret True, z)"
    by (cases argv) (auto simp: ret_iffs split: if_splits)
  let ?T = "registry (srv y)"
  have "goes_on E (left_alone R) ?T y" using assms(1) by (simp add: goes_on_def)
  from tripleE [OF goes_on_ensure [OF assms(2)] goes_on_outside [OF this withinD [OF outside_only.GetConfigPath cfg]] up]
  have u: "system_reach E u" "left_alone R \<longrightarrow> registry (srv u) = ?T" by (simp_all add: goes_on_def)
  from run have "StartGuest E (scheds R 200) (scheds R 201) path u = (Ret True, z)" by (simp add: run_command_def Let_def)
  from StartGuest_effect [OF u(1) this] u show ?thesis by blast
qed

theorem main_start_witness:
  "\<exists>R z name. main ref_env R [''vm-manager'', ''-b'', ''/c.ini''] demo_running = (Ret 0, z) \<and>
     registry (srv z) = (registry (srv demo_running))(name \<mapsto> kVmRunning)"
proof -
  let ?R = "\<lparr>scheds = (\<lambda>_. demo_sched), others = (\<lambda>_ u. u), ui_events = [], seg_ok = True, build_text = []\<rparr> :: (ref_world, ref_tree) run_env"
  let ?argv = "[''vm-manager'', ''-b'', ''/c.ini'']"
  have R: "others_ok ref_env ?R" "left_alone ?R" by (simp_all add: others_ok_def left_alone_def)
  have parse: "po_parse ref_env cmdline_options ?argv = Inr [(''start'', ''/c.ini'')]" by (simp add: ref_env_def)
  obtain y1 where y1: "IsServerRunning ref_env demo_sched demo_running = (Ret True, y1)" "demo_up y1" "srv y1 = demo_init" "world y1 = demo_host"
    by (rule demo_test [OF demo_running_up]) (simp add: demo_running_server demo_init_world)
  obtain z where st: "StartGuest ref_env demo_sched demo_sched ''/c.ini'' y1 = (Ret True, z)" by (rule demo_start_run [OF y1(2-4)])
  have "civ_config_path demo_running = Some ''/civ''"
    by (simp add: demo_running_def demo_system_def Server_Start_sync_def Server_Start_open_def loop_head_def setup_fields Let_def)
  note cfg = GetConfigPath_cached [OF this, of ref_env]
  have "ParseOptions ref_env ?R ?argv demo_running = (Ret (Returned True), z)"
    by (simp add: ParseOptions_def parse ensure_server_def run_command_def run_simps y1(1) st)
  then have z: "main ref_env ?R ?argv demo_running = (Ret 0, z)"
    by (simp add: main_def run_simps cfg)
  from main_start [OF demo_running_reach R(1) parse _ z] R(2)
  obtain name where "registry (srv z) = (registry (srv demo_running))(name \<mapsto> kVmRunning)" by auto
  with z show ?thesis by blast
qed

end
