(* ===== verification/Cid_Accounts.thy ===== *)
theory Cid_Accounts
  imports Server_Reach
begin

text \<open>
  The context ids of a running server: which bits of the pool are taken, in every state the server reaches.
\<close>

section \<open>The accounts\<close>

definition cids :: "('w, 't) server_state \<Rightarrow> u32 list" where
  "cids s = map (vsock_cid \<circ> snd) (vmis s)"

definition pool_less :: "bitset \<Rightarrow> u32 list \<Rightarrow> bitset" where
  "pool_less p cs = (\<lambda>i. p i \<and> i \<notin> unat ` set cs)"

definition cid_inv :: "bitset \<Rightarrow> ('w, 't) server_state \<Rightarrow> bool" where
  "cid_inv p s \<longleftrightarrow> distinct (cids s) \<and> set (cids s) \<subseteq> free_cids p \<and> cid_pool s = pool_less p (cids s)"

lemma pool_less_snoc: "pool_less p (cs @ [c]) = (pool_less p cs)(unat c := False)"
  by (rule ext) (auto simp: pool_less_def)

lemma inj_unat: "inj (unat :: u32 \<Rightarrow> nat)"
  by (rule injI) (simp add: word_unat_eq_iff)

lemma pool_less_free: "c \<in> free_cids (pool_less p cs) \<longleftrightarrow> c \<in> free_cids p \<and> c \<notin> set cs"
  by (auto simp: free_cids_unat pool_less_def inj_image_mem_iff [OF inj_unat])

lemma pool_less_erase:
  assumes "distinct cs" and "i < length cs"
  shows "pool_less p cs = (pool_less p (erase_at i cs))(unat (cs ! i) := False)"
proof -
  have "set cs = insert (cs ! i) (set (erase_at i cs))" using assms by (auto simp: set_erase_at)
  then show ?thesis by (intro ext) (auto simp: pool_less_def)
qed

lemma cid_inv_other: "cids t = cids s \<Longrightarrow> cid_pool t = cid_pool s \<Longrightarrow> cid_inv p t = cid_inv p s"
  by (simp add: cid_inv_def)

section \<open>Every step keeps them\<close>

interpretation run_cid: run_frame keep_cid
  by unfold_locales (auto simp: keep_cid_def)

lemma vb_call_cids:
  assumes run: "vb_call a m s = (Ret x, t)" and m: "within keep_cid m" and inv: "server_inv s"
  shows "cid_inv p t = cid_inv p s"
proof -
  obtain b b' u v where b: "map_of (vmis s) a = Some b" and uv: "m u = (Ret x, v)" "this u = b" "this v = b'"
    and p: "cid_pool u = cid_pool s" "cid_pool t = cid_pool v" and vs: "vmis t = std_map_set a b' (vmis s)"
    using run by (rule vb_callE)
  have k: "vsock_cid b' = vsock_cid b" "cid_pool v = cid_pool u" using withinD [OF m uv(1)] uv by (auto simp: keep_cid_def)
  have "cids t = cids s" unfolding cids_def vs by (rule std_map_set_names [OF b k(1) server_invD(1) [OF inv]])
  then show ?thesis by (rule cid_inv_other) (simp add: p k(2))
qed

lemma build_vm_cids:
  assumes "cid_inv p s" and "build_vm E name c s = (Ret r, t)"
  shows "cid_inv p t"
proof (cases r)
  case None
  with build_vm_Ret [OF assms(2)] have "vmis t = vmis s" "cid_pool t = cid_pool s" by (auto simp: globals_only_def)
  with assms(1) show ?thesis by (simp add: cid_inv_def cids_def)
next
  case (Some a)
  with build_vm_Ret [OF assms(2)] obtain b where "vsock_cid b \<in> free_cids (cid_pool s)"
    "cid_pool t = (cid_pool s)(unat (vsock_cid b) := False)" and vs: "vmis t = vmis s @ [(a, b)]"
    by auto
  moreover from vs have "cids t = cids s @ [vsock_cid b]" by (simp add: cids_def)
  ultimately show ?thesis using assms(1) by (auto simp: cid_inv_def pool_less_snoc pool_less_free)
qed

lemma obj_deleteE:
  assumes "obj_delete E b s = (Ret (), t)"
  obtains u v where "this u = b" "cid_pool u = cid_pool s" "VmBuilderQemu_delete E u = (Ret (), v)" "cid_pool t = cid_pool v"
proof -
  let ?u = "\<lparr>world = world s, civ_config_path = civ_config_path s, cid_pool = cid_pool s, socketPath = socketPath s, this = b\<rparr>"
  obtain r v where v: "VmBuilderQemu_delete E ?u = (r, v)" by (cases "VmBuilderQemu_delete E ?u")
  with assms show thesis by (intro that [of ?u v]) (auto simp: obj_delete_def obj_run_def)
qed

lemma DeleteVmInstance_cids:
  assumes inv: "cid_inv p s" and run: "DeleteVmInstance E name s = (Ret (), t)"
  shows "cid_inv p t"
proof (cases "FindVmInstance name (map snd (vmis s))")
  case None
  with DeleteVmInstance_Ret [OF run] inv show ?thesis by simp
next
  case (Some i)
  let ?b = "snd (vmis s ! i)" and ?s = "s\<lparr>vmis := erase_at i (vmis s)\<rparr>"
  have d: "obj_delete E ?b ?s = (Ret (), t)" and i: "i < length (vmis s)" and "globals_only ?s t"
    using DeleteVmInstance_Ret [OF run] Some by simp_all
  then have vs: "cids t = erase_at i (cids s)" by (simp add: globals_only_def cids_def map_erase_at)
  from d obtain u v where u: "this u = ?b" "cid_pool u = cid_pool s" and v: "VmBuilderQemu_delete E u = (Ret (), v)" "cid_pool t = cid_pool v"
    by (rule obj_deleteE) simp
  have ci: "i < length (cids s)" "cids s ! i = vsock_cid ?b" using i by (simp_all add: cids_def)
  have "cids s ! i \<notin> set (erase_at i (cids s))" using inv ci(1) by (auto simp: cid_inv_def set_erase_at)
  moreover have "cids s ! i \<in> free_cids p" using inv ci(1) nth_mem unfolding cid_inv_def by blast
  ultimately have "cid_of (pool_less p (cids t)) u"
    using inv ci pool_less_erase [of "cids s" i p] unfolding cid_of_def u vs by (simp add: cid_inv_def pool_less_free)
  from delete_releases [OF this v(1)] v(2) have "cid_pool t = pool_less p (cids t)" by simp
  with inv show ?thesis unfolding cid_inv_def vs using set_erase_at_subset [of i "cids s"] by (auto simp: distinct_erase_at)
qed

text \<open>A shutdown request that is delivered leaves the emulator to exit by itself: \<open>StopVm\<close> does not touch the guest.\<close>

definition shutdown_works :: "('w, 't) env \<Rightarrow> bool" where
  "shutdown_works E \<longleftrightarrow> (\<forall>addr w. fst (grpc_shutdown E addr w) = Inr ())"

lemma Shutdown_works:
  assumes "shutdown_works E" and "CivVmPowerCtl_Shutdown E addr s = (Ret ok, t)"
  shows "ok"
proof -
  obtain st w where g: "grpc_shutdown E addr (world s) = (st, w)" by (cases "grpc_shutdown E addr (world s)")
  then have "st = Inr ()" using assms(1) unfolding shutdown_works_def by (metis fst_conv)
  with g assms(2) show ?thesis by (simp add: CivVmPowerCtl_Shutdown_def run_simps)
qed

definition cid_account :: "('w, 't) env \<Rightarrow> bitset \<Rightarrow> ('w, 't) server_state \<Rightarrow> bool" where
  "cid_account E p s \<longleftrightarrow> server_inv s \<and> (shutdown_works E \<longrightarrow> cid_inv p s)"

lemma cid_account_same:
  assumes "cid_account E p s" and "server_inv t" and "vmis t = vmis s" and "cid_pool t = cid_pool s"
  shows "cid_account E p t"
  using assms by (simp add: cid_account_def cid_inv_def cids_def)

lemma cid_account_world [simp]: "cid_account E p (s\<lparr>world := w\<rparr>) = cid_account E p s"
  by (simp add: cid_account_def cid_inv_def cids_def)

lemma cid_account_call:
  assumes "cid_account E p s" and "server_inv t" and "vb_call a m s = (Ret x, t)" and "within keep_cid m"
  shows "cid_account E p t"
  using assms vb_call_cids [OF assms(3,4)] by (simp add: cid_account_def)

lemma cid_account_StopVm:
  fixes E :: "('w, 't) env"
  shows "hoare (cid_account E p) (Server_StopVm E seg) (\<lambda>_. cid_account E p)"
proof (cases "shutdown_works E")
  case True
  have host: "hoare (cid_account E p) m (\<lambda>_. cid_account E p)" if "within only_world m" for m :: "('w, 't, 'a) server_op"
    by (rule triple_within [OF that]) (auto simp: only_world_def)
  have ask: "hoare (cid_account E p) (CivVmPowerCtl_Shutdown E addr) (\<lambda>ok s. cid_account E p s \<and> ok)" for addr
    by (rule tripleI) (use Shutdown_works [OF True] tripleE [OF host [OF only_world_Shutdown]] in blast)
  have stop: "hoare (\<lambda>s. cid_account E p s \<and> ok) (cseq (cwhen (\<not> ok) m) (cret x)) (\<lambda>_. cid_account E p)" for ok m x
    by (rule tripleI) (cases ok; simp add: run_simps)
  show ?thesis
    unfolding Server_StopVm_def
    by (rule triple_cseq [OF host [OF only_world_shm(1)] triple_cbind [OF host [OF only_world_shm(2)] triple_cbind [OF find_keeps]]],
        rule opt_keeps [OF triple_cret], assumption, rule triple_cbind [OF cget_keeps], rule triple_case_prod,
        rule triple_cbind [OF ask stop])
next
  case False
  then have "cid_account E p = server_inv" by (auto simp: cid_account_def)
  then show ?thesis using base.stops by simp
qed

interpretation account: server_pred E "cid_account E p" for E :: "('w, 't) env" and p
proof unfold_locales
  fix s :: "('w, 't) server_state"
  assume s: "cid_account E p s"
  show inv: "server_inv s" using s by (simp add: cid_account_def)
  note same = cid_account_same [OF s] and call = cid_account_call [OF s]
  show "cid_account E p (s\<lparr>world := w\<rparr>)" for w by (rule same [OF base.host [OF inv]]) simp_all
  show "cid_account E p (s\<lparr>listening := b\<rparr>)" for b by (rule same [OF base.listens [OF inv]]) simp_all
  show "cid_account E p (s\<lparr>stop_server := True\<rparr>)" by (rule same [OF base.flagged [OF inv]]) simp_all
  show "cid_account E p (s\<lparr>vm_threads := removeAll a (vm_threads s)\<rparr>)" for a by (rule same [OF base.quits [OF inv]]) simp_all
  show "cid_account E p (s\<lparr>listener := AddPendingVM cid (Some a) (listener s)\<rparr>)" if "guest a started s" for cid a
    by (rule same [OF base.pending [OF inv that]]) simp_all
  show "cid_account E p (s\<lparr>listener := l\<rparr>)" if "VmReady peer (listener s) = (st, cb, l)" for peer st cb l
    by (rule same [OF base.called [OF inv that]]) simp_all
  show "cid_account E p (s\<lparr>vm_threads := a # vm_threads s\<rparr>)" if "guest a started s" for a
    by (rule same [OF base.waits [OF inv that]]) simp_all
  show "cid_account E p t" if "no_guest name s" "build_vm E name c s = (Ret r, t)" for name c r t
    using s build_vm_cids [OF _ that(2)] base.builds [OF inv that] by (simp add: cid_account_def)
  show "cid_account E p t" if "vb_call a (SetProcessEnv e) s = (Ret (), t)" for a e t
    by (rule call [OF base.envs [OF inv that] that run_cid.life_SetProcessEnv])
  show "cid_account E p t" if "guest a created s" "vb_call a (StartVm E) s = (Ret (), t)" for a t
    by (rule call [OF base.starts [OF inv that] that(2) run_cid.life_StartVm])
  show "cid_account E p t" if "guest a started s" "vb_call a SetVmReady s = (Ret (), t)" for a t
    by (rule call [OF base.readies [OF inv that] that(2) run_cid.life_SetVmReady])
  show "cid_account E p t" if "DeleteVmInstance E name s = (Ret (), t)"
    "\<And>i. FindVmInstance name (map snd (vmis s)) = Some i \<Longrightarrow> fst (vmis s ! i) \<notin> set (vm_threads s)" for name t
    using s DeleteVmInstance_cids [OF _ that(1)] base.deletes [OF inv that] by (simp add: cid_account_def)
qed (rule cid_account_StopVm)

section \<open>Properties\<close>

text \<open>
  C6. The context ids of a server.  As long as the shutdown calls of the guests are delivered, in every state the server
  reaches over any sequence of messages, exits and ready calls, no two listed guests share a context id, each
  has one that was free at the start, and the pool is the one the server started with less exactly those ids.
\<close>

theorem server_cids_exact:
  assumes "server_reach E g s" and "\<forall>addr w. fst (grpc_shutdown E addr w) = Inr ()"
  shows "distinct (map (VmBuilder_GetCid \<circ> snd) (vmis s)) \<and>
    (\<forall>(a, b) \<in> set (vmis s). VmBuilder_GetCid b \<in> free_cids (cid_pool g)) \<and>
    (\<forall>i. cid_pool s i \<longleftrightarrow> cid_pool g i \<and> (\<forall>(a, b) \<in> set (vmis s). unat (VmBuilder_GetCid b) \<noteq> i))"
proof -
  have "cid_account E (cid_pool g) s"
    by (rule account.reachable [OF assms(1)])
      (simp add: server_init_def cid_account_def cid_inv_def cids_def pool_less_def server_inv_def called_back_def)
  then have "cid_inv (cid_pool g) s" using assms(2) by (simp add: cid_account_def shutdown_works_def)
  then show ?thesis by (force simp: cid_inv_def cids_def pool_less_def VmBuilder_GetCid_def comp_def)
qed

theorem server_cids_exact_witness:
  "\<exists>c. map (VmBuilder_GetCid \<circ> snd) (vmis demo_listed) = [c] \<and> c \<in> free_cids initial_bs \<and> \<not> cid_pool demo_listed (unat c)"
proof -
  have r: "server_reach ref_env demo_start demo_listed"
    by (rule reach_message [OF server_reach.start [OF demo_setup] demo_import])
  have "\<forall>addr w. fst (grpc_shutdown ref_env addr w) = Inr ()" by (simp add: ref_env_def)
  from server_cids_exact [OF r this] show ?thesis by (simp add: demo_listed_def demo_start_def)
qed

end
