(* ===== verification/Tui_Facts.thy ===== *)
theory Tui_Facts
  imports Civ_Tui
begin

text \<open>
  What the form of theory \<open>Civ_Tui\<close> writes and what the other components read back from it.
\<close>

section \<open>The options of a form\<close>

text \<open>
  What a theorem may assume of \<open>boost::property_tree\<close>: \<open>put\<close> under a group and a key that contain no dot succeeds, adds that
  group and key, sets the value that \<open>get\<close> finds there, and leaves other values; a cleared tree has neither
  sections nor values.
\<close>

definition no_dot :: "string \<Rightarrow> bool" where
  "no_dot s \<longleftrightarrow> CHR ''.'' \<notin> set s"

definition ptree_law :: "('w, 't) env \<Rightarrow> bool" where
  "ptree_law E \<longleftrightarrow>
     pt_sections E (pt_clear E) = [] \<and> (\<forall>p. pt_get E (pt_clear E) p = None) \<and>
     (\<forall>t g k v. no_dot g \<and> no_dot k \<longrightarrow>
       (\<exists>t'. pt_put E t (g @ ''.'' @ k) v = Some t' \<and>
          fst ` set (pt_sections E t') = insert g (fst ` set (pt_sections E t)) \<and>
          options_of E t' = insert (g, k) (options_of E t) \<and>
          pt_get E t' (g @ ''.'' @ k) = Some v \<and>
          (\<forall>g' k'. no_dot g' \<and> no_dot k' \<and> (g', k') \<noteq> (g, k) \<longrightarrow> pt_get E t' (g' @ ''.'' @ k') = pt_get E t (g' @ ''.'' @ k'))))"

lemma SetValue_law:
  assumes "ptree_law E" and "no_dot g" "no_dot k" and "v \<noteq> []"
  shows "fst ` set (pt_sections E (cfg_data (snd (SetValue E g k v c)))) = insert g (fst ` set (pt_sections E (cfg_data c)))"
    and "options_of E (cfg_data (snd (SetValue E g k v c))) = insert (g, k) (options_of E (cfg_data c))"
    and "GetValue E (snd (SetValue E g k v c)) g k = trim E v"
    and "no_dot g' \<Longrightarrow> no_dot k' \<Longrightarrow> (g', k') \<noteq> (g, k) \<Longrightarrow>
      GetValue E (snd (SetValue E g k v c)) g' k' = GetValue E c g' k'"
proof -
  obtain t' where t': "pt_put E (cfg_data c) (g @ ''.'' @ k) v = Some t'"
    "fst ` set (pt_sections E t') = insert g (fst ` set (pt_sections E (cfg_data c)))"
    "options_of E t' = insert (g, k) (options_of E (cfg_data c))" "pt_get E t' (g @ ''.'' @ k) = Some v"
    "\<forall>g' k'. no_dot g' \<and> no_dot k' \<and> (g', k') \<noteq> (g, k) \<longrightarrow> pt_get E t' (g' @ ''.'' @ k') = pt_get E (cfg_data c) (g' @ ''.'' @ k')"
    using assms(1-3) unfolding ptree_law_def by blast
  have c: "snd (SetValue E g k v c) = c\<lparr>cfg_data := t'\<rparr>" using t'(1) assms(4) by (simp add: SetValue_def)
  show "fst ` set (pt_sections E (cfg_data (snd (SetValue E g k v c)))) = insert g (fst ` set (pt_sections E (cfg_data c)))"
    "options_of E (cfg_data (snd (SetValue E g k v c))) = insert (g, k) (options_of E (cfg_data c))"
    "GetValue E (snd (SetValue E g k v c)) g k = trim E v"
    using t' by (simp_all add: c GetValue_def)
  show "GetValue E (snd (SetValue E g k v c)) g' k' = GetValue E c g' k'" if "no_dot g'" "no_dot k'" "(g', k') \<noteq> (g, k)"
    using t'(5) that by (simp add: c GetValue_def)
qed

lemma SetValue_empty: "snd (SetValue E g k [] c) = c"
  by (simp add: SetValue_def)

text \<open>Settings in groups and under keys of the table.\<close>

definition valid_setting :: "setting \<Rightarrow> bool" where
  "valid_setting x = (case x of (g, k, v) \<Rightarrow> no_dot g \<and> no_dot k \<and> g \<in> fst ` set kConfigMap \<and> (g, k) \<in> valid_options)"

definition setting_key :: "setting \<Rightarrow> string \<times> string" where
  "setting_key x = (fst x, fst (snd x))"

lemma set_all_Cons: "set_all E (x # xs) c = set_all E xs (snd (SetValue E (fst x) (fst (snd x)) (snd (snd x)) c))"
  by (simp add: set_all_def case_prod_unfold)

lemma set_all_keys:
  assumes "ptree_law E" and "\<forall>x\<in>set xs. valid_setting x" and "SanitizeOpts E c"
  shows "SanitizeOpts E (set_all E xs c)"
  using assms(2,3)
proof (induction xs arbitrary: c)
  case (Cons x xs)
  obtain g k v where x: "x = (g, k, v)" by (cases x)
  have ok: "no_dot g" "no_dot k" "g \<in> fst ` set kConfigMap" "(g, k) \<in> valid_options"
    using Cons.prems(1) by (simp_all add: x valid_setting_def)
  have "SanitizeOpts E (snd (SetValue E g k v c))"
  proof (cases "v = []")
    case False
    with Cons.prems(2) ok show ?thesis
      by (simp add: sanitize_sets SetValue_law [OF assms(1) ok(1,2)])
  qed (use Cons.prems(2) in \<open>simp add: SetValue_empty\<close>)
  with Cons show ?case by (simp add: set_all_Cons x)
qed (simp add: set_all_def)

lemma set_all_other:
  assumes "ptree_law E" and "\<forall>x\<in>set xs. valid_setting x" and "no_dot g" "no_dot k" and "(g, k) \<notin> setting_key ` set xs"
  shows "GetValue E (set_all E xs c) g k = GetValue E c g k"
  using assms(2,5)
proof (induction xs arbitrary: c)
  case (Cons x xs)
  obtain g' k' v' where x: "x = (g', k', v')" by (cases x)
  have "GetValue E (snd (SetValue E g' k' v' c)) g k = GetValue E c g k"
  proof (cases "v' = []")
    case False
    have "no_dot g'" "no_dot k'" "(g, k) \<noteq> (g', k')" using Cons.prems by (auto simp: x valid_setting_def setting_key_def)
    then show ?thesis using SetValue_law(4) [OF assms(1) _ _ False assms(3,4)] by simp
  qed (simp add: SetValue_empty)
  with Cons show ?case by (simp add: set_all_Cons x)
qed (simp add: set_all_def)

text \<open>Every setting is read back.\<close>

lemma set_all_values:
  assumes "ptree_law E" and "\<forall>x\<in>set xs. valid_setting x" and "distinct (map setting_key xs)"
    and "(g, k, v) \<in> set xs"
  shows "GetValue E (set_all E xs c) g k = (if v = [] then GetValue E c g k else trim E v)"
  using assms(2-4)
proof (induction xs arbitrary: c)
  case (Cons x xs)
  show ?case
  proof (cases "x = (g, k, v)")
    case True
    have ok: "no_dot g" "no_dot k" "(g, k) \<notin> setting_key ` set xs"
      using Cons.prems(1,2) by (auto simp: True valid_setting_def setting_key_def)
    have "GetValue E (snd (SetValue E g k v c)) g k = (if v = [] then GetValue E c g k else trim E v)"
      using SetValue_law(3) [OF assms(1) ok(1,2)] by (simp add: SetValue_empty)
    then show ?thesis using set_all_other [OF assms(1) _ ok] Cons.prems(1) by (simp add: set_all_Cons True)
  next
    case False
    with Cons.prems have mem: "(g, k, v) \<in> set xs" by auto
    obtain g' k' v' where x: "x = (g', k', v')" by (cases x)
    have ok: "no_dot g" "no_dot k" "no_dot g'" "no_dot k'" using Cons.prems(1) mem by (auto simp: x valid_setting_def)
    have "(g', k') \<noteq> (g, k)" using Cons.prems(2) mem by (force simp: x setting_key_def)
    then have "GetValue E (snd (SetValue E g' k' v' c)) g k = GetValue E c g k"
      using SetValue_law(4) [OF assms(1) ok(3,4) _ ok(1,2)] by (cases "v' = []") (auto simp: SetValue_empty)
    with Cons mem show ?thesis by (simp add: set_all_Cons x)
  qed
qed simp

text \<open>The settings of a form whose selections are entries of the menus.\<close>

definition vgpu_settings_of :: "civ_tui \<Rightarrow> setting list" where
  "vgpu_settings_of f = (if vgpu_selected f = 3 then
     (kGroupVgpu, kVgpuGvtgVer, gvtg_ver f ! gvtg_ver_selected f) #
       (if gvtg_uuid f \<noteq> [] then [(kGroupVgpu, kVgpuUuid, gvtg_uuid f)] else [])
     else [])"

definition settings_of :: "civ_tui \<Rightarrow> setting list" where
  "settings_of f = form_settings f (firmware_type f ! firmware_type_selected f) (vgpu_type f ! vgpu_selected f) (vgpu_settings_of f)"

lemma SetConfToPtree_Ret: "SetConfToPtree E f c0 s = (Ret c, t) \<Longrightarrow> c = set_all E (settings_of f) c0 \<and> t = s"
  by (auto simp: SetConfToPtree_def settings_of_def vgpu_settings_of_def vec_at_def ret_iffs split: if_splits)

text \<open>The options a form may set, in the order of the calls, and which of them the selections leave out.\<close>

definition form_keys :: "(string \<times> string) list" where
  "form_keys = [(kGroupGlob, kGlobName), (kGroupGlob, kGlobFlashfiles), (kGroupEmul, kEmulPath), (kGroupMem, kMemSize), (kGroupVcpu, kVcpuNum), (kGroupDisk, kDiskSize), (kGroupDisk, kDiskPath), (kGroupFirm, kFirmType), (kGroupFirm, kFirmPath), (kGroupFirm, kFirmCode), (kGroupFirm, kFirmVars), (kGroupVgpu, kVgpuType), (kGroupVgpu, kVgpuGvtgVer), (kGroupVgpu, kVgpuUuid), (kGroupVtpm, kVtpmBinPath), (kGroupVtpm, kVtpmDataDir), (kGroupRpmb, kVtpmBinPath), (kGroupRpmb, kVtpmDataDir), (kGroupPciPt, kPciPtDev), (kGroupNet, kNetAdbPort), (kGroupNet, kNetFastbootPort), (kGroupMed, kMedBattery), (kGroupMed, kMedThermal), (kGroupAaf, kAafPath), (kGroupService, kServTimeKeep), (kGroupService, kServPmCtrl), (kGroupExtra, kExtraCmd)]"

definition key_set :: "civ_tui \<Rightarrow> string \<times> string \<Rightarrow> bool" where
  "key_set f x \<longleftrightarrow>
     (x = (kGroupFirm, kFirmPath) \<longrightarrow> firmware_type_selected f = 0) \<and>
     (x = (kGroupFirm, kFirmCode) \<longrightarrow> firmware_type_selected f = 1) \<and>
     (x = (kGroupFirm, kFirmVars) \<longrightarrow> firmware_type_selected f = 1) \<and>
     (x = (kGroupVgpu, kVgpuGvtgVer) \<longrightarrow> vgpu_selected f = 3) \<and>
     (x = (kGroupVgpu, kVgpuUuid) \<longrightarrow> vgpu_selected f = 3 \<and> gvtg_uuid f \<noteq> [])"

lemma form_keys_distinct: "distinct form_keys"
  by (simp add: form_keys_def)

lemma form_keys_valid: "list_all (\<lambda>(g, k). no_dot g \<and> no_dot k \<and> (case map_of kConfigMap g of None \<Rightarrow> False | Some ks \<Rightarrow> k \<in> set ks)) form_keys"
  by (simp add: form_keys_def kConfigMap_def no_dot_def)

lemma settings_keys: "map setting_key (settings_of f) = filter (key_set f) form_keys"
  by (simp add: settings_of_def form_settings_def firmware_settings_def vgpu_settings_of_def setting_key_def form_keys_def key_set_def)

lemma settings_distinct: "distinct (map setting_key (settings_of f))"
  by (simp add: settings_keys form_keys_distinct)

lemma settings_valid:
  assumes "x \<in> set (settings_of f)"
  shows "valid_setting x"
proof -
  have "setting_key x \<in> set (map setting_key (settings_of f))" using assms by simp
  then have "setting_key x \<in> set form_keys" unfolding settings_keys by simp
  with form_keys_valid have "case setting_key x of (g, k) \<Rightarrow>
      no_dot g \<and> no_dot k \<and> (case map_of kConfigMap g of None \<Rightarrow> False | Some ks \<Rightarrow> k \<in> set ks)"
    by (auto simp: list_all_iff)
  then show ?thesis
    by (cases x) (force simp: valid_setting_def setting_key_def valid_options_def map_of_kConfigMap_iff split: option.splits)
qed

section \<open>The devices of a form\<close>

abbreviation first_word :: "string \<Rightarrow> string" where
  "first_word \<equiv> takeWhile (\<lambda>c. c \<noteq> CHR '' '')"

lemma passthrough_of_word:
  "CHR '' '' \<in> set item \<Longrightarrow>
     passthrough_of (item # items) = first_word item @ (if items \<noteq> [] then CHR '','' # passthrough_of items else [])"
  by (simp add: str_find_def takeWhile_eq_take [symmetric])

lemma squeeze_word: "d \<notin> set w \<Longrightarrow> squeeze_chars d (w @ s) = w @ squeeze_chars d s"
proof (induction w)
  case (Cons a w)
  then show ?case by (cases "w @ s") auto
qed simp

lemma squeeze_sep: "s \<noteq> [] \<Longrightarrow> hd s \<noteq> d \<Longrightarrow> squeeze_chars d (d # s) = d # squeeze_chars d s"
  by (cases s) simp_all

text \<open>A line of \<open>lspci -D\<close>: an address without commas, a space, a description.\<close>

definition pci_line :: "string \<Rightarrow> bool" where
  "pci_line l \<longleftrightarrow> CHR '' '' \<in> set l \<and> first_word l \<noteq> [] \<and> CHR '','' \<notin> set (first_word l)"

lemma passthrough_of_hd:
  assumes "pci_line l"
  shows "passthrough_of (l # ls) \<noteq> []" and "hd (passthrough_of (l # ls)) \<noteq> CHR '',''"
proof -
  have l: "CHR '' '' \<in> set l" "first_word l \<noteq> []" "CHR '','' \<notin> set (first_word l)" using assms by (simp_all add: pci_line_def)
  show "passthrough_of (l # ls) \<noteq> []" using l(2) unfolding passthrough_of_word [OF l(1)] by simp
  have "hd (first_word l) \<in> set (first_word l)" using l(2) by (rule hd_in_set)
  then show "hd (passthrough_of (l # ls)) \<noteq> CHR '',''" using l(2,3) unfolding passthrough_of_word [OF l(1)] by (metis hd_append2)
qed

lemma passthrough_split:
  assumes "\<forall>l\<in>set ls. pci_line l" and "ls \<noteq> []"
  shows "split_chars (CHR '','') (squeeze_chars (CHR '','') (passthrough_of ls)) = map first_word ls"
  using assms
proof (induction ls)
  case (Cons l ls)
  have l: "CHR '' '' \<in> set l" "CHR '','' \<notin> set (first_word l)" using Cons.prems(1) by (simp_all add: pci_line_def)
  note word = passthrough_of_word [OF l(1), of ls]
  show ?case
  proof (cases ls)
    case Nil
    then have "passthrough_of (l # ls) = first_word l" using word by simp
    then show ?thesis using squeeze_word [OF l(2), of "[]"] split_chars_none [OF l(2)] Nil by simp
  next
    case (Cons l' ls')
    have p: "passthrough_of ls \<noteq> []" "hd (passthrough_of ls) \<noteq> CHR '',''"
      using passthrough_of_hd [of l' ls'] Cons Cons.prems(1) by simp_all
    have "passthrough_of (l # ls) = first_word l @ CHR '','' # passthrough_of ls" using word Cons by simp
    then have "squeeze_chars (CHR '','') (passthrough_of (l # ls)) = first_word l @ CHR '','' # squeeze_chars (CHR '','') (passthrough_of ls)"
      using squeeze_word [OF l(2)] squeeze_sep [OF p] by simp
    then have "split_chars (CHR '','') (squeeze_chars (CHR '','') (passthrough_of (l # ls))) =
        first_word l # split_chars (CHR '','') (squeeze_chars (CHR '','') (passthrough_of ls))"
      using split_chars_first [OF l(2)] by simp
    also have "\<dots> = map first_word (l # ls)" using Cons.IH Cons.prems(1) Cons by simp
    finally show ?thesis .
  qed
qed simp

section \<open>Properties\<close>


lemma takeWhile_dot: "no_dot g \<Longrightarrow> takeWhile (\<lambda>c. c \<noteq> CHR ''.'') (g @ ''.'' @ k) = g"
  by (induction g) (auto simp: no_dot_def)

lemma dot_inject: "no_dot g \<Longrightarrow> no_dot g' \<Longrightarrow> g @ ''.'' @ k = g' @ ''.'' @ k' \<Longrightarrow> g = g' \<and> k = k'"
proof -
  assume nd: "no_dot g" "no_dot g'" and e: "g @ ''.'' @ k = g' @ ''.'' @ k'"
  have "g = g'" using takeWhile_dot [OF nd(1), of k] takeWhile_dot [OF nd(2), of k'] e by simp
  with e show ?thesis by simp
qed

lemma ref_ptree_law: "ptree_law ref_env"
proof -
  have "\<exists>t'. pt_put ref_env t (g @ ''.'' @ k) v = Some t' \<and>
      fst ` set (pt_sections ref_env t') = insert g (fst ` set (pt_sections ref_env t)) \<and>
      options_of ref_env t' = insert (g, k) (options_of ref_env t) \<and> pt_get ref_env t' (g @ ''.'' @ k) = Some v \<and>
      (\<forall>g' k'. no_dot g' \<and> no_dot k' \<and> (g', k') \<noteq> (g, k) \<longrightarrow>
        pt_get ref_env t' (g' @ ''.'' @ k') = pt_get ref_env t (g' @ ''.'' @ k'))"
    if nd: "no_dot g" "no_dot k" for t g k v
  proof -
    have "takeWhile (\<lambda>c. c \<noteq> CHR ''.'') (g @ ''.'' @ k) = g" by (rule takeWhile_dot [OF nd(1)])
    then have put: "pt_put ref_env t (g @ ''.'' @ k) v = Some ((g, [(k, v)]) # t)" by (simp add: ref_env_def Let_def)
    have opt: "options_of ref_env ((g, [(k, v)]) # t) = insert (g, k) (options_of ref_env t)"
      by (auto simp: options_of_def ref_env_def)
    have get: "pt_get ref_env ((g, [(k, v)]) # t) p = (if p = g @ ''.'' @ k then Some v else pt_get ref_env t p)" for p
      by (simp add: ref_env_def ref_get_def)
    have sec: "fst ` set (pt_sections ref_env ((g, [(k, v)]) # t)) = insert g (fst ` set (pt_sections ref_env t))"
      by (simp add: ref_env_def)
    have other: "pt_get ref_env ((g, [(k, v)]) # t) (g' @ ''.'' @ k') = pt_get ref_env t (g' @ ''.'' @ k')"
      if "no_dot g' \<and> no_dot k' \<and> (g', k') \<noteq> (g, k)" for g' k'
      unfolding get using dot_inject [of g' g k' k] nd(1) that by (metis prod.inject)
    have own: "pt_get ref_env ((g, [(k, v)]) # t) (g @ ''.'' @ k) = Some v" unfolding get by (rule if_P [OF HOL.refl])
    show ?thesis by (intro exI [of _ "(g, [(k, v)]) # t"] conjI allI impI put sec opt own) (rule other)
  qed
  then show ?thesis
    unfolding ptree_law_def by (auto simp: ref_env_def ref_get_def)
qed

definition demo_form :: civ_tui where
  "demo_form = InitCompVgpu (InitCompFirm (civ_tui_new\<lparr>filename := ''civ-1'', memory := '' 4G '', vgpu_selected := 3\<rparr>))"




end
