(* ===== verification/Tui_Layout.thy ===== *)
theory Tui_Layout
  imports Tui_Facts
begin

text \<open>
  The layout of the form (src/guest/tui.cc): the tree of components that the program hands to ftxui.  A component is kept as
  the call that makes it; what ftxui does with the tree is described by the hypotheses \<open>ftxui_law\<close>.
\<close>

section \<open>Components\<close>

datatype direction = WIDTH | HEIGHT
datatype constraint = LESS_THAN | EQUAL | GREATER_THAN
datatype decorator = Size direction constraint nat | Frame | Vscroll_indicator | Center | Border
datatype button = Devices | Save | Exit

text \<open>
  The functions of ftxui that the program calls.  \<open>Renderer c e\<close> is \<open>Renderer(c, [&]{ return e; })\<close>: the component takes
  the events, the element says what is drawn; texts are read from the form whenever it is drawn.  \<open>Render c\<close> is
  \<open>c->Render()\<close>.
\<close>

datatype component =
    Input input_field string
  | Toggle menu
  | Dropdown menu
  | Menu menu
  | Checkbox nat
  | Button "civ_tui \<Rightarrow> string" button
  | Vertical "component list"
  | Horizontal "component list"
  | Tab "component list" "civ_tui \<Rightarrow> nat"
  | Renderer component element
  | Renderer_el element
and element =
    emptyElement
  | Txt "civ_tui \<Rightarrow> string"
  | Hbox "element list"
  | Vbox "element list"
  | Window element element
  | Decorated element decorator
  | Render component

abbreviation txt_of :: "string \<Rightarrow> element" where
  "txt_of s \<equiv> Txt (\<lambda>_. s)"

definition input_Get :: "input_field \<Rightarrow> component" where
  "input_Get x = (let input = Input x (field_hint x) in
     Renderer input (Hbox [Hbox [Decorated (txt_of (field_name x)) (Size WIDTH EQUAL 18), txt_of '': ''], Render input]))"

definition InitName :: "string \<Rightarrow> component" where
  "InitName name = Renderer_el (Hbox [Hbox [Decorated (txt_of ''name'') (Size WIDTH EQUAL 18), txt_of '': '', txt_of name]])"

definition cdisk :: component where
  "cdisk = Renderer (Vertical [input_Get F_disk_size, input_Get F_disk_path])
     (Window (txt_of ''disk:'') (Vbox [Render (input_Get F_disk_size), Render (input_Get F_disk_path)]))"

definition cfirm_inner :: component where
  "cfirm_inner = Vertical [Toggle Firmware_type,
     Tab [input_Get F_firm_unified, Vertical [input_Get F_firm_splited_code, input_Get F_firm_splited_data]] firmware_type_selected]"

definition cfirm :: component where
  "cfirm = Renderer cfirm_inner (Window (txt_of ''firmware: '') (Render cfirm_inner))"

definition cvgpu_type :: component where
  "cvgpu_type = Dropdown Vgpu_type"

definition cgvtg_sub :: component where
  "cgvtg_sub = Vertical [Dropdown Gvtg_ver, input_Get F_gvtg_uuid]"

definition cvgpu_side :: component where
  "cvgpu_side = Tab [Renderer_el emptyElement, Renderer_el emptyElement, Renderer_el emptyElement, cgvtg_sub,
     Renderer_el emptyElement] vgpu_selected"

definition cvgpu :: component where
  "cvgpu = Renderer (Horizontal [cvgpu_type, cvgpu_side])
     (Window (txt_of ''graphics: '') (Hbox [Render cvgpu_type, Render cvgpu_side]))"

definition cswtpm :: component where
  "cswtpm = Renderer (Vertical [input_Get F_swtpm_bin, input_Get F_swtpm_data])
     (Window (txt_of ''swtpm:'') (Vbox [Render (input_Get F_swtpm_bin), Render (input_Get F_swtpm_data)]))"

definition crpmb :: component where
  "crpmb = Renderer (Vertical [input_Get F_rpmb_bin, input_Get F_rpmb_data])
     (Window (txt_of ''rpmb:'') (Vbox [Render (input_Get F_rpmb_bin), Render (input_Get F_rpmb_data)]))"

text \<open>The device list, for the number of check boxes: the button, and either the chosen devices or the check boxes.\<close>

definition cpt_inner_left_btn :: component where
  "cpt_inner_left_btn = Button pt_btn_lable Devices"

definition cpt_inner_right_edit :: "nat \<Rightarrow> component" where
  "cpt_inner_right_edit n = Vertical (map Checkbox [0..<n])"

definition cpt_inner_right_disp :: component where
  "cpt_inner_right_disp = Menu Pt_pci_disp"

definition cpt_inner_right :: "nat \<Rightarrow> component" where
  "cpt_inner_right n = Tab [cpt_inner_right_disp, cpt_inner_right_edit n] pt_pci_tab_id"

definition cpt_inner :: "nat \<Rightarrow> component" where
  "cpt_inner n = Renderer (Horizontal [cpt_inner_left_btn, cpt_inner_right n])
     (Hbox [Vbox [Decorated (Render cpt_inner_left_btn) Center,
        Decorated (Txt (\<lambda>f. to_string (int (length (pt_pci_disp f))) @ '' Slected'')) Center],
      Decorated (Decorated (Render (cpt_inner_right n)) Frame) Vscroll_indicator])"

definition cpt :: "nat \<Rightarrow> component" where
  "cpt n = Renderer (cpt_inner n)
     (Decorated (Window (txt_of ''PCI Devices to Passthrough'') (Render (cpt_inner n))) (Size HEIGHT LESS_THAN 6))"

definition form :: "string \<Rightarrow> nat \<Rightarrow> component" where
  "form name n = Vertical
     [InitName name, input_Get F_flashfiles, input_Get F_emulator, input_Get F_memory, input_Get F_vcpu, cdisk, cfirm, cvgpu,
      cswtpm, crpmb, cpt n, input_Get F_adb_port, input_Get F_fastboot_port, input_Get F_batt_med, input_Get F_therm_med,
      input_Get F_aaf, input_Get F_tkeep, input_Get F_pmctl, input_Get F_extra]"

definition form_render :: "string \<Rightarrow> nat \<Rightarrow> component" where
  "form_render name n = Renderer (form name n) (Decorated (Decorated (Vbox [Render (form name n)]) Frame) Vscroll_indicator)"

definition buttons :: component where
  "buttons = Horizontal [Button (\<lambda>_. ''SAVE'') Save, Button (\<lambda>_. ''EXIT'') Exit]"

definition LAYOUT_MIN_WIDTH :: nat where "LAYOUT_MIN_WIDTH = 60"

definition layout :: "string \<Rightarrow> nat \<Rightarrow> component" where
  "layout name n = Vertical [form_render name n, buttons]"

definition layout_render :: "string \<Rightarrow> nat \<Rightarrow> component" where
  "layout_render name n = Renderer (layout name n)
     (Decorated (Decorated (Decorated (Decorated
        (Vbox [txt_of ''Celadon in VM Configuration'',
           Decorated (Vbox [Decorated (Render (form_render name n)) Vscroll_indicator]) Border,
           Txt status_bar,
           Decorated (Render buttons) Center])
        Border) (Size WIDTH GREATER_THAN LAYOUT_MIN_WIDTH)) (Size HEIGHT LESS_THAN 80)) Center)"

section \<open>What ftxui does with a layout\<close>

text \<open>
  The controls of a layout.  \<open>routes c f\<close>: the controls below \<open>c\<close> that can get the focus and take input, \<open>draws e f\<close>: the
  controls drawn by \<open>e\<close>, in a form \<open>f\<close>.  A vertical or horizontal container leads to all its children and a tab to the
  selected one; a renderer passes input to its component and draws its element; decorations change neither.
\<close>

datatype control = C_input input_field | C_menu menu | C_checkbox nat | C_button button

primrec control_of :: "component \<Rightarrow> control option" where
  "control_of (Input x h) = Some (C_input x)"
| "control_of (Toggle m) = Some (C_menu m)"
| "control_of (Dropdown m) = Some (C_menu m)"
| "control_of (Menu m) = Some (C_menu m)"
| "control_of (Checkbox i) = Some (C_checkbox i)"
| "control_of (Button l b) = Some (C_button b)"
| "control_of (Vertical cs) = None"
| "control_of (Horizontal cs) = None"
| "control_of (Tab cs sel) = None"
| "control_of (Renderer c e) = None"
| "control_of (Renderer_el e) = None"

definition ftxui_law :: "(component \<Rightarrow> civ_tui \<Rightarrow> control list) \<Rightarrow> (element \<Rightarrow> civ_tui \<Rightarrow> control list) \<Rightarrow> bool" where
  "ftxui_law routes draws \<longleftrightarrow>
     (\<forall>c x f. control_of c = Some x \<longrightarrow> routes c f = [x] \<and> draws (Render c) f = [x]) \<and>
     (\<forall>cs f. routes (Vertical cs) f = concat (map (\<lambda>c. routes c f) cs)) \<and>
     (\<forall>cs f. routes (Horizontal cs) f = concat (map (\<lambda>c. routes c f) cs)) \<and>
     (\<forall>cs sel f. sel f < length cs \<longrightarrow> routes (Tab cs sel) f = routes (cs ! sel f) f) \<and>
     (\<forall>c e f. routes (Renderer c e) f = routes c f) \<and>
     (\<forall>e f. routes (Renderer_el e) f = []) \<and>
     (\<forall>cs f. draws (Render (Vertical cs)) f = concat (map (\<lambda>c. draws (Render c) f) cs)) \<and>
     (\<forall>cs f. draws (Render (Horizontal cs)) f = concat (map (\<lambda>c. draws (Render c) f) cs)) \<and>
     (\<forall>cs sel f. sel f < length cs \<longrightarrow> draws (Render (Tab cs sel)) f = draws (Render (cs ! sel f)) f) \<and>
     (\<forall>c e f. draws (Render (Renderer c e)) f = draws e f) \<and>
     (\<forall>e f. draws (Render (Renderer_el e)) f = draws e f) \<and>
     (\<forall>f. draws emptyElement f = []) \<and> (\<forall>t f. draws (Txt t) f = []) \<and>
     (\<forall>es f. draws (Hbox es) f = concat (map (\<lambda>e. draws e f) es)) \<and>
     (\<forall>es f. draws (Vbox es) f = concat (map (\<lambda>e. draws e f) es)) \<and>
     (\<forall>t e f. draws (Window t e) f = draws t f @ draws e f) \<and>
     (\<forall>e d f. draws (Decorated e d) f = draws e f)"

text \<open>A library that does exactly this.\<close>

definition tab :: "'a list list \<Rightarrow> nat \<Rightarrow> 'a list" where
  "tab xss i = (if i < length xss then xss ! i else [])"

primrec ref_routes :: "component \<Rightarrow> civ_tui \<Rightarrow> control list" where
  "ref_routes (Input x h) = (\<lambda>f. [C_input x])"
| "ref_routes (Toggle m) = (\<lambda>f. [C_menu m])"
| "ref_routes (Dropdown m) = (\<lambda>f. [C_menu m])"
| "ref_routes (Menu m) = (\<lambda>f. [C_menu m])"
| "ref_routes (Checkbox i) = (\<lambda>f. [C_checkbox i])"
| "ref_routes (Button l b) = (\<lambda>f. [C_button b])"
| "ref_routes (Vertical cs) = (\<lambda>f. concat (map (\<lambda>r. r f) (map ref_routes cs)))"
| "ref_routes (Horizontal cs) = (\<lambda>f. concat (map (\<lambda>r. r f) (map ref_routes cs)))"
| "ref_routes (Tab cs sel) = (\<lambda>f. tab (map (\<lambda>r. r f) (map ref_routes cs)) (sel f))"
| "ref_routes (Renderer c e) = ref_routes c"
| "ref_routes (Renderer_el e) = (\<lambda>f. [])"

primrec ref_shows :: "component \<Rightarrow> civ_tui \<Rightarrow> control list" and ref_draws :: "element \<Rightarrow> civ_tui \<Rightarrow> control list" where
  "ref_shows (Input x h) = (\<lambda>f. [C_input x])"
| "ref_shows (Toggle m) = (\<lambda>f. [C_menu m])"
| "ref_shows (Dropdown m) = (\<lambda>f. [C_menu m])"
| "ref_shows (Menu m) = (\<lambda>f. [C_menu m])"
| "ref_shows (Checkbox i) = (\<lambda>f. [C_checkbox i])"
| "ref_shows (Button l b) = (\<lambda>f. [C_button b])"
| "ref_shows (Vertical cs) = (\<lambda>f. concat (map (\<lambda>r. r f) (map ref_shows cs)))"
| "ref_shows (Horizontal cs) = (\<lambda>f. concat (map (\<lambda>r. r f) (map ref_shows cs)))"
| "ref_shows (Tab cs sel) = (\<lambda>f. tab (map (\<lambda>r. r f) (map ref_shows cs)) (sel f))"
| "ref_shows (Renderer c e) = ref_draws e"
| "ref_shows (Renderer_el e) = ref_draws e"
| "ref_draws emptyElement = (\<lambda>f. [])"
| "ref_draws (Txt t) = (\<lambda>f. [])"
| "ref_draws (Hbox es) = (\<lambda>f. concat (map (\<lambda>r. r f) (map ref_draws es)))"
| "ref_draws (Vbox es) = (\<lambda>f. concat (map (\<lambda>r. r f) (map ref_draws es)))"
| "ref_draws (Window t e) = (\<lambda>f. ref_draws t f @ ref_draws e f)"
| "ref_draws (Decorated e d) = ref_draws e"
| "ref_draws (Render c) = ref_shows c"

lemma ref_ftxui_law: "ftxui_law ref_routes ref_draws"
proof -
  have "ref_routes c f = [x] \<and> ref_draws (Render c) f = [x]" if "control_of c = Some x" for c x f
    using that by (cases c) simp_all
  then show ?thesis unfolding ftxui_law_def by (simp add: tab_def comp_def)
qed

section \<open>Forms of a session\<close>

text \<open>The lists have their entries, and the selections are entries.\<close>

definition form_ok :: "civ_tui \<Rightarrow> bool" where
  "form_ok f \<longleftrightarrow> firmware_type f = [kFirmUnified, kFirmSplited] \<and>
     vgpu_type f = [kVgpuNone, kVgpuVirtio, kVgpuRamfb, kVgpuGvtG, kVgpuGvtD] \<and>
     gvtg_ver f = [kGvtgV51, kGvtgV52, kGvtgV54, kGvtgV58] \<and>
     firmware_type_selected f < 2 \<and> vgpu_selected f < 5 \<and> gvtg_ver_selected f < 4 \<and> pt_pci_tab_id f < 2"

lemma ftxui_controls:
  assumes "ftxui_law routes draws"
  shows "routes (Input x h) f = [C_input x]" "routes (Toggle m) f = [C_menu m]" "routes (Dropdown m) f = [C_menu m]"
    "routes (Menu m) f = [C_menu m]" "routes (Checkbox i) f = [C_checkbox i]" "routes (Button l b) f = [C_button b]"
    "draws (Render (Input x h)) f = [C_input x]" "draws (Render (Toggle m)) f = [C_menu m]"
    "draws (Render (Dropdown m)) f = [C_menu m]" "draws (Render (Menu m)) f = [C_menu m]"
    "draws (Render (Checkbox i)) f = [C_checkbox i]" "draws (Render (Button l b)) f = [C_button b]"
proof -
  have ctl: "routes c f = [y]" "draws (Render c) f = [y]" if "control_of c = Some y" for c y
    using assms that by (simp_all add: ftxui_law_def)
  show "routes (Input x h) f = [C_input x]" "routes (Toggle m) f = [C_menu m]" "routes (Dropdown m) f = [C_menu m]"
    "routes (Menu m) f = [C_menu m]" "routes (Checkbox i) f = [C_checkbox i]" "routes (Button l b) f = [C_button b]"
    "draws (Render (Input x h)) f = [C_input x]" "draws (Render (Toggle m)) f = [C_menu m]"
    "draws (Render (Dropdown m)) f = [C_menu m]" "draws (Render (Menu m)) f = [C_menu m]"
    "draws (Render (Checkbox i)) f = [C_checkbox i]" "draws (Render (Button l b)) f = [C_button b]"
    by (rule ctl, simp)+
qed

lemma ftxui_nodes:
  assumes "ftxui_law routes draws"
  shows "routes (Vertical cs) f = concat (map (\<lambda>c. routes c f) cs)" "routes (Horizontal cs) f = concat (map (\<lambda>c. routes c f) cs)"
    "routes (Renderer c e) f = routes c f" "routes (Renderer_el e) f = []"
    "sel f < length cs \<Longrightarrow> routes (Tab cs sel) f = routes (cs ! sel f) f"
    "draws (Render (Vertical cs)) f = concat (map (\<lambda>c. draws (Render c) f) cs)"
    "draws (Render (Horizontal cs)) f = concat (map (\<lambda>c. draws (Render c) f) cs)"
    "sel f < length cs \<Longrightarrow> draws (Render (Tab cs sel)) f = draws (Render (cs ! sel f)) f"
    "draws (Render (Renderer c e)) f = draws e f" "draws (Render (Renderer_el e)) f = draws e f"
    "draws emptyElement f = []" "draws (Txt t) f = []" "draws (Hbox es) f = concat (map (\<lambda>e. draws e f) es)"
    "draws (Vbox es) f = concat (map (\<lambda>e. draws e f) es)" "draws (Window e e') f = draws e f @ draws e' f"
    "draws (Decorated e d) f = draws e f"
  using assms by (simp_all add: ftxui_law_def)

lemmas layout_defs =
  layout_render_def layout_def buttons_def form_render_def form_def InitName_def cdisk_def cfirm_def cfirm_inner_def cvgpu_def
  cvgpu_type_def cgvtg_sub_def cswtpm_def crpmb_def cpt_def cpt_inner_def cpt_inner_left_btn_def
  cpt_inner_right_edit_def cpt_inner_right_disp_def input_Get_def

text \<open>The tabs: what they lead to.\<close>

lemma tab_two:
  assumes "ftxui_law routes draws" and "sel f < 2"
  shows "routes (Tab [c, d] sel) f = (if sel f = 0 then routes c f else routes d f)"
    and "draws (Render (Tab [c, d] sel)) f = (if sel f = 0 then draws (Render c) f else draws (Render d) f)"
  using assms(2) ftxui_nodes(5,8) [OF assms(1), of sel f "[c, d]"] by (auto simp: less_2_cases_iff)

lemma tab_vgpu:
  assumes "ftxui_law routes draws" and "vgpu_selected f < 5"
  shows "routes cvgpu_side f = (if vgpu_selected f = 3 then routes cgvtg_sub f else [])"
    and "draws (Render cvgpu_side) f = (if vgpu_selected f = 3 then draws (Render cgvtg_sub) f else [])"
proof -
  have "vgpu_selected f \<in> {0, 1, 2, 3, 4}" using assms(2) by auto
  then show "routes cvgpu_side f = (if vgpu_selected f = 3 then routes cgvtg_sub f else [])"
    "draws (Render cvgpu_side) f = (if vgpu_selected f = 3 then draws (Render cgvtg_sub) f else [])"
    by (auto simp: cvgpu_side_def ftxui_nodes [OF assms(1)])
qed

lemma layout_controls:
  assumes law: "ftxui_law routes draws" and f: "form_ok f"
  shows "routes (layout_render name n) f =
      map C_input [F_flashfiles, F_emulator, F_memory, F_vcpu, F_disk_size, F_disk_path] @
      C_menu Firmware_type # map C_input (if firmware_type_selected f = 0 then [F_firm_unified] else [F_firm_splited_code, F_firm_splited_data]) @
      C_menu Vgpu_type # (if vgpu_selected f = 3 then [C_menu Gvtg_ver, C_input F_gvtg_uuid] else []) @
      map C_input [F_swtpm_bin, F_swtpm_data, F_rpmb_bin, F_rpmb_data] @
      C_button Devices # (if pt_pci_tab_id f = 0 then [C_menu Pt_pci_disp] else map C_checkbox [0..<n]) @
      map C_input [F_adb_port, F_fastboot_port, F_batt_med, F_therm_med, F_aaf, F_tkeep, F_pmctl, F_extra] @
      [C_button Save, C_button Exit]" (is "?r = ?cs")
    and "draws (Render (layout_render name n)) f = routes (layout_render name n) f"
proof -
  have sel: "firmware_type_selected f < 2" "vgpu_selected f < 5" "pt_pci_tab_id f < 2" using f by (simp_all add: form_ok_def)
  note rules = ftxui_controls [OF law] ftxui_nodes(1-4,6,7,9-16) [OF law] 
    tab_two [where sel = firmware_type_selected, OF law sel(1)] tab_two [where sel = pt_pci_tab_id, OF law sel(3)] tab_vgpu [OF law sel(2)]
  have boxes: "concat (map (\<lambda>c. routes c f) (map Checkbox is)) = map C_checkbox is"
    "concat (map (\<lambda>c. draws (Render c) f) (map Checkbox is)) = map C_checkbox is" for "is"
    by (induction "is") (simp_all add: ftxui_controls [OF law])
  show r: "?r = ?cs"
    by (simp add: layout_defs cpt_inner_right_def rules boxes [unfolded map_map comp_def] Let_def comp_def)
  show "draws (Render (layout_render name n)) f = ?r"
    unfolding r by (simp add: layout_defs cpt_inner_right_def rules boxes [unfolded map_map comp_def] Let_def comp_def)
qed

section \<open>What is shown and what is saved\<close>

text \<open>The option of the file that each field is meant for, by its name and the documentation of the options.\<close>

definition field_option :: "input_field \<Rightarrow> string \<times> string" where
  "field_option x = (case x of
       F_flashfiles \<Rightarrow> (kGroupGlob, kGlobFlashfiles)
     | F_emulator \<Rightarrow> (kGroupEmul, kEmulPath)
     | F_memory \<Rightarrow> (kGroupMem, kMemSize)
     | F_vcpu \<Rightarrow> (kGroupVcpu, kVcpuNum)
     | F_disk_size \<Rightarrow> (kGroupDisk, kDiskSize)
     | F_disk_path \<Rightarrow> (kGroupDisk, kDiskPath)
     | F_firm_unified \<Rightarrow> (kGroupFirm, kFirmPath)
     | F_firm_splited_code \<Rightarrow> (kGroupFirm, kFirmCode)
     | F_firm_splited_data \<Rightarrow> (kGroupFirm, kFirmVars)
     | F_gvtg_uuid \<Rightarrow> (kGroupVgpu, kVgpuUuid)
     | F_swtpm_bin \<Rightarrow> (kGroupVtpm, kVtpmBinPath)
     | F_swtpm_data \<Rightarrow> (kGroupVtpm, kVtpmDataDir)
     | F_rpmb_bin \<Rightarrow> (kGroupRpmb, kRpmbBinPath)
     | F_rpmb_data \<Rightarrow> (kGroupRpmb, kRpmbDataDir)
     | F_adb_port \<Rightarrow> (kGroupNet, kNetAdbPort)
     | F_fastboot_port \<Rightarrow> (kGroupNet, kNetFastbootPort)
     | F_batt_med \<Rightarrow> (kGroupMed, kMedBattery)
     | F_therm_med \<Rightarrow> (kGroupMed, kMedThermal)
     | F_aaf \<Rightarrow> (kGroupAaf, kAafPath)
     | F_tkeep \<Rightarrow> (kGroupService, kServTimeKeep)
     | F_pmctl \<Rightarrow> (kGroupService, kServPmCtrl)
     | F_extra \<Rightarrow> (kGroupExtra, kExtraCmd))"

lemma field_option_no_dot: "no_dot (fst (field_option x))" "no_dot (snd (field_option x))"
  by (cases x; simp add: field_option_def no_dot_def)+

text \<open>Which fields the selections hide.\<close>

definition hidden :: "civ_tui \<Rightarrow> input_field \<Rightarrow> bool" where
  "hidden f x \<longleftrightarrow> (if x = F_firm_unified then firmware_type_selected f \<noteq> 0
     else if x = F_firm_splited_code \<or> x = F_firm_splited_data then firmware_type_selected f = 0
     else x = F_gvtg_uuid \<and> vgpu_selected f \<noteq> 3)"

lemma shown_fields:
  assumes "ftxui_law routes draws" and "form_ok f"
  shows "C_input x \<in> set (routes (layout_render name n) f) \<longleftrightarrow> \<not> hidden f x"
  unfolding layout_controls(1) [OF assms] by (cases x) (auto simp: hidden_def)

lemma hidden_not_saved:
  assumes "hidden f x \<or> x = F_gvtg_uuid \<and> gvtg_uuid f = []"
  shows "field_option x \<notin> setting_key ` set (settings_of f)"
proof -
  have "x \<in> {F_firm_unified, F_firm_splited_code, F_firm_splited_data, F_gvtg_uuid}"
    using assms by (auto simp: hidden_def split: if_splits)
  then have "\<not> key_set f (field_option x)" using assms by (auto simp: hidden_def key_set_def field_option_def)
  then have "field_option x \<notin> set (map setting_key (settings_of f))" unfolding settings_keys by simp
  then show ?thesis by simp
qed

lemma shown_saved:
  assumes "form_ok f" and "\<not> hidden f x" and "x = F_gvtg_uuid \<longrightarrow> gvtg_uuid f \<noteq> []"
  shows "(fst (field_option x), snd (field_option x), GetContent x f) \<in> set (settings_of f)"
proof -
  have "firmware_type_selected f = 0 \<or> firmware_type_selected f = 1" using assms(1) by (auto simp: form_ok_def)
  with assms(2,3) show ?thesis
    unfolding settings_of_def form_settings_def
    by (cases x) (simp_all add: field_option_def GetContent_def hidden_def firmware_settings_def vgpu_settings_of_def)
qed

lemma SetConfToPtree_ok: "form_ok f \<Longrightarrow> SetConfToPtree E f c0 s = (Ret (set_all E (settings_of f) c0), s)"
  by (auto simp: form_ok_def SetConfToPtree_def settings_of_def vgpu_settings_of_def vec_at_def run_simps)

lemma field_value:
  assumes law: "ptree_law E" and ok: "form_ok f" and c: "c = set_all E (settings_of f) \<lparr>cfg_data = pt_clear E\<rparr>"
  shows "GetValue E c (fst (field_option x)) (snd (field_option x)) =
    (if hidden f x \<or> GetContent x f = [] then [] else trim E (GetContent x f))"
proof -
  have clear: "GetValue E \<lparr>cfg_data = pt_clear E\<rparr> g k = []" for g k using law by (simp add: GetValue_def ptree_law_def)
  have valid: "\<forall>x\<in>set (settings_of f). valid_setting x" by (simp add: settings_valid)
  show ?thesis
  proof (cases "hidden f x \<or> x = F_gvtg_uuid \<and> gvtg_uuid f = []")
    case True
    then have "(fst (field_option x), snd (field_option x)) \<notin> setting_key ` set (settings_of f)" using hidden_not_saved by simp
    from set_all_other [OF law valid field_option_no_dot this] True show ?thesis by (auto simp: c clear GetContent_def)
  next
    case False
    then have "(fst (field_option x), snd (field_option x), GetContent x f) \<in> set (settings_of f)" using shown_saved [OF ok] by blast
    from set_all_values [OF law valid settings_distinct this] False show ?thesis by (simp add: c clear)
  qed
qed

section \<open>Properties\<close>

text \<open>
  C15. What the form shows is what it saves.  In every form whose selections are entries of their lists, the controls that
  are drawn are the controls that take input, in the same order, and of each input field the file gets the trimmed contents
  under the option the field is for when the field is on the screen, and nothing when the selections hide it: text typed
  for another firmware type or another kind of graphics does not reach the guest.
\<close>

theorem shown_is_saved:
  assumes "ptree_law E" and "ftxui_law routes draws" and "form_ok f"
  shows "draws (Render (layout_render name n)) f = routes (layout_render name n) f \<and>
    (\<exists>c. SetConfToPtree E f \<lparr>cfg_data = pt_clear E\<rparr> s = (Ret c, s) \<and>
      (\<forall>x. GetValue E c (fst (field_option x)) (snd (field_option x)) =
        (if C_input x \<in> set (draws (Render (layout_render name n)) f) \<and> GetContent x f \<noteq> [] then trim E (GetContent x f) else [])))"
proof -
  have "draws (Render (layout_render name n)) f = routes (layout_render name n) f" by (rule layout_controls(2) [OF assms(2,3)])
  then show ?thesis
    by (simp add: field_value [OF assms(1,3) HOL.refl] shown_fields [OF assms(2,3)] SetConfToPtree_ok [OF assms(3)])
qed

theorem shown_is_saved_witness:
  "\<exists>c. SetConfToPtree ref_env demo_form \<lparr>cfg_data = pt_clear ref_env\<rparr> (0 :: nat) = (Ret c, 0) \<and>
     C_input F_memory \<in> set (ref_draws (Render (layout_render ''civ-1'' 0)) demo_form) \<and>
     GetValue ref_env c kGroupMem kMemSize = ''4G''"
proof -
  have ok: "form_ok demo_form"
    by (simp add: form_ok_def demo_form_def InitCompVgpu_def InitCompFirm_def civ_tui_new_def)
  obtain c where c: "SetConfToPtree ref_env demo_form \<lparr>cfg_data = pt_clear ref_env\<rparr> (0 :: nat) = (Ret c, 0)"
    and same: "ref_draws (Render (layout_render ''civ-1'' 0)) demo_form = ref_routes (layout_render ''civ-1'' 0) demo_form"
    and val: "\<And>x. GetValue ref_env c (fst (field_option x)) (snd (field_option x)) =
      (if C_input x \<in> set (ref_draws (Render (layout_render ''civ-1'' 0)) demo_form) \<and> GetContent x demo_form \<noteq> []
       then trim ref_env (GetContent x demo_form) else [])"
    using shown_is_saved [OF ref_ptree_law ref_ftxui_law ok, of "''civ-1''" 0 "0 :: nat"] by blast
  have shown: "C_input F_memory \<in> set (ref_draws (Render (layout_render ''civ-1'' 0)) demo_form)"
    unfolding same shown_fields [OF ref_ftxui_law ok] by (simp add: hidden_def)
  moreover have "memory demo_form = '' 4G ''" by (simp add: demo_form_def InitCompVgpu_def InitCompFirm_def)
  moreover have "trim ref_env '' 4G '' = ''4G''" by (simp add: ref_env_def ref_trim_def isspace_def)
  ultimately have "GetValue ref_env c (fst (field_option F_memory)) (snd (field_option F_memory)) = ''4G''"
    by (simp add: val GetContent_def)
  with c shown show ?thesis by (auto simp: field_option_def)
qed

section \<open>Sessions\<close>

text \<open>An event that ftxui delivers: a selection is an entry of its list.\<close>

definition legal_event :: "ui_event \<Rightarrow> bool" where
  "legal_event ev = (case ev of
       Select m n \<Rightarrow> (case m of Firmware_type \<Rightarrow> n < 2 | Vgpu_type \<Rightarrow> n < 5 | Gvtg_ver \<Rightarrow> n < 4 | Pt_pci_disp \<Rightarrow> True)
     | _ \<Rightarrow> True)"

lemma form_ok_steps:
  assumes "form_ok f"
  shows "form_ok (set_content x v f)" "legal_event (Select m n) \<Longrightarrow> form_ok (select m n f)" "form_ok (check i b f)"
    "form_ok (PtPciClickButton f)" "form_ok (f\<lparr>status_bar := t\<rparr>)"
  using assms
  by (simp_all add: form_ok_def set_content_def select_def legal_event_def check_def PtPciClickButton_def Let_def
      split: input_field.splits menu.splits)

definition never_throws :: "exn \<Rightarrow> ('s, 'a) cpp \<Rightarrow> bool" where
  "never_throws e m \<longleftrightarrow> (\<forall>s. fst (m s) \<noteq> Throw e)"

lemma never_throws_cbind:
  assumes "never_throws e m" and "\<And>s x t. m s = (Ret x, t) \<Longrightarrow> never_throws e (f x)"
  shows "never_throws e (cbind m f)"
  unfolding never_throws_def
proof
  fix s
  show "fst (cbind m f s) \<noteq> Throw e"
  proof (cases "m s")
    case (Pair r t)
    with assms show ?thesis by (cases r) (auto simp: cbind_def never_throws_def, (metis fst_conv)+)
  qed
qed

lemma never_throws_prims:
  "never_throws e (cret x)" "never_throws e ccrash" "never_throws e (oscall g)" "e \<noteq> e' \<Longrightarrow> never_throws e (cthrow e')"
  "e \<noteq> e' \<Longrightarrow> never_throws e (oscall_throw e' h)"
  by (auto simp: never_throws_def run_simps oscall_throw_def split: option.splits prod.splits)

lemma never_throws_returning: "returning m \<Longrightarrow> never_throws e m"
  unfolding never_throws_def yields_def by (metis is_Ret_def outcome.distinct(1))

lemma never_throws_if: "never_throws e m \<Longrightarrow> never_throws e n \<Longrightarrow> never_throws e (if b then m else n)"
  by simp

lemma WriteConfigFile_throws: "never_throws Out_of_range (WriteConfigFile E p c)"
  unfolding WriteConfigFile_def by (intro never_throws_cbind never_throws_if never_throws_prims) simp

lemma SaveOn_in_range:
  fixes E :: "('w, 't) env" and s :: "('w, 'z) os_state_scheme"
  assumes "form_ok f"
  shows "never_throws Out_of_range (SaveOn E f c :: (('w, 'z) os_state_scheme, _) cpp)" and "SaveOn E f c s = (Ret (leave, f', c'), t) \<Longrightarrow> form_ok f'"
proof -
  have set: "never_throws Out_of_range (SetConfToPtree E f c :: (('w, 'z) os_state_scheme, _) cpp)" by (simp add: never_throws_def SetConfToPtree_ok [OF assms])
  have "never_throws Out_of_range ((case dir of None \<Rightarrow> ccrash | Some configPath \<Rightarrow>
     let filePath = configPath @ ''/'' @ filename f @ ''.ini'' in
     cbind (oscall (fs_exists E filePath)) (\<lambda>ex.
     if ex then cret (False, f\<lparr>status_bar := ''File alreay exist!''\<rparr>, c) else
     cbind (oscall (file_create E filePath)) (\<lambda>_.
     cbind (SetConfToPtree E f c) (\<lambda>c'.
     cbind (WriteConfigFile E filePath c') (\<lambda>ok.
     cret (ok, f, c')))))) :: (('w, 'z) os_state_scheme, _) cpp)" for dir
    by (cases dir) (auto simp: Let_def intro!: never_throws_cbind never_throws_prims set WriteConfigFile_throws)
  then show "never_throws Out_of_range (SaveOn E f c :: (('w, 'z) os_state_scheme, _) cpp)"
    unfolding SaveOn_def by (intro never_throws_cbind never_throws_returning [OF GetConfigPath_returning])
  show "SaveOn E f c s = (Ret (leave, f', c'), t) \<Longrightarrow> form_ok f'"
    using assms form_ok_steps(5) [OF assms]
    by (auto simp: SaveOn_def ret_iffs Let_def split: option.splits if_splits)
qed

lemma ui_loop_in_range:
  fixes E :: "('w, 't) env"
  shows "list_all legal_event evs \<Longrightarrow> form_ok f \<Longrightarrow> never_throws Out_of_range (ui_loop E evs f c :: (('w, 'z) os_state_scheme, unit) cpp)"
proof (induction evs arbitrary: f c)
  case (Cons ev evs)
  show ?case
  proof (cases ev)
    case Click_save
    have "never_throws Out_of_range ((case y of (leave, f', c') \<Rightarrow> if leave then cret () else ui_loop E evs f' c') ::
        (('w, 'z) os_state_scheme, unit) cpp)"
      if "SaveOn E f c s = (Ret y, t)" for s t :: "('w, 'z) os_state_scheme" and y
    proof (cases y)
      case (fields leave f' c')
      with that have "form_ok f'" by (auto intro: SaveOn_in_range(2) [OF Cons.prems(2)])
      with fields Cons.IH Cons.prems(1) show ?thesis by (auto intro: never_throws_prims(1))
    qed
    then show ?thesis
      unfolding Click_save ui_loop.simps ui_event.case by (intro never_throws_cbind SaveOn_in_range(1) Cons.prems)
  qed (use Cons form_ok_steps [OF Cons.prems(2)] in \<open>auto intro: never_throws_prims(1)\<close>)
qed (simp add: never_throws_prims)

lemma InitializeForm_ok: "InitializeForm E (civ_tui_new\<lparr>filename := name\<rparr>) s = (Ret f, t) \<Longrightarrow> form_ok f"
  by (auto simp: InitializeForm_def InitCompPciPt_def InitCompVgpu_def InitCompFirm_def civ_tui_new_def ret_iffs form_ok_def)

text \<open>
  A session with the form never ends with an index out of range.  Whatever is typed, selected, checked and clicked, in any order
  and with any number of failed attempts to save, the lookups of the selected entries that SAVE makes stay inside
  their lists.
\<close>

lemma session_in_range:
  fixes E :: "('w, 't) env" and s :: "('w, 'z) os_state_scheme"
  assumes "list_all legal_event evs"
  shows "fst (InitializeUi E evs name s) \<noteq> Throw Out_of_range"
proof -
  have "never_throws Out_of_range (InitializeForm E (civ_tui_new\<lparr>filename := name\<rparr>) :: (('w, 'z) os_state_scheme, civ_tui) cpp)"
    unfolding InitializeForm_def InitCompPciPt_def by (intro never_throws_cbind never_throws_prims) simp
  then have "never_throws Out_of_range (InitializeUi E evs name :: (('w, 'z) os_state_scheme, unit) cpp)"
    unfolding InitializeUi_def using assms by (intro never_throws_cbind ui_loop_in_range) (auto intro: InitializeForm_ok)
  then show ?thesis by (simp add: never_throws_def)
qed

end
