(* ===== verification/Guest_Services.thy ===== *)
theory Guest_Services
  imports Server
begin

text \<open>
  The programs inside the guest (src/android) and the host's application launcher (src/host/app_launcher): small gRPC
  services and their callers.  The transport belongs to gRPC: a service that listens handles the calls that arrive, in
  order, and then waits for ever.
\<close>

section \<open>Addresses\<close>

definition kCivAppLauncherListenerPort :: nat where "kCivAppLauncherListenerPort = 10001"

text \<open>\<open>VMADDR_CID_HOST\<close> of the kernel's vsock interface.\<close>

definition VMADDR_CID_HOST :: u32 where "VMADDR_CID_HOST = 2"

section \<open>In the guest\<close>

text \<open>\<open>CivAppLauncherImpl::LaunchApp\<close> (src/android/applauncher/civ_applauncher.cc): code and status of the response; the
  gRPC status is always ok.\<close>

definition launch_cmd :: "string \<Rightarrow> u32 \<Rightarrow> string" where
  "launch_cmd app_name disp_id = ''/system/bin/am start -n '' @ app_name @ '' --display '' @ to_string (uint disp_id)"

definition Impl_LaunchApp :: "('w, 't) env \<Rightarrow> string \<Rightarrow> u32 \<Rightarrow> (('w, 'z) os_state_scheme, int \<times> app_status) cpp" where
  "Impl_LaunchApp E app_name disp_id =
     cbind (oscall (libc_system E (launch_cmd app_name disp_id))) (\<lambda>rc.
     cret (if rc \<noteq> 0 then (- 1, FAILED) else (0, LAUNCHED)))"

text \<open>\<open>main\<close> of the service, with the calls that arrive while it listens: \<open>Wait\<close> does not return, because nothing shuts
  the gRPC server down.\<close>

definition applauncher_main :: "('w, 't) env \<Rightarrow> (string \<times> u32) list \<Rightarrow> (('w, 'z) os_state_scheme, int) cpp" where
  "applauncher_main E calls =
     cbind (oscall (grpc_listen E (vsock_address VMADDR_CID_ANY kCivAppLauncherListenerPort))) (\<lambda>server.
     cseq (cwhen server
            (cseq (cfor calls (\<lambda>(app_name, disp_id). cbind (Impl_LaunchApp E app_name disp_id) (\<lambda>_. cret ())))
             chang))
     (cret 0))"

text \<open>\<open>CivPowerCtlImpl::Shutdown\<close> (src/android/powerctl/civ_powerctl.cc)\<close>

definition Impl_Shutdown :: "('w, 't) env \<Rightarrow> (('w, 'z) os_state_scheme, grpc_status) cpp" where
  "Impl_Shutdown E =
     cseq (oscall (std_cout E (''Shutdown Signal from Host!'' @ [newline])))
    (cbind (oscall (libc_system E ''/system/bin/reboot -p shutdown'')) (\<lambda>_.
     cret Status_OK))"

definition powerctl_main :: "('w, 't) env \<Rightarrow> nat \<Rightarrow> (('w, 'z) os_state_scheme, int) cpp" where
  "powerctl_main E calls =
     (let listener_address = vsock_address VMADDR_CID_ANY kCivPowerCtlListenerPort in
      cseq (oscall (std_cout E (''Civ Powerctl Listener listen@'' @ listener_address @ [newline])))
     (cbind (oscall (grpc_listen E listener_address)) (\<lambda>server.
      cseq (cwhen server
             (cseq (cfor [0..<calls] (\<lambda>_. cbind (Impl_Shutdown E) (\<lambda>_. cret ())))
              chang))
      (cret 0))))"

text \<open>\<open>StartupNotify\<close> (src/android/startup_notify/civ_startup_notify.cc)\<close>

definition StartupNotify_VmReady :: "('w, 't) env \<Rightarrow> string \<Rightarrow> (('w, 'z) os_state_scheme, bool) cpp" where
  "StartupNotify_VmReady E addr =
     cbind (oscall (grpc_vm_ready E addr)) (\<lambda>status.
     case status of
       Inr _ \<Rightarrow> cret True
     | Inl text \<Rightarrow> cseq (oscall (std_cout E (text @ [newline]))) (cret False))"

definition startup_notify_main :: "('w, 't) env \<Rightarrow> (('w, 'z) os_state_scheme, int) cpp" where
  "startup_notify_main E =
     cbind (StartupNotify_VmReady E (vsock_address VMADDR_CID_HOST kCivStartupListenerPort)) (\<lambda>ok.
     cret (if \<not> ok then - 1 else 0))"

section \<open>The application launcher of the host\<close>

definition status_num :: "app_status \<Rightarrow> nat" where
  "status_num s = (case s of UNKNOWN \<Rightarrow> 0 | LAUNCHED \<Rightarrow> 1 | EXITED \<Rightarrow> 2 | FAILED \<Rightarrow> 3)"

text \<open>\<open>CivAppLauncherClient::LaunchApp\<close>\<close>

definition Client_LaunchApp :: "('w, 't) env \<Rightarrow> string \<Rightarrow> string \<Rightarrow> u32 \<Rightarrow> (('w, 'z) os_state_scheme, bool) cpp" where
  "Client_LaunchApp E addr app_name disp_id =
     cbind (oscall (grpc_launch_app E addr app_name disp_id)) (\<lambda>status.
     case status of
       Inr (code, st) \<Rightarrow>
         cseq (oscall (std_cout E (''Replay code: '' @ to_string code @ '', status='' @ to_string (int (status_num st)) @ [newline])))
         (cret True)
     | Inl text \<Rightarrow> cseq (oscall (std_cout E (text @ [newline]))) (cret False))"

definition launcher_options :: "po_option list" where
  "launcher_options =
    [(''help,h'', False, ''Show this help message''),
     (''cid,c'', True, ''Cid of CiV guest''),
     (''name,n'', True, ''Name of APP''),
     (''display,d'', True, ''Display id of CiV guest'')]"

definition launcher_help :: "('w, 't) env \<Rightarrow> (('w, 'z) os_state_scheme, unit) cpp" where
  "launcher_help E =
     cseq (oscall (std_cout E (''Usage:'' @ [newline] @ ''  app-launcher-client [-c cid] [-n app_name] [-d display_id]'' @ [newline])))
    (cseq (oscall (std_cout E (''Options:'' @ [newline] @ po_print E launcher_options @ [newline])))
     (oscall (std_cout E (''Example:'' @ [newline] @
        '' ./app-launcher-client -c 1000 -n '' @ [CHR 0x22] @ ''com.android.settings/.Settings'' @ [CHR 0x22] @ '' -d 2'' @ [newline]))))"

definition launcher_ParseOptions :: "('w, 't) env \<Rightarrow> string list \<Rightarrow> (('w, 'z) os_state_scheme, bool) cpp" where
  "launcher_ParseOptions E argv =
     (case po_parse E launcher_options argv of
        Inl _ \<Rightarrow> cthrow Program_options_error
      | Inr vm \<Rightarrow>
          if vm = [] then cseq (launcher_help E) (cret False)
          else if map_of vm ''help'' \<noteq> None then cseq (launcher_help E) (cret True)
          else (case map_of vm ''cid'' of None \<Rightarrow> cseq (launcher_help E) (cret False) | Some cid \<Rightarrow>
               case map_of vm ''name'' of None \<Rightarrow> cseq (launcher_help E) (cret False) | Some app_name \<Rightarrow>
               case map_of vm ''display'' of None \<Rightarrow> cseq (launcher_help E) (cret False) | Some disp_id \<Rightarrow>
                 Client_LaunchApp E (vsock_address (po_u32 E cid) kCivAppLauncherListenerPort) app_name (po_u32 E disp_id)))"

text \<open>The text of an exception goes to the error stream.\<close>

definition launcher_main :: "('w, 't) env \<Rightarrow> string list \<Rightarrow> (('w, 'z) os_state_scheme, int) cpp" where
  "launcher_main E argv =
     ctry (cbind (launcher_ParseOptions E argv) (\<lambda>ok. cret (if ok then 0 else - 1)))
       (\<lambda>_. cret (- 1))"

section \<open>Lengths of numbers\<close>

section \<open>Services that listen\<close>

lemma serving:
  assumes "\<And>x. returning (f x)"
  shows "fst (cseq (cfor xs f) chang s) = Hang"
proof -
  have "returning (cfor xs f)" by (rule returning_cfor) (rule assms)
  from returning_run [OF this, of s] obtain y u where "cfor xs f s = (Ret y, u)" by blast
  then show ?thesis by (simp add: run_simps)
qed

lemma listening_ends:
  assumes "\<And>t. fst (m t) = Hang"
  shows "fst (cbind (oscall g) (\<lambda>server. cseq (cwhen server m) (cret x)) s) = (if fst (g (world s)) then Hang else Ret x)"
proof -
  obtain b w where g: "g (world s) = (b, w)" by (cases "g (world s)")
  obtain t where "m (s\<lparr>world := w\<rparr>) = (Hang, t)" using assms by (metis prod.collapse)
  with g show ?thesis by (cases b) (simp_all add: run_simps)
qed

lemma cseq_oscall: "cseq (oscall g) m s = m (s\<lparr>world := snd (g (world s))\<rparr>)"
  by (simp add: run_simps split: prod.splits)

section \<open>Properties\<close>

text \<open>
  The addresses of the services fit their buffers and can be read back.  For every context id and every port below
  65536, the \<open>char[50]\<close> that \<open>snprintf\<close> fills with \<open>vsock:%u:%u\<close> holds the whole address, and \<open>sscanf\<close> with
  \<open>vsock:%u\<close>, as \<open>VmReady\<close> uses it, reads that context id from it.
\<close>

lemma vsock_address_complete:
  assumes "port < 65536"
  shows "vsock_address cid port = ''vsock:'' @ to_string (uint cid) @ '':'' @ to_string (int port) \<and>
     sscanf_vsock (vsock_address cid port) = Some cid"
proof -
  have ts: "to_string (uint cid) = dec_digits (unat cid)" "to_string (int port) = dec_digits port" by (simp_all add: to_string_def)
  have "unat cid < 10 ^ Suc 9" using unsigned_less [of cid, where ?'a = nat] by simp
  from length_dec_digits [OF this] have c: "length (dec_digits (unat cid)) \<le> 10" by simp
  have "length (dec_digits port) \<le> 5" using length_dec_digits [of port 4] assms by simp
  with c have whole: "vsock_address cid port = ''vsock:'' @ to_string (uint cid) @ '':'' @ to_string (int port)"
    unfolding vsock_address_def by (intro take_all) (simp add: ts)
  have "sscanf_vsock (peer_of cid @ '':'' @ to_string (int port)) = Some cid"
    by (rule sscanf_vsock_digits) (simp add: is_digit_of_10_code)
  with whole show ?thesis by (simp add: peer_of_def)
qed

text \<open>
  C40. The exit code of the application launcher says whether the guest answered, not whether the application started.  When
  the three options are given and the call reaches the service of the guest, \<open>main\<close> returns 0; whether the
  command of the guest failed is only in the text it prints, code -1 and status 3.
\<close>

theorem launcher_end_to_end:
  fixes s :: "('w, 'z) os_state_scheme" and guest :: "('v, 'y) os_state_scheme"
  assumes "po_parse E launcher_options argv = Inr vm" and "map_of vm ''help'' = None"
    and "map_of vm ''cid'' = Some cid" and "map_of vm ''name'' = Some app_name" and "map_of vm ''display'' = Some disp_id"
    and "Impl_LaunchApp G app_name (po_u32 E disp_id) guest = (Ret response, guest')"
    and "grpc_launch_app E (vsock_address (po_u32 E cid) 10001) app_name (po_u32 E disp_id) (world s) = (Inr response, w)"
  shows "launcher_main E argv s = (Ret 0, s\<lparr>world := snd (std_cout E
    (if fst (libc_system G (launch_cmd app_name (po_u32 E disp_id)) (world guest)) \<noteq> 0
     then ''Replay code: -1, status=3'' @ [newline] else ''Replay code: 0, status=1'' @ [newline]) w)\<rparr>)"
proof -
  obtain rc w' where sys: "libc_system G (launch_cmd app_name (po_u32 E disp_id)) (world guest) = (rc, w')"
    by (cases "libc_system G (launch_cmd app_name (po_u32 E disp_id)) (world guest)")
  have resp: "response = (if rc \<noteq> 0 then (- 1, FAILED) else (0, LAUNCHED))"
    using assms(6) by (auto simp: Impl_LaunchApp_def run_simps sys)
  have nums: "to_string (- 1) = ''-1''" "to_string 0 = ''0''" "to_string 1 = ''1''" "to_string 3 = ''3''"
    by code_simp+
  have call: "Client_LaunchApp E (vsock_address (po_u32 E cid) 10001) app_name (po_u32 E disp_id) s =
    (Ret True, s\<lparr>world := snd (std_cout E
      (if rc \<noteq> 0 then ''Replay code: -1, status=3'' @ [newline] else ''Replay code: 0, status=1'' @ [newline]) w)\<rparr>)"
    using assms(7) by (cases "rc = 0") (simp_all add: Client_LaunchApp_def run_simps resp status_num_def nums split: prod.splits)
  moreover have "vm \<noteq> []" using assms(3) by auto
  ultimately show ?thesis
    using assms(1-5) by (simp add: launcher_main_def launcher_ParseOptions_def kCivAppLauncherListenerPort_def run_simps sys)
qed

theorem launcher_end_to_end_witness:
  "fst (launcher_main (ref_env\<lparr>po_parse := (\<lambda>_ _. Inr [(''cid'', ''1000''), (''name'', ''a''), (''display'', ''2'')])\<rparr>) []
     \<lparr>world = ref_world0, civ_config_path = None\<rparr>) = Ret 0"
proof -
  let ?E = "ref_env\<lparr>po_parse := (\<lambda>_ _. Inr [(''cid'', ''1000''), (''name'', ''a''), (''display'', ''2'')])\<rparr>"
  let ?G = "ref_env\<lparr>libc_system := (\<lambda>_ w. (1, w))\<rparr>"
  let ?s = "\<lparr>world = ref_world0, civ_config_path = None\<rparr> :: ref_world os_state"
  have g: "Impl_LaunchApp ?G ''a'' (po_u32 ?E ''2'') ?s = (Ret (- 1, FAILED), ?s)"
    by (simp add: Impl_LaunchApp_def run_simps)
  have t: "grpc_launch_app ?E (vsock_address (po_u32 ?E ''1000'') 10001) ''a'' (po_u32 ?E ''2'') (world ?s) = (Inr (- 1, FAILED), ref_world0)"
    by (simp add: ref_env_def)
  show ?thesis
    using launcher_end_to_end [OF _ _ _ _ _ g t, where vm = "[(''cid'', ''1000''), (''name'', ''a''), (''display'', ''2'')]" and argv = "[]"]
    by simp
qed

text \<open>
  A service of the guest ends only when it could not start: \<open>main\<close> of both services returns exactly when gRPC refuses
  to listen, and the exit code is then 0, as after a normal end.
\<close>

lemma services_end:
  "fst (applauncher_main E calls s) =
     (if fst (grpc_listen E (vsock_address VMADDR_CID_ANY kCivAppLauncherListenerPort) (world s)) then Hang else Ret 0) \<and>
   fst (powerctl_main E n s) =
     (let addr = vsock_address VMADDR_CID_ANY kCivPowerCtlListenerPort;
          w = snd (std_cout E (''Civ Powerctl Listener listen@'' @ addr @ [newline]) (world s))
      in if fst (grpc_listen E addr w) then Hang else Ret 0)"
proof -
  have "returning (case y of (app, disp) \<Rightarrow> cbind (Impl_LaunchApp E app disp) (\<lambda>_. cret ()))" for y
    by (cases y) (simp add: Impl_LaunchApp_def, intro yields_rules)
  then have "fst (applauncher_main E calls s) =
      (if fst (grpc_listen E (vsock_address VMADDR_CID_ANY kCivAppLauncherListenerPort) (world s)) then Hang else Ret 0)"
    unfolding applauncher_main_def by (intro listening_ends serving)
  moreover have "returning (cbind (Impl_Shutdown E) (\<lambda>_. cret ()))" unfolding Impl_Shutdown_def by (intro yields_rules)
  then have serve: "fst (cseq (cfor [0..<n] (\<lambda>_. cbind (Impl_Shutdown E) (\<lambda>_. cret ()))) chang t) = Hang" for t
    by (rule serving)
  have "fst (powerctl_main E n s) =
     (let addr = vsock_address VMADDR_CID_ANY kCivPowerCtlListenerPort;
          w = snd (std_cout E (''Civ Powerctl Listener listen@'' @ addr @ [newline]) (world s))
      in if fst (grpc_listen E addr w) then Hang else Ret 0)"
    unfolding powerctl_main_def Let_def cseq_oscall listening_ends [OF serve] by simp
  ultimately show ?thesis by blast
qed

end
