(* ===== verification/Civ_Log.thy ===== *)
theory Civ_Log
  imports Cpp_Std
begin

text \<open>
  The log (src/utils/log.h): the attributes and outputs that are set up, and the text of a line.  Collecting the time and the
  name of the process and writing to the outputs is done by boost::log; the model has the lines each output
  gets.  No other component depends on what is logged.
\<close>

section \<open>Lines\<close>

datatype severity = trace | debug | info | warning | error | fatal

definition severity_name :: "severity \<Rightarrow> string" where
  "severity_name s = (case s of trace \<Rightarrow> ''trace'' | debug \<Rightarrow> ''debug'' | info \<Rightarrow> ''info'' | warning \<Rightarrow> ''warning''
     | error \<Rightarrow> ''error'' | fatal \<Rightarrow> ''fatal'')"

text \<open>\<open>std::setw\<close> fills up with blanks on the left.\<close>

definition setw :: "nat \<Rightarrow> string \<Rightarrow> string" where
  "setw n s = replicate (n - length s) (CHR '' '') @ s"

record log_record =
  TimeStamp :: string
  ProcName :: string
  rec_severity :: severity
  rec_File :: string
  rec_Line :: int
  rec_Func :: string
  smessage :: string

text \<open>The format of both outputs; the place in the source is part of it in a debug build.\<close>

definition log_format :: "bool \<Rightarrow> log_record \<Rightarrow> string" where
  "log_format DEBUG r =
     TimeStamp r @ '' ['' @ ProcName r @ '']'' @ '' ['' @ setw 8 (severity_name (rec_severity r)) @ ''] '' @
     (if DEBUG then ''['' @ rec_File r @ '':'' @ to_string (rec_Line r) @ '':'' @ rec_Func r @ ''()]:  '' else []) @
     smessage r"

text \<open>\<open>path.substr(path.find_last_of("/\\") + 1)\<close>: when there is neither, \<open>npos + 1\<close> is 0.\<close>

definition find_last_of :: "char list \<Rightarrow> string \<Rightarrow> nat option" where
  "find_last_of cs s = (case filter (\<lambda>i. s ! i \<in> set cs) [0..<length s] of [] \<Rightarrow> None | is \<Rightarrow> Some (last is))"

definition path_to_filename :: "string \<Rightarrow> string" where
  "path_to_filename path = drop (case find_last_of [CHR ''/'', CHR 0x5C] path of None \<Rightarrow> 0 | Some i \<Rightarrow> i + 1) path"

section \<open>The logger\<close>

datatype sink = Console | Log_file string

record logger =
  attributes :: "string list"
  sinks :: "sink list"
  suppressed :: bool

definition logger_init :: "bool \<Rightarrow> logger \<Rightarrow> logger" where
  "logger_init DEBUG l = l\<lparr>attributes := attributes l @ (if DEBUG then [''File'', ''Line'', ''Func''] else []) @ [''ProcName''],
     sinks := sinks l @ [Console], suppressed := True\<rparr>"

definition log2file :: "string option \<Rightarrow> logger \<Rightarrow> logger" where
  "log2file file l = (case file of None \<Rightarrow> l | Some f \<Rightarrow> l\<lparr>sinks := sinks l @ [Log_file f]\<rparr>)"

text \<open>
  \<open>LOG(sev)\<close> at a place of the source: in a debug build the attributes of the place are set first.  The lines that the
  outputs get.
\<close>

definition LOG :: "bool \<Rightarrow> string \<times> string \<Rightarrow> string \<times> int \<times> string \<Rightarrow> severity \<Rightarrow> string \<Rightarrow> logger \<Rightarrow> (sink \<times> string) list" where
  "LOG DEBUG stamp place sev text l = (case (stamp, place) of ((time, proc), file, line, func) \<Rightarrow>
     let r = \<lparr>TimeStamp = time, ProcName = proc, rec_severity = sev, rec_File = path_to_filename file, rec_Line = line,
       rec_Func = func, smessage = text\<rparr>
     in map (\<lambda>s. (s, log_format DEBUG r)) (sinks l))"

section \<open>Facts\<close>

lemma find_last_of_cases:
  "case find_last_of cs s of
     None \<Rightarrow> set s \<inter> set cs = {}
   | Some i \<Rightarrow> i < length s \<and> s ! i \<in> set cs \<and> set (drop (Suc i) s) \<inter> set cs = {}"
proof -
  let ?is = "filter (\<lambda>i. s ! i \<in> set cs) [0..<length s]"
  show ?thesis
  proof (cases ?is rule: rev_cases)
    case Nil
    then have "s ! i \<notin> set cs" if "i < length s" for i using that by (auto simp: filter_empty_conv)
    then show ?thesis by (auto simp: find_last_of_def Nil in_set_conv_nth)
  next
    case (snoc js i)
    have i: "i < length s" "s ! i \<in> set cs" using arg_cong [OF snoc, of set] by auto
    have sorted: "sorted_wrt (<) (js @ [i])" unfolding snoc [symmetric] by (simp add: sorted_wrt_filter)
    have "j \<le> i" if "j < length s" "s ! j \<in> set cs" for j
    proof -
      have "j \<in> set ?is" using that by simp
      then have "j = i \<or> j \<in> set js" unfolding snoc by auto
      with sorted show ?thesis by (auto simp: sorted_wrt_append)
    qed
    then have "s ! j \<notin> set cs" if "i < j" "j < length s" for j using that by force
    then have "set (drop (Suc i) s) \<inter> set cs = {}" by (auto simp: in_set_conv_nth)
    moreover have "find_last_of cs s = Some i" unfolding find_last_of_def snoc by (cases js) simp_all
    ultimately show ?thesis using i by simp
  qed
qed

text \<open>The name of the file is what follows the last separator.\<close>

lemma path_to_filename_split:
  "\<exists>dir. path = dir @ path_to_filename path \<and> set (path_to_filename path) \<inter> {CHR ''/'', CHR 0x5C} = {} \<and>
     (dir = [] \<or> last dir \<in> {CHR ''/'', CHR 0x5C})"
proof (cases "find_last_of [CHR ''/'', CHR 0x5C] path")
  case None
  with find_last_of_cases [where cs = "[CHR ''/'', CHR 0x5C]" and s = path] show ?thesis by (simp add: path_to_filename_def)
next
  case (Some i)
  with find_last_of_cases [where cs = "[CHR ''/'', CHR 0x5C]" and s = path]
  have i: "i < length path" "path ! i \<in> {CHR ''/'', CHR 0x5C}" "set (drop (Suc i) path) \<inter> {CHR ''/'', CHR 0x5C} = {}" by simp_all
  have "path = take (Suc i) path @ path_to_filename path" by (simp add: path_to_filename_def Some)
  moreover have "last (take (Suc i) path) = path ! i" using i(1) by (simp add: take_Suc_conv_app_nth)
  ultimately show ?thesis using i(2,3) Some by (intro exI [of _ "take (Suc i) path"]) (simp add: path_to_filename_def)
qed

text \<open>A daemon that logs to a file writes every line to the console and to the file, with the same text.\<close>

lemma LOG_daemon:
  "\<exists>line. LOG d stamp place sev text (log2file (Some f) (logger_init d \<lparr>attributes = [], sinks = [], suppressed = False\<rparr>)) =
     [(Console, line), (Log_file f, line)]"
  by (cases stamp; cases place) (simp add: LOG_def log2file_def logger_init_def Let_def)

end
