(* ===== verification/Spec2Isabelle.thy ===== *)
theory Spec2Isabelle
  imports Main_Truth Cid_Accounts Registry Tui_Layout Guest_Services Civ_Log
begin

text \<open>
  \<^bold>\<open>Celadon in VM: the host program vm-manager\<close>

  \<open>vm-manager\<close> builds, starts, watches and stops QEMU guests that run Celadon (Android).  One process is the server.  It keeps
  the guests, answers requests through a shared memory segment, starts a thread for every guest and listens
  on vsock for the guests that report that they are up.  Every other invocation of the program is a client that sends
  the server one request, or works alone (the form that writes a configuration, the flashing of an image).  Small
  services inside the guest report the start, shut the guest down and start applications.

  \<^bold>\<open>The theories and the sources they model\<close> (paths under src/src)

  \<^item> \<open>Civ_Prelude\<close>: calls of C++ code as functions on a state that return, throw, crash (undefined behaviour) or
    block for ever; sequencing; \<open>within\<close> (a relation every run keeps), \<open>yields\<close> (how a run ends) and \<open>triple\<close>, with their rules in
    named collections; the locale \<open>state_preorder\<close>.
  \<^item> \<open>Cpp_Std\<close>: the functions of the C and C++ libraries that the sources use (\<open>stoi\<close>, \<open>stoul\<close>, \<open>atoi\<close>, \<open>std::map\<close>, \<open>sscanf\<close>,
    reading lines), with 32-bit and 64-bit widths.
  \<^item> \<open>Civ_Env\<close>: the outside of the program.  The record \<open>env\<close> has a field for every operating system, boost and gRPC
    call; all act on an abstract world.  \<open>Ref_Env\<close> is a concrete environment for the witnesses.
  \<^item> \<open>Vsock_Cid_Pool\<close> (guest/vsock_cid_pool): the pool of context ids as a bitset, with the locale \<open>cid_allocator\<close> as its contract.
  \<^item> \<open>Config_Parser\<close> (guest/config_parser): \<open>CivConfig\<close> and the table of the groups and keys.
  \<^item> \<open>Aaf\<close> (guest/aaf): the file of options that the host shares with Android.
  \<^item> \<open>Civ_Utils\<close>, \<open>Daemon\<close> (utils/utils): \<open>GetConfigPath\<close>, \<open>Daemonize\<close>.
  \<^item> \<open>Vm_Process\<close> (guest/vm_process): child processes and their monitor threads.
  \<^item> \<open>Host_Devices\<close> (the static functions of guest/vm_builder_qemu.cc): huge pages, virtual functions, PCI pass-through, GVT-g.
  \<^item> \<open>Vm_Builder\<close>, \<open>Vm_Builder_Qemu\<close> (guest/vm_builder, guest/vm_builder_qemu): a guest object and every function that adds
    to its command line; \<open>Build_Frames\<close> and \<open>Build_Facts\<close> hold what is proved about them.
  \<^item> \<open>Vm_Lifecycle\<close> (guest/vm_builder_qemu): start, readiness, exit, stop, destruction of a guest.
  \<^item> \<open>Startup_Listener\<close> (services/startup_listener_impl): the guests that are expected to report, with the locale
    \<open>one_shot_registry\<close>.
  \<^item> \<open>Server\<close> (services/server, services/message.h, guest/vm_powerctl.h): the list of guests, the handlers of all messages, the
    guest threads, the listener for the guests; \<open>Server_Facts\<close> has what single steps do and the invariant, \<open>Server_Contract\<close> the locale
    \<open>server_pred\<close> that lifts a claim from the single steps to all handlers, \<open>Server_Reach\<close> the steps of a server and the states it
    reaches, \<open>Cid_Accounts\<close> the context ids in those states, and \<open>Registry\<close> the abstract server, a table of names and
    states, with the simulation.
  \<^item> \<open>Civ_System\<close>, \<open>Client\<close> (services/server, services/client): the segment, the start, the loop and the end of \<open>Server::Start\<close>, signals, \<open>Notify\<close>; \<open>Client_Facts\<close>
    and \<open>System_Reach\<close> hold what is proved about the protocol.
  \<^item> \<open>Vm_Flash\<close> (guest/vm_flash), \<open>Civ_Tui\<close> and \<open>Tui_Facts\<close> (guest/tui): the form as data, its events and what
    it saves; \<open>Tui_Layout\<close>: the tree of components it hands to ftxui.
  \<^item> \<open>Vm_Manager\<close> (vm_manager.cc): the commands, the options and \<open>main\<close>; \<open>Command_Facts\<close>, \<open>Request_Facts\<close> and
    \<open>Command_Truth\<close> follow requests from the command to the server and back, \<open>Main_Truth\<close> from the arguments to the exit code.
  \<^item> \<open>Guest_Services\<close> (android, host/app_launcher): the services in the guest and the application launcher.
  \<^item> \<open>Civ_Log\<close> (utils/log.h): the outputs of the log and the text of a line.

  \<^bold>\<open>State\<close>

  The state of a function is a record that grows with the layers: \<open>os_state\<close> (the world and the path that \<open>GetConfigPath\<close>
  caches), \<open>civ_state\<close> (the context id pool and a static string of the builder), \<open>build_state\<close> (the object \<open>this\<close>),
  \<open>server_state\<close> (guests by address, so that a pointer to a deleted guest is an address that is not listed and its use a
  crash; the listener's table; the guest threads), and \<open>system\<close> (a server process, the segment, a client).  What other
  threads and processes do meanwhile is an argument: \<open>ready\<close> for the reports of a guest, \<open>start_order\<close> for the race between
  a guest thread and the request that started it, \<open>schedule\<close> for the passes of the server while a client waits.

  \<^bold>\<open>What is proved\<close>

  \<^item> Context ids: exclusive, available, lowest first; a build that is destroyed leaves the pool as it was; in every state of a server
    whose shutdown calls are delivered the pool lacks exactly the ids of the listed guests.
  \<^item> Options: the check of a tree against the table, every branch of reading a file, that what the form saves is read
    back by the builder, and that it saves what it shows: the fields on the screen, and none that the selections hide.
  \<^item> Building: what a successful and a refused build leave behind, the shape of the command line, that PCI devices are given back,
    that no companion process can block the start, that no null pointer is used.
  \<^item> Host devices: sizes without overflow, enough huge pages, the lowest free virtual function, devices unbound before they are passed on.
  \<^item> Processes and guests: when \<open>Run\<close> blocks, that \<open>StopVm\<close> frees everything, when \<open>WaitVmReady\<close> is true.
  \<^item> Server: it refines the table of names and states; over every reachable state, names are distinct and the guest threads are exactly
    those of the running guests; a failed start leaks nothing; a ready callback is called at most once for each
    registration; every request gets a response.
  \<^item> Protocol: when \<open>Notify\<close> is true, that it is never refused, that a request is handled at most once, that \<open>StartGuest\<close>, \<open>StopGuest\<close> and \<open>StopServer\<close> tell
    the truth and \<open>ListGuest\<close> and \<open>GetGuestCid\<close> print it, what \<open>IsServerRunning\<close>
    says of a server that was killed, and what an exit code of 0 means for a start.
  \<^item> Flashing and services: the virtual disk is large enough; addresses fit their buffers; what the exit code of the launcher means;
    a daemon has the standard streams open and nothing else.

  Locales carry the shared arguments: \<open>state_preorder\<close> with its extensions \<open>builder_frame\<close>, \<open>builder_pci\<close>, \<open>builder_procs\<close>,
  \<open>builder_all\<close>, \<open>config_frame\<close>, \<open>proc_frame\<close>, \<open>run_frame\<close> and \<open>stop_frame\<close> say of a relation on states that each primitive step keeps it and
  conclude that whole functions do; \<open>server_pred\<close> says of a predicate on server states that each single step of a handler keeps it and concludes
  that it holds in every state the server reaches.  Each is interpreted for the relations and predicates the properties need.

  \<^bold>\<open>Bounds\<close>

  All loops of the code are bounded and modelled with the bound of the source: \<open>WaitVmReady\<close> 200 waits, \<open>Notify\<close> 100 waits,
  the wait for an unbound device 2000 checks, the wait for a new server as many checks as the source makes, seven power control
  sockets.  No fuel is chosen by the model, except for the events of the form, which are a list.  The loop of the server is a step, and its histories are
  the inductive predicates \<open>server_reach\<close> and \<open>system_reach\<close>.

  \<^bold>\<open>Not modelled\<close>

  \<^item> The calls of \<open>LOG\<close> in the components: nothing depends on them.
  \<^item> boost, gRPC, ftxui and the operating system themselves: they are the fields of \<open>env\<close> or arguments of a theorem, and a theorem that needs more than their types names
    the law it assumes (\<open>split_law\<close>, \<open>trim_law\<close>, \<open>shm_law\<close>, \<open>console_law\<close>, \<open>pid_law\<close>, \<open>ptree_law\<close>, \<open>ftxui_law\<close>, \<open>file_laws\<close>, \<open>fd_law\<close>).
  \<^item> Races on the bytes of the segment: a message that is found half written, and the moment between the end of the loop
    of the server and the removal of the segment; two servers that start at the same time.
  \<^item> \<open>Accept\<close>, \<open>AsyncWaitSignal\<close> and \<open>PrepareImportGuestClientShm\<close>, which are declared but not defined in the sources.
  \<^item> The template \<open>set_get_attrib\<close> of the log, which is not called.
\<close>

end
